(* ===== verification/Prelude.thy ===== *)
theory Prelude
  imports Main "HOL-Library.Word" "HOL-Library.Multiset"
begin

text \<open>
  What every other theory shares: the Go and SQL scalar types the program uses, the
  arithmetic of signed 64-bit values (Go's wrapping addition and PostgreSQL's
  \<open>bigint\<close>, which raises an error out of range instead), \<open>ORDER BY\<close> as a stable sort,
  and lemmas on sums over filtered lists.

  Go strings are byte sequences, so a \<^typ>\<open>string\<close> of HOL, whose characters are bytes,
  is a Go \<open>string\<close> or a \<open>[]byte\<close>. A time is the number of microseconds
  since an epoch, the resolution of PostgreSQL's \<open>timestamptz\<close>.
\<close>

named_theorems row_simps \<open>equations of the table operations\<close>
named_theorems inv_intros \<open>preservation of the table invariants\<close>

type_synonym int64 = "64 word"
type_synonym uuid = "128 word"
type_synonym time = int

text \<open>
  A \<open>uuid.UUID\<close> is sixteen bytes, and both Go and PostgreSQL compare UUIDs as byte
  strings, most significant byte first: the unsigned order of \<^typ>\<open>uuid\<close>.
\<close>

section \<open>Signed 64-bit arithmetic\<close>

abbreviation int64_range :: "int \<Rightarrow> bool" where
  "int64_range i \<equiv> - (2 ^ 63) \<le> i \<and> i < 2 ^ 63"

lemma sint64_range [simp]: "int64_range (sint (w :: int64))"
  using sint_greater_eq [of w] sint_less [of w] by simp

lemma sint64_of_int: "int64_range i \<Longrightarrow> sint (word_of_int i :: int64) = i"
  by (simp add: sint_sbintrunc' signed_take_bit_int_eq_self)

lemma sint64_add:
  "int64_range (sint a + sint b) \<Longrightarrow> sint (a + b :: int64) = sint a + sint b"
  by (simp add: sint_word_add signed_take_bit_int_eq_self)

lemma sint64_minus: "int64_range (- sint a) \<Longrightarrow> sint (- a :: int64) = - sint a"
  by (simp add: sint_word_minus signed_take_bit_int_eq_self)

lemma sint64_minus_pos: "0 < sint (a :: int64) \<Longrightarrow> sint (- a) = - sint a"
  using sint64_range [of a] by (intro sint64_minus) auto

lemma sint64_pos_iff: "(0 :: int64) <s a \<longleftrightarrow> 0 < sint a"
  by (simp add: word_sless_alt)

lemma sint64_nonpos_iff: "a \<le>s (0 :: int64) \<longleftrightarrow> sint a \<le> 0"
  by (simp add: word_sle_eq)

lemma sint64_inject: "sint (a :: int64) = sint b \<longleftrightarrow> a = b"
  by (metis word_sle_eq signed.order.antisym order_refl)

text \<open>
  \<open>bigint\<close> arithmetic in PostgreSQL: the exact result, or an out-of-range error.
\<close>

definition bigint :: "int \<Rightarrow> int64 option" where
  "bigint i = (if int64_range i then Some (word_of_int i) else None)"

definition bigint_add :: "int64 \<Rightarrow> int64 \<Rightarrow> int64 option" where
  "bigint_add a b = bigint (sint a + sint b)"

definition bigint_neg :: "int64 \<Rightarrow> int64 option" where
  "bigint_neg a = bigint (- sint a)"

lemma bigint_Some: "bigint i = Some w \<longleftrightarrow> int64_range i \<and> sint w = i"
proof
  assume "bigint i = Some w"
  then show "int64_range i \<and> sint w = i"
    by (auto simp: bigint_def sint64_of_int split: if_splits)
next
  assume "int64_range i \<and> sint w = i"
  then show "bigint i = Some w"
    by (auto simp: bigint_def simp flip: sint64_inject)
qed

lemma bigint_add_Some:
  "bigint_add a b = Some c \<Longrightarrow> sint c = sint a + sint b"
  by (simp add: bigint_add_def bigint_Some)

lemma bigint_neg_Some: "bigint_neg a = Some c \<Longrightarrow> sint c = - sint a"
  by (simp add: bigint_neg_def bigint_Some)

lemma bigint_neg_pos: "0 < sint a \<Longrightarrow> bigint_neg a = Some (- a)"
  using sint64_range [of a]
  by (auto simp: bigint_neg_def bigint_Some sint64_minus_pos)

section \<open>Sums over rows\<close>

lemma sum_list_filter_snoc:
  "(\<Sum>x \<leftarrow> filter P (xs @ [y]). f x) = (\<Sum>x \<leftarrow> filter P xs. f x) + (if P y then f y else (0::int))"
  by simp

lemma filter_map_eq:
  "(\<And>x. x \<in> set xs \<Longrightarrow> P (f x) = P x) \<Longrightarrow> filter P (map f xs) = map f (filter P xs)"
  by (induction xs) auto

lemma find_None_filter: "find P xs = None \<longleftrightarrow> filter P xs = []"
  by (auto simp: find_None_iff filter_empty_conv)

lemma find_append: "find P (xs @ ys) = (case find P xs of None \<Rightarrow> find P ys | Some x \<Rightarrow> Some x)"
  by (induction xs) auto

lemma find_SomeD: "find P xs = Some x \<Longrightarrow> x \<in> set xs \<and> P x"
  by (auto simp: find_Some_iff)

lemma find_unique:
  assumes "x \<in> set xs" and "P x" and "\<And>y. y \<in> set xs \<Longrightarrow> P y \<Longrightarrow> y = x"
  shows "find P xs = Some x"
proof (cases "find P xs")
  case None
  with assms(1,2) show ?thesis by (auto simp: find_None_iff)
next
  case (Some y)
  with assms(3) show ?thesis by (auto dest: find_SomeD)
qed

lemma distinct_map_snoc:
  "distinct (map f (xs @ [x])) \<longleftrightarrow> distinct (map f xs) \<and> f x \<notin> f ` set xs"
  by auto

section \<open>Case distinctions on the program's error monad\<close>

text \<open>
  Go's \<open>if err != nil { return err }\<close> is a case distinction on a sum, written out where
  the code has it. The two rules below take such a chain apart one call at a time.
\<close>

lemma case_sum_Inr_iff:
  "(case x of Inl e \<Rightarrow> Inl e | Inr a \<Rightarrow> f a) = Inr b \<longleftrightarrow> (\<exists>a. x = Inr a \<and> f a = Inr b)"
  by (cases x) auto

lemma case_option_fail_Inr_iff:
  "(case x of Some e \<Rightarrow> Inl (g e) | None \<Rightarrow> y) = Inr b \<longleftrightarrow> x = None \<and> y = Inr b"
  by (cases x) auto

lemmas chain_iffs = case_sum_Inr_iff case_option_fail_Inr_iff

end
