(* ===== verification/Decimal.thy ===== *)
theory Decimal
  imports Prelude
begin

text \<open>
  Decimal literals as \<open>strconv\<close> writes and reads them: \<open>show_int\<close> for \<open>%d\<close> and for the
  JSON encoding of an integer, \<open>read_int\<close> for its inverse.
\<close>

section \<open>Decimal literals\<close>

definition digit :: "nat \<Rightarrow> char" where
  "digit d = char_of (48 + d)"

fun show_nat :: "nat \<Rightarrow> string" where
  "show_nat n = (if n < 10 then [digit n] else show_nat (n div 10) @ [digit (n mod 10)])"

declare show_nat.simps [simp del]

definition show_int :: "int \<Rightarrow> string" where
  "show_int i = (if i < 0 then CHR ''-'' # show_nat (nat (- i)) else show_nat (nat i))"

text \<open>Reading a decimal literal back; the accumulator is the value of the digits read.\<close>

fun read_nat :: "nat \<Rightarrow> string \<Rightarrow> nat option" where
  "read_nat acc [] = Some acc"
| "read_nat acc (c # cs) =
     (if 48 \<le> (of_char c :: nat) \<and> (of_char c :: nat) \<le> 57
      then read_nat (10 * acc + (of_char c - 48)) cs else None)"

definition read_int :: "string \<Rightarrow> int option" where
  "read_int s =
     (case s of [] \<Rightarrow> None
      | c # cs \<Rightarrow>
          if c = CHR ''-'' then (if cs = [] then None else map_option (\<lambda>n. - int n) (read_nat 0 cs))
          else map_option int (read_nat 0 s))"

lemma of_char_digit: "d < 10 \<Longrightarrow> (of_char (digit d) :: nat) = 48 + d"
  by (simp add: digit_def)

lemma read_nat_append:
  "read_nat acc (xs @ ys) = (case read_nat acc xs of None \<Rightarrow> None | Some n \<Rightarrow> read_nat n ys)"
  by (induction xs arbitrary: acc) auto

lemma read_show_nat: "read_nat 0 (show_nat n) = Some n"
proof (induction n rule: show_nat.induct)
  case (1 n)
  show ?case
  proof (cases "n < 10")
    case True
    then show ?thesis by (simp add: show_nat.simps [of n] of_char_digit)
  next
    case False
    with 1 show ?thesis
      by (simp add: show_nat.simps [of n] of_char_digit read_nat_append)
  qed
qed

lemma show_nat_nonempty [simp]: "show_nat n \<noteq> []"
  by (subst show_nat.simps) simp

lemma hd_show_nat: "48 \<le> (of_char (hd (show_nat n)) :: nat)"
proof (induction n rule: show_nat.induct)
  case (1 n)
  then show ?case
    by (cases "n < 10") (simp_all add: show_nat.simps [of n] of_char_digit)
qed

lemma read_show_int: "read_int (show_int i) = Some i"
proof (cases "i < 0")
  case True
  then show ?thesis by (simp add: show_int_def read_int_def read_show_nat)
next
  case False
  obtain c cs where s: "show_nat (nat i) = c # cs"
    by (cases "show_nat (nat i)") auto
  with hd_show_nat [of "nat i"] have "c \<noteq> CHR ''-''" by auto
  with False s read_show_nat [of "nat i"] show ?thesis
    by (simp add: show_int_def read_int_def)
qed

lemma show_int_inject: "show_int i = show_int j \<longleftrightarrow> i = j"
  by (metis option.inject read_show_int)

end
