(* ===== verification/Errors.thy ===== *)
theory Errors
  imports Decimal
begin

text \<open>
  Go error values. The sentinels are the \<open>errors.New\<close> variables of
  \<open>internal/ledger/errors.go\<close>, \<open>internal/ledger/idempotency.go\<close>,
  \<open>internal/idempotency/idempotency.go\<close> and \<open>internal/storage/postgres/outbox.go\<close>,
  together with the sentinels of pgx and of the \<open>context\<close> package the code compares
  with. \<open>fmt.Errorf\<close> with \<open>%w\<close> wraps an error in a message; the arguments of the
  message are kept as a list of fragments, so that what reaches a client can be
  inspected.
\<close>

section \<open>Sentinels and chains\<close>

datatype sentinel =
    ErrAccountNotFound
  | ErrTransactionNotFound
  | ErrCurrencyMismatch
  | ErrInsufficientFunds
  | ErrSameAccount
  | ErrDuplicateExternalRef
  | ErrInvalidAmount
  | ErrInvalidCurrency
  | ErrInvalidAccountKind
  | ErrEmptyName
  | ErrIdempotencyKeyReuse
  | ErrKeyRequired
  | ErrKeyInvalid
  | ErrEventNotFound
  | ErrNoRows
  | Canceled
  | DeadlineExceeded

datatype frag = Str string | Dec int | Id uuid | Quoted string

text \<open>
  An error is a sentinel, a fresh message, a wrapped error, a \<open>*pgconn.PgError\<close> with
  its SQLSTATE and constraint name, or any other failure of the driver.
\<close>

datatype go_error =
    Sentinel sentinel
  | NewError "frag list"
  | Wrapf "frag list" go_error "frag list"
  | PgError string string
  | DriverError string

fun errors_Is :: "go_error \<Rightarrow> sentinel \<Rightarrow> bool" where
  "errors_Is (Sentinel s) t = (s = t)"
| "errors_Is (Wrapf _ e _) t = errors_Is e t"
| "errors_Is _ _ = False"

text \<open>\<open>errors.As(err, &pgErr)\<close>: the first \<open>PgError\<close> of the chain, its constraint name.\<close>

fun errors_As_PgError :: "go_error \<Rightarrow> string option" where
  "errors_As_PgError (PgError _ constraint) = Some constraint"
| "errors_As_PgError (Wrapf _ e _) = errors_As_PgError e"
| "errors_As_PgError _ = None"

definition wrap :: "string \<Rightarrow> go_error \<Rightarrow> go_error" where
  "wrap msg e = Wrapf [Str msg] e []"

lemma errors_Is_wrap [simp]: "errors_Is (wrap msg e) t = errors_Is e t"
  by (simp add: wrap_def)

lemma errors_As_wrap [simp]: "errors_As_PgError (wrap msg e) = errors_As_PgError e"
  by (simp add: wrap_def)

text \<open>A chain ends in one error, so it answers \<open>errors.Is\<close> for at most one sentinel.\<close>

lemma errors_Is_unique: "errors_Is e s \<Longrightarrow> errors_Is e t \<Longrightarrow> s = t"
  by (induction e) auto

lemma errors_Is_no_PgError: "errors_Is e s \<Longrightarrow> errors_As_PgError e = None"
  by (induction e) auto

section \<open>What the driver may report\<close>

text \<open>
  A call into pgx can fail with a server error, a cancelled context or a broken
  connection; it never returns one of the program's own sentinels.
\<close>

fun driver_failure :: "go_error \<Rightarrow> bool" where
  "driver_failure (Sentinel s) = (s \<in> {Canceled, DeadlineExceeded})"
| "driver_failure (PgError _ _) = True"
| "driver_failure (DriverError _) = True"
| "driver_failure _ = False"

lemma driver_failure_no_sentinel:
  "driver_failure e \<Longrightarrow> s \<notin> {Canceled, DeadlineExceeded} \<Longrightarrow> \<not> errors_Is e s"
  by (cases e) auto

section \<open>Messages\<close>

text \<open>
  The text of an error is what clients and operators read. The textual form of a UUID
  (google/uuid), of a server error (pgconn) and the quoting of \<open>%q\<close> (strconv's tables of
  printable runes) are parameters, collected in one record.
\<close>

record texts =
  uuid_String :: "uuid \<Rightarrow> string"
  PgError_Error :: "string \<Rightarrow> string \<Rightarrow> string"
  strconv_Quote :: "string \<Rightarrow> string"

fun sentinel_text :: "sentinel \<Rightarrow> string" where
  "sentinel_text ErrAccountNotFound = ''account not found''"
| "sentinel_text ErrTransactionNotFound = ''transaction not found''"
| "sentinel_text ErrCurrencyMismatch = ''currency mismatch''"
| "sentinel_text ErrInsufficientFunds = ''insufficient funds''"
| "sentinel_text ErrSameAccount = ''debit and credit accounts must differ''"
| "sentinel_text ErrDuplicateExternalRef = ''external reference already used''"
| "sentinel_text ErrInvalidAmount = ''amount must be positive''"
| "sentinel_text ErrInvalidCurrency = ''currency must be a 3-letter ISO-4217 code''"
| "sentinel_text ErrInvalidAccountKind = ''invalid account kind''"
| "sentinel_text ErrEmptyName = ''name must not be empty''"
| "sentinel_text ErrIdempotencyKeyReuse = ''idempotency key already used for a different request''"
| "sentinel_text ErrKeyRequired = ''Idempotency-Key header is required''"
| "sentinel_text ErrKeyInvalid = ''Idempotency-Key is malformed''"
| "sentinel_text ErrEventNotFound = ''event not found''"
| "sentinel_text ErrNoRows = ''no rows in result set''"
| "sentinel_text Canceled = ''context canceled''"
| "sentinel_text DeadlineExceeded = ''context deadline exceeded''"

fun frag_text :: "texts \<Rightarrow> frag \<Rightarrow> string" where
  "frag_text T (Str s) = s"
| "frag_text T (Dec i) = show_int i"
| "frag_text T (Id u) = uuid_String T u"
| "frag_text T (Quoted s) = strconv_Quote T s"

definition frags_text :: "texts \<Rightarrow> frag list \<Rightarrow> string" where
  "frags_text T fs = concat (map (frag_text T) fs)"

fun Error_text :: "texts \<Rightarrow> go_error \<Rightarrow> string" where
  "Error_text T (Sentinel s) = sentinel_text s"
| "Error_text T (NewError fs) = frags_text T fs"
| "Error_text T (Wrapf pre e post) = frags_text T pre @ Error_text T e @ frags_text T post"
| "Error_text T (PgError code constraint) = PgError_Error T code constraint"
| "Error_text T (DriverError msg) = msg"

text \<open>An error that wraps a sentinel says so in its message.\<close>

lemma Error_text_sentinel:
  "errors_Is e s \<Longrightarrow> \<exists>pre post. Error_text T e = pre @ sentinel_text s @ post"
proof (induction e)
  case (Sentinel t)
  then have "Error_text T (Sentinel t) = [] @ sentinel_text s @ []" by simp
  then show ?case by blast
next
  case (Wrapf pre e post)
  then obtain p q where "Error_text T e = p @ sentinel_text s @ q" by auto
  then have "Error_text T (Wrapf pre e post)
      = (frags_text T pre @ p) @ sentinel_text s @ (q @ frags_text T post)" by simp
  then show ?case by blast
qed simp_all

end
