(* ===== verification/Domain.thy ===== *)
theory Domain
  imports Errors
begin

text \<open>
  The domain layer, \<open>internal/ledger\<close>: money, accounts, entries, transactions, the
  commands with their validation, and the types of the idempotency protocol
  (\<open>Claim\<close>, \<open>RenderFunc\<close>, \<open>Result\<close>). Records have the fields of the Go structs,
  prefixed by the struct they belong to; \<open>int64\<close> fields are 64-bit words read as
  signed; a \<open>*string\<close> is a \<^typ>\<open>string option\<close>.
\<close>

section \<open>Go strings\<close>

text \<open>
  \<open>for _, r := range s\<close> iterates over the runes of \<open>s\<close>: the UTF-8 code points, with
  the replacement rune U+FFFD and a width of one byte for a byte that starts no valid
  encoding.
\<close>

definition byte :: "char \<Rightarrow> nat" where
  "byte c = of_char c"

definition cont :: "nat \<Rightarrow> bool" where
  "cont b \<longleftrightarrow> 128 \<le> b \<and> b < 192"

abbreviation rune_error :: nat where
  "rune_error \<equiv> 65533"

text \<open>
  The first rune of a byte sequence and its width, as \<open>utf8.DecodeRune\<close> gives them:
  encodings of two, three and four bytes, without overlong forms and surrogates.
\<close>

fun rune2 :: "nat \<Rightarrow> nat list \<Rightarrow> nat \<times> nat" where
  "rune2 b (c1 # _) = (if cont c1 then ((b - 192) * 64 + (c1 - 128), 2) else (rune_error, 1))"
| "rune2 b _ = (rune_error, 1)"

fun rune3 :: "nat \<Rightarrow> nat list \<Rightarrow> nat \<times> nat" where
  "rune3 b (c1 # c2 # _) =
     (if cont c1 \<and> cont c2 \<and> (b = 224 \<longrightarrow> 160 \<le> c1) \<and> (b = 237 \<longrightarrow> c1 < 160)
      then ((b - 224) * 4096 + (c1 - 128) * 64 + (c2 - 128), 3) else (rune_error, 1))"
| "rune3 b _ = (rune_error, 1)"

fun rune4 :: "nat \<Rightarrow> nat list \<Rightarrow> nat \<times> nat" where
  "rune4 b (c1 # c2 # c3 # _) =
     (if cont c1 \<and> cont c2 \<and> cont c3 \<and> (b = 240 \<longrightarrow> 144 \<le> c1) \<and> (b = 244 \<longrightarrow> c1 < 144)
      then ((b - 240) * 262144 + (c1 - 128) * 4096 + (c2 - 128) * 64 + (c3 - 128), 4)
      else (rune_error, 1))"
| "rune4 b _ = (rune_error, 1)"

fun decode_rune :: "nat list \<Rightarrow> nat \<times> nat" where
  "decode_rune [] = (rune_error, 0)"
| "decode_rune (b # bs) =
     (if b < 128 then (b, 1)
      else if 194 \<le> b \<and> b < 224 then rune2 b bs
      else if 224 \<le> b \<and> b < 240 then rune3 b bs
      else if 240 \<le> b \<and> b < 245 then rune4 b bs
      else (rune_error, 1))"

lemma rune2_width [simp]: "0 < snd (rune2 b bs)"
  by (induct b bs rule: rune2.induct) auto

lemma rune3_width [simp]: "0 < snd (rune3 b bs)"
  by (induct b bs rule: rune3.induct) auto

lemma rune4_width [simp]: "0 < snd (rune4 b bs)"
  by (induct b bs rule: rune4.induct) auto

lemma decode_rune_width: "bs \<noteq> [] \<Longrightarrow> 0 < snd (decode_rune bs)"
  by (cases bs) simp_all

lemma rune2_ge: "194 \<le> b \<Longrightarrow> 128 \<le> fst (rune2 b bs)"
  by (induct b bs rule: rune2.induct) auto

lemma rune3_ge: "224 \<le> b \<Longrightarrow> 128 \<le> fst (rune3 b bs)"
  by (induct b bs rule: rune3.induct) auto

lemma rune4_ge: "240 \<le> b \<Longrightarrow> 128 \<le> fst (rune4 b bs)"
  by (induct b bs rule: rune4.induct) auto

lemmas rune_ge = rune2_ge rune3_ge rune4_ge

function runes :: "nat list \<Rightarrow> nat list" where
  "runes bs = (if bs = [] then []
     else fst (decode_rune bs) # runes (drop (snd (decode_rune bs)) bs))"
  by pat_completeness auto
termination
proof (relation "measure length")
  fix bs :: "nat list"
  assume "bs \<noteq> []"
  then show "(drop (snd (decode_rune bs)) bs, bs) \<in> measure length"
    using decode_rune_width [of bs] by simp
qed simp

declare runes.simps [simp del]

lemma runes_Nil [simp]: "runes [] = []"
  by (simp add: runes.simps)

lemma decode_rune_ascii_iff:
  "fst (decode_rune (b # bs)) < 128 \<longleftrightarrow> b < 128"
  by (auto simp: not_less intro: rune_ge)

lemma decode_rune_ascii: "b < 128 \<Longrightarrow> decode_rune (b # bs) = (b, 1)"
  by simp


section \<open>money.go\<close>

record Money =
  money_amount :: int64
  money_currency :: string

definition IsPositive :: "Money \<Rightarrow> bool" where
  "IsPositive m \<longleftrightarrow> 0 <s money_amount m"

definition SameCurrency :: "Money \<Rightarrow> Money \<Rightarrow> bool" where
  "SameCurrency m other \<longleftrightarrow> money_currency m = money_currency other"

definition Money_String :: "Money \<Rightarrow> frag list" where
  "Money_String m = [Dec (sint (money_amount m)), Str '' '', Str (money_currency m)]"

definition ValidCurrency :: "string \<Rightarrow> bool" where
  "ValidCurrency s =
     (if length s \<noteq> 3 then False
      else list_all (\<lambda>r. \<not> (r < byte CHR ''A'' \<or> r > byte CHR ''Z'')) (runes (map byte s)))"

text \<open>The rune loop accepts exactly three bytes \<open>A\<close> to \<open>Z\<close>.\<close>

lemma list_all_runes_ascii:
  assumes "\<And>r. P r \<Longrightarrow> r < 128"
  shows "list_all P (runes bs) = list_all P bs"
proof (induction bs rule: runes.induct)
  case (1 bs)
  show ?case
  proof (cases bs)
    case Nil
    then show ?thesis by simp
  next
    case (Cons b bs')
    show ?thesis
    proof (cases "b < 128")
      case True
      with 1 Cons show ?thesis
        by (simp add: runes.simps [of "b # bs'"] decode_rune_ascii)
    next
      case False
      with assms have "\<not> P b" "\<not> P (fst (decode_rune (b # bs')))"
        using decode_rune_ascii_iff [of b bs'] by blast+
      with Cons show ?thesis
        by (simp add: runes.simps [of "b # bs'"])
    qed
  qed
qed

lemma ValidCurrency_iff:
  "ValidCurrency s \<longleftrightarrow> length s = 3 \<and> (\<forall>c \<in> set s. byte CHR ''A'' \<le> byte c \<and> byte c \<le> byte CHR ''Z'')"
proof -
  have "list_all (\<lambda>r. \<not> (r < byte CHR ''A'' \<or> r > byte CHR ''Z'')) (runes (map byte s))
      = list_all (\<lambda>r. \<not> (r < byte CHR ''A'' \<or> r > byte CHR ''Z'')) (map byte s)"
    by (rule list_all_runes_ascii) (auto simp: byte_def)
  then show ?thesis
    by (auto simp: ValidCurrency_def list_all_iff not_less)
qed

section \<open>account.go\<close>

type_synonym AccountKind = string

definition KindAsset :: AccountKind where "KindAsset = ''asset''"
definition KindLiability :: AccountKind where "KindLiability = ''liability''"
definition KindEquity :: AccountKind where "KindEquity = ''equity''"
definition KindRevenue :: AccountKind where "KindRevenue = ''revenue''"
definition KindExpense :: AccountKind where "KindExpense = ''expense''"

lemmas kind_defs =
  KindAsset_def KindLiability_def KindEquity_def KindRevenue_def KindExpense_def

definition Kind_Valid :: "AccountKind \<Rightarrow> bool" where
  "Kind_Valid k \<longleftrightarrow> k \<in> {KindAsset, KindLiability, KindEquity, KindRevenue, KindExpense}"

record Account =
  acc_ID :: uuid
  acc_Name :: string
  acc_Kind :: AccountKind
  acc_Currency :: string
  acc_Balance :: int64
  acc_AllowNegativeBalance :: bool
  acc_CreatedAt :: time
  acc_UpdatedAt :: time

definition Account_Money :: "Account \<Rightarrow> Money" where
  "Account_Money a = \<lparr>money_amount = acc_Balance a, money_currency = acc_Currency a\<rparr>"

record CreateAccountCommand =
  cac_Name :: string
  cac_Kind :: AccountKind
  cac_Currency :: string
  cac_AllowNegativeBalance :: bool

definition CreateAccountCommand_Validate :: "CreateAccountCommand \<Rightarrow> go_error option" where
  "CreateAccountCommand_Validate c =
     (if cac_Name c = [] then Some (Sentinel ErrEmptyName)
      else if \<not> Kind_Valid (cac_Kind c) then Some (Sentinel ErrInvalidAccountKind)
      else if \<not> ValidCurrency (cac_Currency c) then Some (Sentinel ErrInvalidCurrency)
      else None)"

section \<open>transaction.go\<close>

type_synonym Direction = string

definition Debit :: Direction where "Debit = ''debit''"
definition Credit :: Direction where "Credit = ''credit''"

lemma Debit_Credit [simp]: "Debit \<noteq> Credit" "Credit \<noteq> Debit"
  by (simp_all add: Debit_def Credit_def)

record Entry =
  ent_ID :: uuid
  ent_TransactionID :: uuid
  ent_AccountID :: uuid
  ent_Direction :: Direction
  ent_Amount :: int64
  ent_Currency :: string
  ent_CreatedAt :: time

definition SignedAmount :: "Entry \<Rightarrow> int64" where
  "SignedAmount e = (if ent_Direction e = Debit then ent_Amount e else - ent_Amount e)"

record Transaction =
  txn_ID :: uuid
  txn_ExternalRef :: "string option"
  txn_Description :: string
  txn_Currency :: string
  txn_CreatedAt :: time
  txn_Entries :: "Entry list"

text \<open>The sum is Go's: it wraps around at 64 bits.\<close>

definition Balanced :: "Transaction \<Rightarrow> bool" where
  "Balanced t \<longleftrightarrow> foldl (\<lambda>sum e. sum + SignedAmount e) (0 :: int64) (txn_Entries t) = 0"

record TransferCommand =
  cmd_DebitAccountID :: uuid
  cmd_CreditAccountID :: uuid
  cmd_Amount :: int64
  cmd_Currency :: string
  cmd_Description :: string
  cmd_ExternalRef :: "string option"

definition TransferCommand_Validate :: "TransferCommand \<Rightarrow> go_error option" where
  "TransferCommand_Validate c =
     (if cmd_Amount c \<le>s 0 then Some (Sentinel ErrInvalidAmount)
      else if \<not> ValidCurrency (cmd_Currency c) then Some (Sentinel ErrInvalidCurrency)
      else if cmd_DebitAccountID c = cmd_CreditAccountID c then Some (Sentinel ErrSameAccount)
      else None)"

section \<open>idempotency.go\<close>

record Claim =
  claim_Key :: string
  claim_Endpoint :: string
  claim_Fingerprint :: string

text \<open>A \<open>RenderFunc\<close> returns a status and the bytes of a body, or an error.\<close>

type_synonym RenderFunc = "Transaction \<Rightarrow> go_error + (int \<times> string)"

record Result =
  res_Status :: int
  res_Body :: string
  res_Replayed :: bool
  res_Transaction :: "Transaction option"

section \<open>Properties of the domain layer\<close>

lemma TransferCommand_Validate_None:
  "TransferCommand_Validate c = None \<longleftrightarrow>
     0 < sint (cmd_Amount c) \<and> ValidCurrency (cmd_Currency c)
     \<and> cmd_DebitAccountID c \<noteq> cmd_CreditAccountID c"
  by (simp add: TransferCommand_Validate_def sint64_nonpos_iff not_le)

lemma CreateAccountCommand_Validate_None:
  "CreateAccountCommand_Validate c = None \<longleftrightarrow>
     cac_Name c \<noteq> [] \<and> Kind_Valid (cac_Kind c) \<and> ValidCurrency (cac_Currency c)"
  by (simp add: CreateAccountCommand_Validate_def)

lemma foldl_SignedAmount:
  "foldl (\<lambda>sum e. sum + SignedAmount e) s es = s + (\<Sum>e \<leftarrow> es. SignedAmount e)"
  by (induction es arbitrary: s) (simp_all add: add.assoc)

lemma Balanced_sum: "Balanced t \<longleftrightarrow> (\<Sum>e \<leftarrow> txn_Entries t. SignedAmount e) = 0"
  by (simp add: Balanced_def foldl_SignedAmount)

text \<open>The exact sum, without wrap-around, and when the two agree.\<close>

definition exact_sum :: "Entry list \<Rightarrow> int" where
  "exact_sum es = (\<Sum>e \<leftarrow> es. sint (SignedAmount e))"

lemma sum_SignedAmount_of_exact:
  "(\<Sum>e \<leftarrow> es. SignedAmount e) = word_of_int (exact_sum es)"
  by (induction es) (simp_all add: exact_sum_def)

lemma Balanced_of_exact: "exact_sum (txn_Entries t) = 0 \<Longrightarrow> Balanced t"
  by (simp add: Balanced_sum sum_SignedAmount_of_exact)

lemma word_of_int_zero_small:
  "\<bar>i\<bar> < 2 ^ 64 \<Longrightarrow> (word_of_int i :: int64) = 0 \<longleftrightarrow> i = 0"
  by (auto simp: word_of_int_eq_0_iff dest: zdvd_imp_le)

end
