(* ===== verification/Json.thy ===== *)
theory Json
  imports Errors "HOL-Library.Char_ord" "HOL-Library.List_Lexorder"
begin

text \<open>
  JSON values as \<open>encoding/json\<close> sees them. An object is the list of its members in
  the order they are written, a number keeps its literal text (as \<open>json.Number\<close> does),
  and a string is its sequence of bytes after unescaping. Strings are ordered by their
  bytes, as Go and PostgreSQL order the keys of an object.
\<close>

datatype json =
    JNull
  | JBool bool
  | JNum string
  | JStr string
  | JArr "json list"
  | JObj "(string \<times> json) list"

lemma json_induct [case_names Null Bool Num Str Arr Obj]:
  assumes "P JNull" "\<And>b. P (JBool b)" "\<And>l. P (JNum l)" "\<And>s. P (JStr s)"
    and "\<And>vs. (\<And>v. v \<in> set vs \<Longrightarrow> P v) \<Longrightarrow> P (JArr vs)"
    and "\<And>ms. (\<And>m. m \<in> set ms \<Longrightarrow> P (snd m)) \<Longrightarrow> P (JObj ms)"
  shows "P v"
proof (induction v)
  case (JObj ms)
  have "P (snd m)" if "m \<in> set ms" for m
    by (rule JObj [OF that]) (simp add: snds.simps)
  then show ?case by (rule assms(6))
qed (use assms in blast)+

type_synonym members = "(string \<times> json) list"

text \<open>When a key occurs twice, the last member is the one that counts.\<close>

fun last_wins :: "(string \<times> 'v) list \<Rightarrow> (string \<times> 'v) list" where
  "last_wins [] = []"
| "last_wins (m # ms) = (if fst m \<in> fst ` set ms then last_wins ms else m # last_wins ms)"

lemma last_wins_keys [simp]: "fst ` set (last_wins ms) = fst ` set ms"
  by (induction ms) auto

lemma distinct_last_wins [simp]: "distinct (map fst (last_wins ms))"
  by (induction ms) auto

text \<open>
  A column of type \<open>jsonb\<close> keeps the value and not the text: duplicate keys are dropped
  and the members of an object are stored shortest key first, keys of one length by their
  bytes.
\<close>

definition jsonb_order :: "members \<Rightarrow> members" where
  "jsonb_order ms = sort_key (length \<circ> fst) (sort_key fst (last_wins ms))"

function (sequential) jsonb :: "json \<Rightarrow> json" and jsonb_elems :: "json list \<Rightarrow> json list"
    and jsonb_members :: "members \<Rightarrow> members" where
  "jsonb (JArr vs) = JArr (jsonb_elems vs)"
| "jsonb (JObj ms) = JObj (jsonb_order (jsonb_members ms))"
| "jsonb v = v"
| "jsonb_elems [] = []"
| "jsonb_elems (v # vs) = jsonb v # jsonb_elems vs"
| "jsonb_members [] = []"
| "jsonb_members (m # ms) = (fst m, jsonb (snd m)) # jsonb_members ms"
  by pat_completeness auto
termination
  by (relation "measure (case_sum size (case_sum (size_list size) (size_list (\<lambda>m. Suc (size (snd m))))))")
    (auto simp: size_prod_simp)

end
