(* ===== verification/Event.thy ===== *)
theory Event
  imports Domain Json
begin

text \<open>
  \<open>internal/outbox/event.go\<close>: the stored event, the envelope consumers receive, the
  payload of a \<open>ledger.transaction.created\<close> event and the record of one delivery.
  The textual form of a UUID is google/uuid's, a parameter \<open>U\<close> of the functions that
  put a UUID into JSON.
\<close>

section \<open>Constants\<close>

definition SchemaVersion :: int where "SchemaVersion = 1"
definition Producer :: string where "Producer = ''sumzero''"
definition EventTypeTransactionCreated :: string where
  "EventTypeTransactionCreated = ''ledger.transaction.created''"
definition AggregateTransaction :: string where "AggregateTransaction = ''transaction''"

type_synonym Status = string

definition StatusPending :: Status where "StatusPending = ''pending''"
definition StatusPublished :: Status where "StatusPublished = ''published''"
definition StatusFailed :: Status where "StatusFailed = ''failed''"

lemmas status_defs = StatusPending_def StatusPublished_def StatusFailed_def

lemma status_distinct [simp]:
  "StatusPending \<noteq> StatusPublished" "StatusPending \<noteq> StatusFailed" "StatusPublished \<noteq> StatusFailed"
  "StatusPublished \<noteq> StatusPending" "StatusFailed \<noteq> StatusPending" "StatusFailed \<noteq> StatusPublished"
  by (simp_all add: status_defs)

definition TriggerRelay :: string where "TriggerRelay = ''relay''"
definition TriggerManualReplay :: string where "TriggerManualReplay = ''manual_replay''"

section \<open>Types\<close>

record Aggregate =
  agg_Type :: string
  agg_ID :: uuid

record Envelope =
  envl_EventID :: uuid
  envl_EventType :: string
  envl_SchemaVersion :: int
  envl_OccurredAt :: time
  envl_Producer :: string
  envl_Aggregate :: Aggregate
  envl_Payload :: json

record EntryPayload =
  ep_AccountID :: uuid
  ep_Direction :: string
  ep_Amount :: int64

record TransactionCreatedPayload =
  tcp_TransactionID :: uuid
  tcp_Currency :: string
  tcp_ExternalRef :: "string option"
  tcp_Description :: string
  tcp_Entries :: "EntryPayload list"

record Event =
  ev_ID :: uuid
  ev_AggregateType :: string
  ev_AggregateID :: uuid
  ev_EventType :: string
  ev_SchemaVersion :: int
  ev_Payload :: json
  ev_Status :: Status
  ev_Attempts :: int
  ev_LastError :: "string option"
  ev_AvailableAt :: time
  ev_PublishedAt :: "time option"
  ev_CreatedAt :: time

record Delivery =
  dlv_ID :: int
  dlv_EventID :: uuid
  dlv_AttemptedAt :: time
  dlv_Succeeded :: bool
  dlv_Trigger :: string
  dlv_Error :: "string option"

section \<open>JSON encoding of the payload\<close>

text \<open>\<open>json.Marshal\<close> on a struct writes the fields in declaration order, by their tags.\<close>

definition json_opt_string :: "string option \<Rightarrow> json" where
  "json_opt_string s = (case s of None \<Rightarrow> JNull | Some x \<Rightarrow> JStr x)"

definition marshal_EntryPayload :: "(uuid \<Rightarrow> string) \<Rightarrow> EntryPayload \<Rightarrow> json" where
  "marshal_EntryPayload U e = JObj
     [(''account_id'', JStr (U (ep_AccountID e))),
      (''direction'', JStr (ep_Direction e)),
      (''amount'', JNum (show_int (sint (ep_Amount e))))]"

definition marshal_TransactionCreatedPayload ::
    "(uuid \<Rightarrow> string) \<Rightarrow> TransactionCreatedPayload \<Rightarrow> json" where
  "marshal_TransactionCreatedPayload U p = JObj
     [(''transaction_id'', JStr (U (tcp_TransactionID p))),
      (''currency'', JStr (tcp_Currency p)),
      (''external_ref'', json_opt_string (tcp_ExternalRef p)),
      (''description'', JStr (tcp_Description p)),
      (''entries'', JArr (map (marshal_EntryPayload U) (tcp_Entries p)))]"

section \<open>Operations\<close>

definition EntryPayload_of :: "Entry \<Rightarrow> EntryPayload" where
  "EntryPayload_of e =
     \<lparr>ep_AccountID = ent_AccountID e, ep_Direction = ent_Direction e, ep_Amount = ent_Amount e\<rparr>"

definition TransactionCreatedPayload_of :: "Transaction \<Rightarrow> TransactionCreatedPayload" where
  "TransactionCreatedPayload_of t =
     \<lparr>tcp_TransactionID = txn_ID t, tcp_Currency = txn_Currency t,
      tcp_ExternalRef = txn_ExternalRef t, tcp_Description = txn_Description t,
      tcp_Entries = map EntryPayload_of (txn_Entries t)\<rparr>"

text \<open>
  The new id is \<open>uuid.New()\<close>. Fields the Go literal leaves out have their zero value.
  Marshalling a struct of strings, integers and UUIDs cannot fail.
\<close>

definition NewTransactionCreated :: "(uuid \<Rightarrow> string) \<Rightarrow> uuid \<Rightarrow> Transaction \<Rightarrow> Event" where
  "NewTransactionCreated U new_id t =
     \<lparr>ev_ID = new_id,
      ev_AggregateType = AggregateTransaction,
      ev_AggregateID = txn_ID t,
      ev_EventType = EventTypeTransactionCreated,
      ev_SchemaVersion = SchemaVersion,
      ev_Payload = marshal_TransactionCreatedPayload U (TransactionCreatedPayload_of t),
      ev_Status = StatusPending,
      ev_Attempts = 0, ev_LastError = None, ev_AvailableAt = 0, ev_PublishedAt = None,
      ev_CreatedAt = 0\<rparr>"

definition Event_Envelope :: "Event \<Rightarrow> Envelope" where
  "Event_Envelope e =
     \<lparr>envl_EventID = ev_ID e, envl_EventType = ev_EventType e,
      envl_SchemaVersion = ev_SchemaVersion e, envl_OccurredAt = ev_CreatedAt e,
      envl_Producer = Producer,
      envl_Aggregate = \<lparr>agg_Type = ev_AggregateType e, agg_ID = ev_AggregateID e\<rparr>,
      envl_Payload = ev_Payload e\<rparr>"

end
