(* ===== verification/Schema.thy ===== *)
theory Schema
  imports Event
begin

text \<open>
  The PostgreSQL schema of \<open>internal/storage/postgres/migrations\<close> and the meaning of the
  statements the store sends to it: tables as lists of rows in insertion order, or maps
  where the code reaches a row by its primary key only; the constraints of the DDL as
  checks on insertion and update; the deferred zero-sum trigger; one database
  transaction as the pair of its starting state and its working state.

  What PostgreSQL, pgx and google/uuid contribute beyond the SQL text is the record
  \<open>env\<close>, one value per call of the store: the transaction's \<open>now()\<close>, the values of
  \<open>uuid.New()\<close>, which driver calls fail, whether a failed \<open>COMMIT\<close> had been applied by
  the server, which byte strings the server accepts as text and as json, which rows
  other sessions hold locked, and the order in which a scan visits the events table.
\<close>

section \<open>Enumerated types\<close>

datatype account_kind = Asset | Liability | Equity | Revenue | Expense
datatype entry_direction = Debit_leg | Credit_leg
datatype outbox_status = Pending | Published | Failed

text \<open>An enum value travels as its label.\<close>

fun kind_label :: "account_kind \<Rightarrow> string" where
  "kind_label Asset = ''asset''"
| "kind_label Liability = ''liability''"
| "kind_label Equity = ''equity''"
| "kind_label Revenue = ''revenue''"
| "kind_label Expense = ''expense''"

definition kind_of_label :: "string \<Rightarrow> account_kind option" where
  "kind_of_label s = find (\<lambda>k. kind_label k = s) [Asset, Liability, Equity, Revenue, Expense]"

fun direction_label :: "entry_direction \<Rightarrow> string" where
  "direction_label Debit_leg = ''debit''"
| "direction_label Credit_leg = ''credit''"

definition direction_of_label :: "string \<Rightarrow> entry_direction option" where
  "direction_of_label s = find (\<lambda>d. direction_label d = s) [Debit_leg, Credit_leg]"

fun status_label :: "outbox_status \<Rightarrow> string" where
  "status_label Pending = ''pending''"
| "status_label Published = ''published''"
| "status_label Failed = ''failed''"

definition status_of_label :: "string \<Rightarrow> outbox_status option" where
  "status_of_label s = find (\<lambda>t. status_label t = s) [Pending, Published, Failed]"

lemma kind_of_kind_label [simp]: "kind_of_label (kind_label k) = Some k"
  by (cases k) (simp_all add: kind_of_label_def)

lemma direction_of_direction_label [simp]: "direction_of_label (direction_label d) = Some d"
  by (cases d) (simp_all add: direction_of_label_def)

lemma status_of_status_label [simp]: "status_of_label (status_label t) = Some t"
  by (cases t) (simp_all add: status_of_label_def)

lemma kind_of_label_SomeD: "kind_of_label s = Some k \<Longrightarrow> s = kind_label k"
  unfolding kind_of_label_def by (drule find_SomeD) simp

lemma direction_of_label_SomeD: "direction_of_label s = Some d \<Longrightarrow> s = direction_label d"
  unfolding direction_of_label_def by (drule find_SomeD) simp

lemma status_of_label_SomeD: "status_of_label s = Some t \<Longrightarrow> s = status_label t"
  unfolding status_of_label_def by (drule find_SomeD) simp

lemma kind_of_label_Valid: "Kind_Valid s \<longleftrightarrow> kind_of_label s \<noteq> None"
  by (auto simp: Kind_Valid_def kind_of_label_def kind_defs)

lemma direction_of_Debit [simp]: "direction_of_label Debit = Some Debit_leg"
  by (simp add: direction_of_label_def Debit_def)

lemma direction_of_Credit [simp]: "direction_of_label Credit = Some Credit_leg"
  by (simp add: direction_of_label_def Credit_def)

lemma status_of_defs [simp]:
  "status_of_label StatusPending = Some Pending"
  "status_of_label StatusPublished = Some Published"
  "status_of_label StatusFailed = Some Failed"
  by (simp_all add: status_of_label_def status_defs)

text \<open>
  PostgreSQL orders the values of an enum as they are declared, so \<open>ORDER BY direction\<close>
  puts debit before credit.
\<close>

instantiation entry_direction :: linorder
begin

definition less_eq_entry_direction :: "entry_direction \<Rightarrow> entry_direction \<Rightarrow> bool" where
  "less_eq_entry_direction a b \<longleftrightarrow> a = Debit_leg \<or> b = Credit_leg"

definition less_entry_direction :: "entry_direction \<Rightarrow> entry_direction \<Rightarrow> bool" where
  "less_entry_direction a b \<longleftrightarrow> a = Debit_leg \<and> b = Credit_leg"

instance
proof
  fix x y z :: entry_direction
  show "(x < y) = (x \<le> y \<and> \<not> y \<le> x)"
    by (cases x; cases y) (simp_all add: less_eq_entry_direction_def less_entry_direction_def)
  show "x \<le> x"
    by (cases x) (simp_all add: less_eq_entry_direction_def)
  show "x \<le> y \<Longrightarrow> y \<le> z \<Longrightarrow> x \<le> z"
    by (auto simp: less_eq_entry_direction_def)
  show "x \<le> y \<Longrightarrow> y \<le> x \<Longrightarrow> x = y"
    by (auto simp: less_eq_entry_direction_def)
  show "x \<le> y \<or> y \<le> x"
    by (cases x; cases y) (simp_all add: less_eq_entry_direction_def)
qed

end

section \<open>Tables\<close>

record account_row =
  ar_name :: string
  ar_kind :: account_kind
  ar_currency :: string
  ar_balance :: int64
  ar_allow_negative_balance :: bool
  ar_created_at :: time
  ar_updated_at :: time

record transaction_row =
  tr_id :: uuid
  tr_external_ref :: "string option"
  tr_description :: string
  tr_currency :: string
  tr_created_at :: time

record entry_row =
  er_id :: uuid
  er_transaction_id :: uuid
  er_account_id :: uuid
  er_direction :: entry_direction
  er_amount :: int64
  er_currency :: string
  er_signed_amount :: int64
  er_created_at :: time

record idempotency_row =
  ir_request_hash :: string
  ir_response_status :: "int option"
  ir_response_body :: "string option"
  ir_transaction_id :: "uuid option"
  ir_created_at :: time
  ir_expires_at :: time

record event_row =
  vr_id :: uuid
  vr_aggregate_type :: string
  vr_aggregate_id :: uuid
  vr_event_type :: string
  vr_schema_version :: int
  vr_payload :: json
  vr_status :: outbox_status
  vr_attempts :: int
  vr_last_error :: "string option"
  vr_available_at :: time
  vr_published_at :: "time option"
  vr_created_at :: time

record delivery_row =
  dr_id :: int
  dr_event_id :: uuid
  dr_attempted_at :: time
  dr_succeeded :: bool
  dr_trigger :: string
  dr_error :: "string option"

record db =
  accounts :: "uuid \<rightharpoonup> account_row"
  transactions :: "transaction_row list"
  ledger_entries :: "entry_row list"
  idempotency_keys :: "(string \<times> string) \<rightharpoonup> idempotency_row"
  outbox_events :: "event_row list"
  outbox_deliveries :: "delivery_row list"
  delivery_seq :: int

definition empty_db :: db where
  "empty_db = \<lparr>accounts = Map.empty, transactions = [], ledger_entries = [],
     idempotency_keys = Map.empty, outbox_events = [], outbox_deliveries = [],
     delivery_seq = 1\<rparr>"

section \<open>What the server and the driver decide\<close>

text \<open>
  The places where the store calls the driver and handles an error of the call; a value
  of \<open>fails\<close> other than \<^const>\<open>None\<close> is the error that call returns.
\<close>

datatype site =
    CreateAccountQuery | GetAccountQuery
  | BeginTransfer | ClaimExec | ReplayQuery
  | LockQuery | LockScan | LockRows
  | InsertTransaction | InsertEntry string | ApplyBalancesExec | InsertEventQuery
  | StoreResponseExec | CommitTransfer
  | GetTransactionQuery | EntriesQuery | EntriesScan | EntriesRows
  | GetEventQuery | DeliveriesQuery | DeliveriesScan | DeliveriesRows
  | BeginDispatch | ClaimBatchQuery | BatchScan | BatchRows
  | MarkPublished uuid | MarkFailed uuid | RecordDelivery uuid | CommitDispatch
  | BeginReplay | ReplaySelect | ReplayReload | ReplayDeliveryQuery | CommitReplay

record env =
  env_texts :: texts
  now :: time
  new_uuid :: "nat \<Rightarrow> uuid"
  fails :: "site \<Rightarrow> go_error option"
  commit_applied :: bool
  text_ok :: "string \<Rightarrow> bool"
  json_ok :: "string \<Rightarrow> bool"
  row_locked :: "uuid \<Rightarrow> bool"
  heap_order :: "event_row list \<Rightarrow> event_row list"

text \<open>
  Every call succeeds; every failure is one the driver can report; a scan visits every
  row once.
\<close>

definition no_faults :: "env \<Rightarrow> bool" where
  "no_faults E \<longleftrightarrow> (\<forall>s. fails E s = None)"

definition driver_faults :: "env \<Rightarrow> bool" where
  "driver_faults E \<longleftrightarrow> (\<forall>s e. fails E s = Some e \<longrightarrow> driver_failure e)"

definition scans_all :: "env \<Rightarrow> bool" where
  "scans_all E \<longleftrightarrow> (\<forall>rows. mset (heap_order E rows) = mset rows)"

lemma no_faultsD [simp]: "no_faults E \<Longrightarrow> fails E s = None"
  by (simp add: no_faults_def)

text \<open>One call: the error of the driver, or what the statement does.\<close>

definition call :: "env \<Rightarrow> site \<Rightarrow> (go_error + 'a) \<Rightarrow> go_error + 'a" where
  "call E s r = (case fails E s of Some e \<Rightarrow> Inl e | None \<Rightarrow> r)"

lemma call_Inr_iff: "call E s r = Inr x \<longleftrightarrow> fails E s = None \<and> r = Inr x"
  by (simp add: call_def split: option.split)

lemma call_no_fault [simp]: "fails E s = None \<Longrightarrow> call E s r = r"
  by (simp add: call_def)

section \<open>SQLSTATE codes and text input\<close>

definition check_violation :: string where "check_violation = ''23514''"
definition unique_violation :: string where "unique_violation = ''23505''"
definition foreign_key_violation :: string where "foreign_key_violation = ''23503''"
definition numeric_out_of_range :: string where "numeric_out_of_range = ''22003''"
definition string_too_long :: string where "string_too_long = ''22001''"
definition invalid_text :: string where "invalid_text = ''22P02''"
definition bad_encoding :: string where "bad_encoding = ''22021''"

text \<open>
  A parameter of type \<open>text\<close> must be valid in the server's encoding. \<open>char(3)\<close> counts
  characters: trailing blanks beyond three are cut, a longer value is refused, a shorter
  one is padded with blanks.
\<close>

definition text_param :: "env \<Rightarrow> string \<Rightarrow> go_error + string" where
  "text_param E s = (if text_ok E s then Inr s else Inl (PgError bad_encoding []))"

definition char_count :: "string \<Rightarrow> nat" where
  "char_count s = length (filter (\<lambda>c. \<not> cont (byte c)) s)"

definition rtrim :: "string \<Rightarrow> string" where
  "rtrim s = rev (dropWhile (\<lambda>c. c = CHR '' '') (rev s))"

definition char3_param :: "env \<Rightarrow> string \<Rightarrow> go_error + string" where
  "char3_param E s =
     (if \<not> text_ok E s then Inl (PgError bad_encoding [])
      else let t = rtrim s in
        if 3 < char_count t then Inl (PgError string_too_long [])
        else Inr (t @ replicate (3 - char_count t) CHR '' ''))"

lemma text_param_Inr [simp]: "text_param E s = Inr t \<longleftrightarrow> text_ok E s \<and> t = s"
  by (auto simp: text_param_def)

text \<open>A currency code the domain accepts is stored as it is.\<close>

lemma char3_param_ValidCurrency:
  assumes "ValidCurrency s" and "text_ok E s"
  shows "char3_param E s = Inr s"
proof -
  from assms(1) have len: "length s = 3"
    and up: "\<forall>c \<in> set s. byte CHR ''A'' \<le> byte c \<and> byte c \<le> byte CHR ''Z''"
    by (simp_all add: ValidCurrency_iff)
  have nc: "\<not> cont (byte c)" if "c \<in> set s" for c
    using up that by (auto simp: cont_def byte_def)
  then have cc: "char_count s = 3"
    using len by (simp add: char_count_def)
  have "CHR '' '' \<notin> set s"
    using up by (auto simp: byte_def)
  then have "dropWhile (\<lambda>c. c = CHR '' '') (rev s) = rev s"
    by (cases "rev s") (use len in auto)
  then have "rtrim s = s" by (simp add: rtrim_def)
  with cc assms(2) show ?thesis by (simp add: char3_param_def)
qed

lemma char3_param_cong: "char3_param E s = Inr t \<Longrightarrow> text_ok E s"
  by (simp add: char3_param_def split: if_splits)

section \<open>Constraints and row operations\<close>

text \<open>
  Inserting a row evaluates the generated column, then the \<open>CHECK\<close> constraints, then
  the unique indexes, then the foreign keys, and reports the first that fails.
\<close>

definition insert_account :: "uuid \<Rightarrow> account_row \<Rightarrow> db \<Rightarrow> go_error + db" where
  "insert_account aid r d =
     (if \<not> (ar_allow_negative_balance r \<or> 0 \<le>s ar_balance r)
      then Inl (PgError check_violation ''accounts_balance_floor'')
      else if accounts d aid \<noteq> None then Inl (PgError unique_violation ''accounts_pkey'')
      else Inr (d\<lparr>accounts := (accounts d)(aid \<mapsto> r)\<rparr>))"

definition external_ref_used :: "db \<Rightarrow> string option \<Rightarrow> bool" where
  "external_ref_used d ref \<longleftrightarrow> ref \<noteq> None \<and> ref \<in> set (map tr_external_ref (transactions d))"

definition transaction_exists :: "db \<Rightarrow> uuid \<Rightarrow> bool" where
  "transaction_exists d txid \<longleftrightarrow> txid \<in> set (map tr_id (transactions d))"

definition insert_transaction :: "transaction_row \<Rightarrow> db \<Rightarrow> go_error + db" where
  "insert_transaction r d =
     (if transaction_exists d (tr_id r) then Inl (PgError unique_violation ''transactions_pkey'')
      else if external_ref_used d (tr_external_ref r)
      then Inl (PgError unique_violation ''transactions_external_ref_key'')
      else Inr (d\<lparr>transactions := transactions d @ [r]\<rparr>))"

text \<open>The generated column \<open>signed_amount\<close>.\<close>

definition signed_amount :: "entry_direction \<Rightarrow> int64 \<Rightarrow> int64 option" where
  "signed_amount dir amount = (if dir = Debit_leg then Some amount else bigint_neg amount)"

definition insert_entry :: "uuid \<Rightarrow> uuid \<Rightarrow> uuid \<Rightarrow> entry_direction \<Rightarrow> int64 \<Rightarrow> string \<Rightarrow> time
    \<Rightarrow> db \<Rightarrow> go_error + db" where
  "insert_entry eid txid account dir amount currency created d =
     (case signed_amount dir amount of
        None \<Rightarrow> Inl (PgError numeric_out_of_range [])
      | Some sgnd \<Rightarrow>
          if \<not> 0 <s amount then Inl (PgError check_violation ''ledger_entries_amount_check'')
          else if eid \<in> set (map er_id (ledger_entries d))
          then Inl (PgError unique_violation ''ledger_entries_pkey'')
          else if \<not> transaction_exists d txid
          then Inl (PgError foreign_key_violation ''ledger_entries_transaction_id_fkey'')
          else if accounts d account = None
          then Inl (PgError foreign_key_violation ''ledger_entries_account_id_fkey'')
          else Inr (d\<lparr>ledger_entries := ledger_entries d @
                 [\<lparr>er_id = eid, er_transaction_id = txid, er_account_id = account,
                   er_direction = dir, er_amount = amount, er_currency = currency,
                   er_signed_amount = sgnd, er_created_at = created\<rparr>]\<rparr>))"

text \<open>Adding a delta to one account's balance, with the range of \<open>bigint\<close> and the floor.\<close>

definition update_balance :: "uuid \<Rightarrow> int64 option \<Rightarrow> time \<Rightarrow> db \<Rightarrow> go_error + db" where
  "update_balance aid delta t d =
     (case accounts d aid of
        None \<Rightarrow> Inr d
      | Some r \<Rightarrow>
          (case Option.bind delta (bigint_add (ar_balance r)) of
             None \<Rightarrow> Inl (PgError numeric_out_of_range [])
           | Some b \<Rightarrow>
               if \<not> (ar_allow_negative_balance r \<or> 0 \<le>s b)
               then Inl (PgError check_violation ''accounts_balance_floor'')
               else Inr (d\<lparr>accounts := (accounts d)(aid \<mapsto> r\<lparr>ar_balance := b, ar_updated_at := t\<rparr>)\<rparr>)))"

definition insert_event :: "event_row \<Rightarrow> db \<Rightarrow> go_error + db" where
  "insert_event r d =
     (if vr_id r \<in> set (map vr_id (outbox_events d))
      then Inl (PgError unique_violation ''outbox_events_pkey'')
      else Inr (d\<lparr>outbox_events := outbox_events d @ [r]\<rparr>))"

text \<open>
  A delivery's id comes from a sequence, which does not go back when a transaction is
  rolled back.
\<close>

definition insert_delivery :: "uuid \<Rightarrow> time \<Rightarrow> bool \<Rightarrow> string \<Rightarrow> string option \<Rightarrow> db \<Rightarrow> go_error + db" where
  "insert_delivery event t succeeded trigger err d =
     (let n = delivery_seq d; d' = d\<lparr>delivery_seq := n + 1\<rparr> in
      if event \<notin> set (map vr_id (outbox_events d))
      then Inl (PgError foreign_key_violation ''outbox_deliveries_event_id_fkey'')
      else Inr (d'\<lparr>outbox_deliveries := outbox_deliveries d @
             [\<lparr>dr_id = n, dr_event_id = event, dr_attempted_at = t, dr_succeeded = succeeded,
               dr_trigger = trigger, dr_error = err\<rparr>]\<rparr>))"

section \<open>The zero-sum trigger\<close>

definition legs_of :: "db \<Rightarrow> uuid \<Rightarrow> entry_row list" where
  "legs_of d txid = filter (\<lambda>e. er_transaction_id e = txid) (ledger_entries d)"

definition imbalance :: "db \<Rightarrow> uuid \<Rightarrow> int" where
  "imbalance d txid = (\<Sum>e \<leftarrow> legs_of d txid. sint (er_signed_amount e))"

text \<open>
  \<open>SUM\<close> over \<open>bigint\<close> is exact; assigning it to the \<open>bigint\<close> variable fails out of
  range. \<open>RAISE EXCEPTION\<close> names an SQLSTATE but no constraint.
\<close>

definition assert_transaction_balanced :: "db \<Rightarrow> uuid \<Rightarrow> go_error option" where
  "assert_transaction_balanced d txid =
     (let leg_count = length (legs_of d txid) in
      case bigint (imbalance d txid) of
        None \<Rightarrow> Some (PgError numeric_out_of_range [])
      | Some im \<Rightarrow>
          if leg_count = 0 then None
          else if leg_count < 2 then Some (PgError check_violation [])
          else if sint im \<noteq> 0 then Some (PgError check_violation [])
          else None)"

text \<open>The trigger is deferred: one event per inserted entry, run at \<open>COMMIT\<close>.\<close>

fun run_deferred :: "db \<Rightarrow> uuid list \<Rightarrow> go_error option" where
  "run_deferred d [] = None"
| "run_deferred d (txid # ids) =
     (case assert_transaction_balanced d txid of Some e \<Rightarrow> Some e | None \<Rightarrow> run_deferred d ids)"

section \<open>Database transactions\<close>

text \<open>
  A \<open>pgx.Tx\<close>: the state the transaction started from, its working state, and the queue
  of deferred trigger events. The deferred \<open>Rollback\<close> of the Go code restores the
  starting state, except for the sequence.
\<close>

record tx =
  tx_base :: db
  tx_work :: db
  tx_deferred :: "uuid list"

definition tx_begin :: "db \<Rightarrow> tx" where
  "tx_begin d = \<lparr>tx_base = d, tx_work = d, tx_deferred = []\<rparr>"

definition tx_rollback :: "tx \<Rightarrow> db" where
  "tx_rollback t = (tx_base t)\<lparr>delivery_seq := delivery_seq (tx_work t)\<rparr>"

text \<open>
  A statement outside an explicit transaction commits by itself: the driver may report
  a failure although the server had applied it.
\<close>

definition autocommit :: "env \<Rightarrow> site \<Rightarrow> go_error + db \<Rightarrow> db \<Rightarrow> go_error option \<times> db" where
  "autocommit E s r d =
     (case r of
        Inl e \<Rightarrow> (Some (case fails E s of Some f \<Rightarrow> f | None \<Rightarrow> e), d)
      | Inr d' \<Rightarrow>
          (case fails E s of
             None \<Rightarrow> (None, d')
           | Some f \<Rightarrow> (Some f, if commit_applied E then d' else d)))"

text \<open>
  \<open>COMMIT\<close> runs the deferred triggers. When the call fails in the driver the client
  cannot tell whether the server had committed; \<open>commit_applied\<close> says which it was.
\<close>

definition tx_commit :: "env \<Rightarrow> site \<Rightarrow> tx \<Rightarrow> go_error option \<times> db" where
  "tx_commit E s t =
     (case run_deferred (tx_work t) (tx_deferred t) of
        Some e \<Rightarrow> (Some (case fails E s of Some f \<Rightarrow> f | None \<Rightarrow> e), tx_rollback t)
      | None \<Rightarrow>
          (case fails E s of
             None \<Rightarrow> (None, tx_work t)
           | Some f \<Rightarrow> (Some f, if commit_applied E then tx_work t else tx_rollback t)))"

lemma tx_rollback_begin [simp]: "tx_rollback (tx_begin d) = d"
  by (simp add: tx_rollback_def tx_begin_def)

lemma tx_begin_sel [simp]:
  "tx_base (tx_begin d) = d" "tx_work (tx_begin d) = d" "tx_deferred (tx_begin d) = []"
  by (simp_all add: tx_begin_def)

end
