(* ===== verification/Publisher.thy ===== *)
theory Publisher
  imports Event
begin

text \<open>
  \<open>internal/outbox/publisher.go\<close> and the retry policy of \<open>internal/outbox/relay.go\<close>.
  A publisher is a function that delivers an envelope and returns an error or none; the
  type variable \<open>'p\<close> is whatever it changes outside the database (a log, a broker).
\<close>

section \<open>Publishers\<close>

type_synonym 'p publisher = "Envelope \<Rightarrow> 'p \<Rightarrow> go_error option \<times> 'p"

text \<open>\<open>LogPublisher\<close> appends the envelope to the structured log and never fails.\<close>

definition LogPublisher_Publish :: "Envelope list publisher" where
  "LogPublisher_Publish e log = (None, log @ [e])"

record RecordingPublisher =
  rp_published :: "Envelope list"
  rp_Err :: "go_error option"

definition RecordingPublisher_Publish :: "RecordingPublisher publisher" where
  "RecordingPublisher_Publish e p =
     (if rp_Err p \<noteq> None then (rp_Err p, p)
      else (None, p\<lparr>rp_published := rp_published p @ [e]\<rparr>))"

definition RecordingPublisher_Published :: "RecordingPublisher \<Rightarrow> Envelope list" where
  "RecordingPublisher_Published p = rp_published p"

definition RecordingPublisher_Count :: "RecordingPublisher \<Rightarrow> nat" where
  "RecordingPublisher_Count p = length (rp_published p)"

section \<open>Retry policy\<close>

text \<open>A \<open>time.Duration\<close> is a signed 64-bit number of nanoseconds.\<close>

definition Second :: int64 where "Second = 1000000000"
definition MaxAttempts :: int where "MaxAttempts = 10"
definition MaxBackoff :: int64 where "MaxBackoff = 5 * 60 * Second"

definition Backoff :: "int \<Rightarrow> int64" where
  "Backoff attempts0 =
     (let attempts = (if attempts0 < 1 then 1 else attempts0) in
      if attempts > 20 then MaxBackoff
      else let d = push_bit (nat (attempts - 1)) 1 * Second in
        if MaxBackoff <s d then MaxBackoff else d)"

text \<open>
  The retry delay in closed form: \<open>2 ^ (n - 1)\<close> seconds, at least one, at most 300. The
  shift never leaves the 64-bit range because it is capped first.
\<close>

definition backoff_seconds :: "int \<Rightarrow> int" where
  "backoff_seconds n = min 300 (2 ^ nat (max 1 n - 1))"

lemma Second_sint: "sint Second = 1000000000"
  by (simp add: Second_def)

lemma MaxBackoff_sint: "sint MaxBackoff = 300 * 1000000000"
  by (simp add: MaxBackoff_def Second_def)

lemma sint_shifted_seconds:
  assumes "k < 20"
  shows "sint (push_bit k 1 * Second) = 2 ^ k * 1000000000"
proof -
  have "(2 :: int) ^ k \<le> 524288"
    using power_increasing [of k 19 "2 :: int"] assms by simp
  moreover have "(0 :: int) < 2 ^ k" by simp
  moreover have "(2 :: int) ^ 63 = 9223372036854775808" by simp
  ultimately have "int64_range (2 ^ k * 1000000000)" by linarith
  moreover have "push_bit k 1 * Second = word_of_int (2 ^ k * 1000000000)"
    by (simp add: push_bit_eq_mult Second_def)
  ultimately show ?thesis by (simp only: sint64_of_int)
qed

lemma Backoff_closed_form: "sint (Backoff n) = backoff_seconds n * 1000000000"
proof -
  define m where "m = max 1 n"
  have m: "(if n < 1 then 1 else n) = m" by (simp add: m_def)
  show ?thesis
  proof (cases "m > 20")
    case True
    then have "(2 :: int) ^ 9 \<le> 2 ^ nat (m - 1)"
      by (intro power_increasing) auto
    then have "backoff_seconds n = 300"
      by (simp add: backoff_seconds_def flip: m_def)
    with True show ?thesis
      by (simp add: Backoff_def m MaxBackoff_sint del: of_int_mult)
  next
    case False
    then have "nat (m - 1) < 20" using m_def by auto
    then have sh: "sint (push_bit (nat (m - 1)) 1 * Second) = 2 ^ nat (m - 1) * 1000000000"
      by (rule sint_shifted_seconds)
    with False show ?thesis
      unfolding Backoff_def m backoff_seconds_def Let_def
      by (simp add: word_sless_alt MaxBackoff_sint min_def m_def)
  qed
qed

lemma backoff_seconds_bounds: "1 \<le> backoff_seconds n" "backoff_seconds n \<le> 300"
  by (simp_all add: backoff_seconds_def)

lemma backoff_seconds_mono: "m \<le> n \<Longrightarrow> backoff_seconds m \<le> backoff_seconds n"
  unfolding backoff_seconds_def
  by (intro min.mono order_refl power_increasing) auto

end
