(* ===== verification/Outbox_Store.thy ===== *)
theory Outbox_Store
  imports Schema Publisher
begin

text \<open>
  \<open>internal/storage/postgres/outbox.go\<close>: inserting the event of a transfer, reading
  events and deliveries, dispatching a batch to a publisher and replaying one event.
  Operations that talk to a publisher thread its state \<open>'p\<close>, which no rollback undoes.
\<close>

section \<open>Reading rows\<close>

text \<open>\<open>for rows.Next() { rows.Scan(...) }\<close>: a scan can only fail when there is a row.\<close>

definition scan_rows :: "env \<Rightarrow> site \<Rightarrow> string \<Rightarrow> 'r list \<Rightarrow> go_error + 'r list" where
  "scan_rows E s msg rows =
     (if rows = [] then Inr []
      else case fails E s of Some e \<Rightarrow> Inl (wrap msg e) | None \<Rightarrow> Inr rows)"

definition scanEvent :: "event_row \<Rightarrow> Event" where
  "scanEvent r =
     \<lparr>ev_ID = vr_id r, ev_AggregateType = vr_aggregate_type r,
      ev_AggregateID = vr_aggregate_id r, ev_EventType = vr_event_type r,
      ev_SchemaVersion = vr_schema_version r, ev_Payload = vr_payload r,
      ev_Status = status_label (vr_status r), ev_Attempts = vr_attempts r,
      ev_LastError = vr_last_error r, ev_AvailableAt = vr_available_at r,
      ev_PublishedAt = vr_published_at r, ev_CreatedAt = vr_created_at r\<rparr>"

definition scanDelivery :: "delivery_row \<Rightarrow> Delivery" where
  "scanDelivery r =
     \<lparr>dlv_ID = dr_id r, dlv_EventID = dr_event_id r, dlv_AttemptedAt = dr_attempted_at r,
      dlv_Succeeded = dr_succeeded r, dlv_Trigger = dr_trigger r, dlv_Error = dr_error r\<rparr>"

definition select_event :: "db \<Rightarrow> uuid \<Rightarrow> go_error + Event" where
  "select_event d eid =
     (case find (\<lambda>r. vr_id r = eid) (outbox_events d) of
        None \<Rightarrow> Inl (Sentinel ErrNoRows)
      | Some r \<Rightarrow> Inr (scanEvent r))"

definition event_not_found :: "uuid \<Rightarrow> go_error" where
  "event_not_found eid = Wrapf [] (Sentinel ErrEventNotFound) [Str '': '', Id eid]"

section \<open>insertEvent\<close>

definition insertEvent :: "env \<Rightarrow> tx \<Rightarrow> Event \<Rightarrow> go_error + (Event \<times> tx)" where
  "insertEvent E t e =
     (let row = \<lparr>vr_id = ev_ID e, vr_aggregate_type = ev_AggregateType e,
                 vr_aggregate_id = ev_AggregateID e, vr_event_type = ev_EventType e,
                 vr_schema_version = ev_SchemaVersion e, vr_payload = jsonb (ev_Payload e),
                 vr_status = Pending, vr_attempts = 0, vr_last_error = None,
                 vr_available_at = now E, vr_published_at = None, vr_created_at = now E\<rparr> in
      case call E InsertEventQuery (insert_event row (tx_work t)) of
        Inl err \<Rightarrow> Inl (wrap ''insert outbox event: '' err)
      | Inr d \<Rightarrow>
          Inr (e\<lparr>ev_CreatedAt := now E, ev_AvailableAt := now E, ev_Status := StatusPending\<rparr>,
               t\<lparr>tx_work := d\<rparr>))"

section \<open>GetEvent and Deliveries\<close>

definition GetEvent :: "env \<Rightarrow> uuid \<Rightarrow> db \<Rightarrow> go_error + Event" where
  "GetEvent E eid d =
     (case call E GetEventQuery (select_event d eid) of
        Inl err \<Rightarrow>
          if errors_Is err ErrNoRows then Inl (event_not_found eid)
          else Inl (wrap ''select outbox event: '' err)
      | Inr e \<Rightarrow> Inr e)"

definition Deliveries :: "env \<Rightarrow> uuid \<Rightarrow> db \<Rightarrow> go_error + Delivery list" where
  "Deliveries E eid d =
     (case call E DeliveriesQuery
         (Inr (sort_key dr_id (filter (\<lambda>r. dr_event_id r = eid) (outbox_deliveries d)))) of
        Inl err \<Rightarrow> Inl (wrap ''select deliveries: '' err)
      | Inr rows \<Rightarrow>
          (case scan_rows E DeliveriesScan ''scan delivery: '' rows of
             Inl err \<Rightarrow> Inl err
           | Inr rows' \<Rightarrow>
               (case fails E DeliveriesRows of
                  Some err \<Rightarrow> Inl err
                | None \<Rightarrow> Inr (map scanDelivery rows'))))"

section \<open>settleAttempt\<close>

text \<open>
  \<open>intervalOf\<close> renders a duration for PostgreSQL's interval parser, which reads the
  number of milliseconds back; \<open>interval_param\<close> gives it in microseconds.
\<close>

definition Milliseconds :: "int64 \<Rightarrow> int" where
  "Milliseconds d = sgn (sint d) * (\<bar>sint d\<bar> div 1000000)"

definition intervalOf :: "int64 \<Rightarrow> string" where
  "intervalOf d = show_int (Milliseconds d) @ '' milliseconds''"

definition interval_param :: "string \<Rightarrow> go_error + int" where
  "interval_param s =
     (case read_int (takeWhile (\<lambda>c. c \<noteq> CHR '' '') s) of
        None \<Rightarrow> Inl (PgError invalid_text [])
      | Some n \<Rightarrow>
          if dropWhile (\<lambda>c. c \<noteq> CHR '' '') s = '' milliseconds'' then Inr (n * 1000)
          else Inl (PgError invalid_text []))"

definition recordDelivery ::
    "env \<Rightarrow> tx \<Rightarrow> uuid \<Rightarrow> bool \<Rightarrow> string \<Rightarrow> string option \<Rightarrow> go_error + tx" where
  "recordDelivery E t eid succeeded trigger errMsg =
     (case call E (RecordDelivery eid)
         (insert_delivery eid (now E) succeeded trigger errMsg (tx_work t)) of
        Inl err \<Rightarrow> Inl (wrap ''record delivery: '' err)
      | Inr d \<Rightarrow> Inr (t\<lparr>tx_work := d\<rparr>))"

definition update_event :: "uuid \<Rightarrow> (event_row \<Rightarrow> event_row) \<Rightarrow> db \<Rightarrow> db" where
  "update_event eid f d =
     d\<lparr>outbox_events := map (\<lambda>r. if vr_id r = eid then f r else r) (outbox_events d)\<rparr>"

text \<open>The second \<open>UPDATE\<close>: status and message are parameters the server converts.\<close>

definition mark_failed_attempt ::
    "env \<Rightarrow> uuid \<Rightarrow> Status \<Rightarrow> int \<Rightarrow> string \<Rightarrow> string \<Rightarrow> db \<Rightarrow> go_error + db" where
  "mark_failed_attempt E eid status attempts msg interval d =
     (case status_of_label status of
        None \<Rightarrow> Inl (PgError invalid_text [])
      | Some st \<Rightarrow>
          (case text_param E msg of
             Inl err \<Rightarrow> Inl err
           | Inr m \<Rightarrow>
               (case interval_param interval of
                  Inl err \<Rightarrow> Inl err
                | Inr us \<Rightarrow>
                    Inr (update_event eid
                      (\<lambda>r. r\<lparr>vr_status := st, vr_attempts := attempts,
                             vr_last_error := Some m, vr_available_at := now E + us\<rparr>) d))))"

definition settleAttempt ::
    "env \<Rightarrow> tx \<Rightarrow> Event \<Rightarrow> go_error option \<Rightarrow> string \<Rightarrow> go_error + tx" where
  "settleAttempt E t e publishErr trigger =
     (let attempts = ev_Attempts e + 1 in
      case publishErr of
        None \<Rightarrow>
          (case call E (MarkPublished (ev_ID e))
              (Inr (update_event (ev_ID e)
                (\<lambda>r. r\<lparr>vr_status := Published, vr_published_at := Some (now E),
                       vr_attempts := attempts, vr_last_error := None\<rparr>) (tx_work t))) of
             Inl err \<Rightarrow> Inl (wrap ''mark event published: '' err)
           | Inr d \<Rightarrow> recordDelivery E (t\<lparr>tx_work := d\<rparr>) (ev_ID e) True trigger None)
      | Some perr \<Rightarrow>
          (let status = (if attempts \<ge> MaxAttempts then StatusFailed else StatusPending);
               msg = Error_text (env_texts E) perr in
           case call E (MarkFailed (ev_ID e))
              (mark_failed_attempt E (ev_ID e) status attempts msg
                 (intervalOf (Backoff attempts)) (tx_work t)) of
             Inl err \<Rightarrow> Inl (wrap ''mark event failed: '' err)
           | Inr d \<Rightarrow> recordDelivery E (t\<lparr>tx_work := d\<rparr>) (ev_ID e) False trigger (Some msg)))"

section \<open>DispatchBatch\<close>

text \<open>
  The claimed batch: due events that no other session holds, oldest first; the order of
  events created at the same instant is the order of the scan.
\<close>

definition due :: "env \<Rightarrow> event_row \<Rightarrow> bool" where
  "due E r \<longleftrightarrow> vr_status r = Pending \<and> vr_available_at r \<le> now E"

definition claim_batch :: "env \<Rightarrow> int \<Rightarrow> db \<Rightarrow> go_error + event_row list" where
  "claim_batch E limit d =
     (if limit < 0 then Inl (PgError ''2201W'' [])
      else Inr (take (nat limit)
        (filter (\<lambda>r. \<not> row_locked E (vr_id r))
          (sort_key vr_created_at (filter (due E) (heap_order E (outbox_events d)))))))"

text \<open>
  The loop returns its error together with the transaction as it stood, because the
  deliveries already written have drawn values from their sequence.
\<close>

fun dispatch_loop ::
    "env \<Rightarrow> 'p publisher \<Rightarrow> Event list \<Rightarrow> 'p \<Rightarrow> tx \<Rightarrow> go_error option \<times> 'p \<times> tx" where
  "dispatch_loop E publish [] p t = (None, p, t)"
| "dispatch_loop E publish (e # es) p t =
     (case publish (Event_Envelope e) p of
        (publishErr, p') \<Rightarrow>
          (case settleAttempt E t e publishErr TriggerRelay of
             Inl err \<Rightarrow> (Some err, p', t)
           | Inr t' \<Rightarrow> dispatch_loop E publish es p' t'))"

definition DispatchBatch ::
    "env \<Rightarrow> int \<Rightarrow> 'p publisher \<Rightarrow> 'p \<Rightarrow> db \<Rightarrow> (go_error + int) \<times> 'p \<times> db" where
  "DispatchBatch E limit publish p d =
     (case fails E BeginDispatch of
        Some err \<Rightarrow> (Inl (wrap ''begin dispatch: '' err), p, d)
      | None \<Rightarrow>
          (let t = tx_begin d in
           case call E ClaimBatchQuery (claim_batch E limit d) of
             Inl err \<Rightarrow> (Inl (wrap ''claim outbox batch: '' err), p, tx_rollback t)
           | Inr rows \<Rightarrow>
               (case scan_rows E BatchScan ''scan outbox event: '' rows of
                  Inl err \<Rightarrow> (Inl err, p, tx_rollback t)
                | Inr rows' \<Rightarrow>
                    (case fails E BatchRows of
                       Some err \<Rightarrow> (Inl (wrap ''read outbox batch: '' err), p, tx_rollback t)
                     | None \<Rightarrow>
                         if rows' = [] then (Inr 0, p, tx_rollback t)
                         else
                           (case dispatch_loop E publish (map scanEvent rows') p t of
                              (Some err, p', t') \<Rightarrow> (Inl err, p', tx_rollback t')
                            | (None, p', t') \<Rightarrow>
                                (case tx_commit E CommitDispatch t' of
                                   (Some err, d') \<Rightarrow> (Inl (wrap ''commit dispatch: '' err), p', d')
                                 | (None, d') \<Rightarrow> (Inr (int (length rows')), p', d')))))))"

section \<open>ReplayEvent\<close>

definition select_last_delivery :: "db \<Rightarrow> uuid \<Rightarrow> go_error + Delivery" where
  "select_last_delivery d eid =
     (case rev (sort_key dr_id (filter (\<lambda>r. dr_event_id r = eid) (outbox_deliveries d))) of
        [] \<Rightarrow> Inl (Sentinel ErrNoRows)
      | r # _ \<Rightarrow> Inr (scanDelivery r))"

text \<open>The part of \<open>ReplayEvent\<close> after the publish: settle, read back, commit.\<close>

definition finish_replay ::
    "env \<Rightarrow> uuid \<Rightarrow> Event \<Rightarrow> go_error option \<Rightarrow> tx \<Rightarrow> (go_error + (Event \<times> Delivery)) \<times> db" where
  "finish_replay E eid e publishErr t =
     (case settleAttempt E t e publishErr TriggerManualReplay of
        Inl err \<Rightarrow> (Inl err, tx_rollback t)
      | Inr t' \<Rightarrow>
          (case call E ReplayReload (select_event (tx_work t') eid) of
             Inl err \<Rightarrow> (Inl (wrap ''reload replayed event: '' err), tx_rollback t')
           | Inr settled \<Rightarrow>
               (case call E ReplayDeliveryQuery (select_last_delivery (tx_work t') eid) of
                  Inl err \<Rightarrow> (Inl (wrap ''read replay delivery: '' err), tx_rollback t')
                | Inr dlv \<Rightarrow>
                    (case tx_commit E CommitReplay t' of
                       (Some err, d') \<Rightarrow> (Inl (wrap ''commit replay: '' err), d')
                     | (None, d') \<Rightarrow> (Inr (settled, dlv), d')))))"

definition ReplayEvent ::
    "env \<Rightarrow> uuid \<Rightarrow> 'p publisher \<Rightarrow> 'p \<Rightarrow> db \<Rightarrow> (go_error + (Event \<times> Delivery)) \<times> 'p \<times> db" where
  "ReplayEvent E eid publish p d =
     (case fails E BeginReplay of
        Some err \<Rightarrow> (Inl (wrap ''begin replay: '' err), p, d)
      | None \<Rightarrow>
          (let t = tx_begin d in
           case call E ReplaySelect (select_event (tx_work t) eid) of
             Inl err \<Rightarrow>
               (if errors_Is err ErrNoRows then Inl (event_not_found eid)
                else Inl (wrap ''select event for replay: '' err), p, tx_rollback t)
           | Inr e \<Rightarrow>
               (case publish (Event_Envelope e) p of
                  (publishErr, p') \<Rightarrow>
                    (case finish_replay E eid e publishErr t of (r, d') \<Rightarrow> (r, p', d')))))"

end
