(* ===== verification/Store.thy ===== *)
theory Store
  imports Outbox_Store
begin

text \<open>
  \<open>internal/storage/postgres/store.go\<close>: the PostgreSQL repository. Every function is
  given with all its error returns; a statement that fails leaves the surrounding
  transaction to be rolled back by the caller's deferred \<open>Rollback\<close>.
\<close>

section \<open>translateWriteError\<close>

definition translateWriteError :: "go_error \<Rightarrow> go_error" where
  "translateWriteError err =
     (case errors_As_PgError err of
        None \<Rightarrow> err
      | Some constraint \<Rightarrow>
          if constraint = ''transactions_external_ref_key'' then Sentinel ErrDuplicateExternalRef
          else if constraint = ''ledger_entries_amount_check'' then Sentinel ErrInvalidAmount
          else if constraint = ''accounts_balance_floor'' then Sentinel ErrInsufficientFunds
          else err)"

section \<open>Accounts\<close>

definition scanAccount :: "uuid \<Rightarrow> account_row \<Rightarrow> Account" where
  "scanAccount aid r =
     \<lparr>acc_ID = aid, acc_Name = ar_name r, acc_Kind = kind_label (ar_kind r),
      acc_Currency = ar_currency r, acc_Balance = ar_balance r,
      acc_AllowNegativeBalance = ar_allow_negative_balance r,
      acc_CreatedAt = ar_created_at r, acc_UpdatedAt = ar_updated_at r\<rparr>"

text \<open>The row a \<open>CreateAccount\<close> statement inserts, once its parameters are converted.\<close>

definition account_row_of :: "env \<Rightarrow> Account \<Rightarrow> go_error + account_row" where
  "account_row_of E a =
     (case text_param E (acc_Name a) of Inl e \<Rightarrow> Inl e | Inr name \<Rightarrow>
      (case kind_of_label (acc_Kind a) of None \<Rightarrow> Inl (PgError invalid_text []) | Some kind \<Rightarrow>
       (case char3_param E (acc_Currency a) of Inl e \<Rightarrow> Inl e | Inr currency \<Rightarrow>
        Inr \<lparr>ar_name = name, ar_kind = kind, ar_currency = currency,
             ar_balance = acc_Balance a,
             ar_allow_negative_balance = acc_AllowNegativeBalance a,
             ar_created_at = now E, ar_updated_at = now E\<rparr>)))"

definition Store_CreateAccount :: "env \<Rightarrow> Account \<Rightarrow> db \<Rightarrow> (go_error + Account) \<times> db" where
  "Store_CreateAccount E a d =
     (case autocommit E CreateAccountQuery
         (case account_row_of E a of Inl e \<Rightarrow> Inl e | Inr r \<Rightarrow> insert_account (acc_ID a) r d) d of
        (Some err, d') \<Rightarrow> (Inl (wrap ''insert account: '' err), d')
      | (None, d') \<Rightarrow> (Inr (a\<lparr>acc_CreatedAt := now E, acc_UpdatedAt := now E\<rparr>), d'))"

definition Store_GetAccount :: "env \<Rightarrow> uuid \<Rightarrow> db \<Rightarrow> go_error + Account" where
  "Store_GetAccount E aid d =
     (case call E GetAccountQuery
         (case accounts d aid of None \<Rightarrow> Inl (Sentinel ErrNoRows) | Some r \<Rightarrow> Inr (scanAccount aid r)) of
        Inl err \<Rightarrow>
          if errors_Is err ErrNoRows then Inl (Sentinel ErrAccountNotFound)
          else Inl (wrap ''select account: '' err)
      | Inr a \<Rightarrow> Inr a)"

section \<open>The idempotency claim\<close>

definition day_us :: time where "day_us = 24 * 60 * 60 * 1000000"

text \<open>\<open>INSERT ... ON CONFLICT (key, endpoint) DO NOTHING\<close>: the number of rows inserted.\<close>

definition insert_claim :: "env \<Rightarrow> Claim \<Rightarrow> db \<Rightarrow> go_error + (int \<times> db)" where
  "insert_claim E c d =
     (case text_param E (claim_Key c) of Inl e \<Rightarrow> Inl e | Inr key \<Rightarrow>
      (case text_param E (claim_Endpoint c) of Inl e \<Rightarrow> Inl e | Inr endpoint \<Rightarrow>
       if idempotency_keys d (key, endpoint) \<noteq> None then Inr (0, d)
       else Inr (1, d\<lparr>idempotency_keys := (idempotency_keys d)((key, endpoint) \<mapsto>
              \<lparr>ir_request_hash = claim_Fingerprint c, ir_response_status = None,
               ir_response_body = None, ir_transaction_id = None,
               ir_created_at = now E, ir_expires_at = now E + day_us\<rparr>)\<rparr>)))"

definition claimKey :: "env \<Rightarrow> tx \<Rightarrow> Claim \<Rightarrow> go_error + (bool \<times> tx)" where
  "claimKey E t c =
     (case call E ClaimExec (insert_claim E c (tx_work t)) of
        Inl err \<Rightarrow> Inl (wrap ''claim idempotency key: '' err)
      | Inr (affected, d) \<Rightarrow> Inr (affected = 1, t\<lparr>tx_work := d\<rparr>))"

definition replayStoredResponse :: "env \<Rightarrow> tx \<Rightarrow> Claim \<Rightarrow> go_error + Result" where
  "replayStoredResponse E t c =
     (case call E ReplayQuery
         (case idempotency_keys (tx_work t) (claim_Key c, claim_Endpoint c) of
            None \<Rightarrow> Inl (Sentinel ErrNoRows) | Some r \<Rightarrow> Inr r) of
        Inl err \<Rightarrow> Inl (wrap ''read stored idempotent response: '' err)
      | Inr r \<Rightarrow>
          if ir_request_hash r \<noteq> claim_Fingerprint c
          then Inl (Wrapf [] (Sentinel ErrIdempotencyKeyReuse) [Str '': key '', Quoted (claim_Key c)])
          else (case ir_response_status r of
              None \<Rightarrow> Inl (NewError [Str ''internal: idempotency key '', Quoted (claim_Key c),
                                     Str '' committed without a response''])
            | Some status \<Rightarrow>
                Inr \<lparr>res_Status = status,
                     res_Body = (case ir_response_body r of None \<Rightarrow> [] | Some b \<Rightarrow> b),
                     res_Replayed = True, res_Transaction = None\<rparr>))"

definition storeResponse ::
    "env \<Rightarrow> tx \<Rightarrow> Claim \<Rightarrow> int \<Rightarrow> string \<Rightarrow> uuid \<Rightarrow> go_error + tx" where
  "storeResponse E t c status body txID =
     (case call E StoreResponseExec
         (if \<not> json_ok E body then Inl (PgError invalid_text [])
          else case idempotency_keys (tx_work t) (claim_Key c, claim_Endpoint c) of
             None \<Rightarrow> Inr (tx_work t)
           | Some r \<Rightarrow>
               if \<not> transaction_exists (tx_work t) txID
               then Inl (PgError foreign_key_violation ''idempotency_keys_transaction_id_fkey'')
               else Inr ((tx_work t)\<lparr>idempotency_keys := (idempotency_keys (tx_work t))
                 ((claim_Key c, claim_Endpoint c) \<mapsto>
                  r\<lparr>ir_response_status := Some status, ir_response_body := Some body,
                    ir_transaction_id := Some txID\<rparr>)\<rparr>)) of
        Inl err \<Rightarrow> Inl (wrap ''store idempotent response: '' err)
      | Inr d \<Rightarrow> Inr (t\<lparr>tx_work := d\<rparr>))"

section \<open>Locking the accounts\<close>

text \<open>
  \<open>WHERE id = ANY($1) ORDER BY id FOR UPDATE\<close>: the ids in the order their rows are
  locked, and the rows that exist.
\<close>

definition lock_order :: "uuid list \<Rightarrow> uuid list" where
  "lock_order ids = sort (remdups ids)"

definition select_for_update :: "db \<Rightarrow> uuid list \<Rightarrow> Account list" where
  "select_for_update d ids =
     concat (map (\<lambda>i. case accounts d i of None \<Rightarrow> [] | Some r \<Rightarrow> [scanAccount i r]) (lock_order ids))"

fun first_missing :: "(uuid \<rightharpoonup> Account) \<Rightarrow> uuid list \<Rightarrow> uuid option" where
  "first_missing found [] = None"
| "first_missing found (i # ids) = (if found i = None then Some i else first_missing found ids)"

definition lockAccounts :: "env \<Rightarrow> tx \<Rightarrow> uuid list \<Rightarrow> go_error + (uuid \<rightharpoonup> Account)" where
  "lockAccounts E t ids =
     (case call E LockQuery (Inr (select_for_update (tx_work t) ids)) of
        Inl err \<Rightarrow> Inl (wrap ''lock accounts: '' err)
      | Inr rows \<Rightarrow>
          (case scan_rows E LockScan ''scan locked account: '' rows of
             Inl err \<Rightarrow> Inl err
           | Inr rows' \<Rightarrow>
               (case fails E LockRows of
                  Some err \<Rightarrow> Inl (wrap ''read locked accounts: '' err)
                | None \<Rightarrow>
                    (let found = map_of (map (\<lambda>a. (acc_ID a, a)) rows') in
                     case first_missing found ids of
                       Some i \<Rightarrow> Inl (Wrapf [] (Sentinel ErrAccountNotFound) [Str '': '', Id i])
                     | None \<Rightarrow> Inr found))))"

section \<open>Writing the transaction\<close>

definition sql_insert_transaction :: "env \<Rightarrow> uuid \<Rightarrow> TransferCommand \<Rightarrow> db \<Rightarrow> go_error + db" where
  "sql_insert_transaction E txID cmd d =
     (case (case cmd_ExternalRef cmd of None \<Rightarrow> Inr None
            | Some x \<Rightarrow> map_sum (\<lambda>e. e) Some (text_param E x)) of Inl e \<Rightarrow> Inl e | Inr ref \<Rightarrow>
      (case text_param E (cmd_Description cmd) of Inl e \<Rightarrow> Inl e | Inr desc \<Rightarrow>
       (case char3_param E (cmd_Currency cmd) of Inl e \<Rightarrow> Inl e | Inr currency \<Rightarrow>
        insert_transaction
          \<lparr>tr_id = txID, tr_external_ref = ref, tr_description = desc,
           tr_currency = currency, tr_created_at = now E\<rparr> d)))"

definition sql_insert_entry :: "env \<Rightarrow> Entry \<Rightarrow> db \<Rightarrow> go_error + db" where
  "sql_insert_entry E e d =
     (case direction_of_label (ent_Direction e) of None \<Rightarrow> Inl (PgError invalid_text []) | Some dir \<Rightarrow>
      (case char3_param E (ent_Currency e) of Inl err \<Rightarrow> Inl err | Inr currency \<Rightarrow>
       insert_entry (ent_ID e) (ent_TransactionID e) (ent_AccountID e) dir (ent_Amount e)
         currency (now E) d))"

definition insert_leg :: "env \<Rightarrow> Entry \<Rightarrow> tx \<Rightarrow> go_error + (Entry \<times> tx)" where
  "insert_leg E e t =
     (case call E (InsertEntry (ent_Direction e)) (sql_insert_entry E e (tx_work t)) of
        Inl err \<Rightarrow>
          Inl (translateWriteError
                 (wrap (''insert '' @ ent_Direction e @ '' entry: '') err))
      | Inr d \<Rightarrow>
          Inr (e\<lparr>ent_CreatedAt := now E\<rparr>,
               t\<lparr>tx_work := d, tx_deferred := tx_deferred t @ [ent_TransactionID e]\<rparr>))"

text \<open>The \<open>for _, leg := range legs\<close> loop; \<open>n\<close> counts the calls of \<open>uuid.New()\<close>.\<close>

fun write_legs ::
    "env \<Rightarrow> TransferCommand \<Rightarrow> nat \<Rightarrow> (uuid \<times> Direction) list \<Rightarrow> Transaction \<Rightarrow> tx
     \<Rightarrow> go_error + (Transaction \<times> tx)" where
  "write_legs E cmd n [] result t = Inr (result, t)"
| "write_legs E cmd n ((account, direction) # legs) result t =
     (case insert_leg E
         \<lparr>ent_ID = new_uuid E n, ent_TransactionID = txn_ID result, ent_AccountID = account,
          ent_Direction = direction, ent_Amount = cmd_Amount cmd,
          ent_Currency = cmd_Currency cmd, ent_CreatedAt = 0\<rparr> t of
        Inl err \<Rightarrow> Inl err
      | Inr (entry, t') \<Rightarrow>
          write_legs E cmd (Suc n) legs
            (result\<lparr>txn_Entries := txn_Entries result @ [entry]\<rparr>) t')"

definition writeTransaction :: "env \<Rightarrow> tx \<Rightarrow> TransferCommand \<Rightarrow> go_error + (Transaction \<times> tx)" where
  "writeTransaction E t cmd =
     (let result = \<lparr>txn_ID = new_uuid E 0, txn_ExternalRef = cmd_ExternalRef cmd,
                    txn_Description = cmd_Description cmd, txn_Currency = cmd_Currency cmd,
                    txn_CreatedAt = 0, txn_Entries = []\<rparr> in
      case call E InsertTransaction (sql_insert_transaction E (txn_ID result) cmd (tx_work t)) of
        Inl err \<Rightarrow> Inl (translateWriteError (wrap ''insert transaction: '' err))
      | Inr d \<Rightarrow>
          write_legs E cmd 1
            [(cmd_DebitAccountID cmd, Debit), (cmd_CreditAccountID cmd, Credit)]
            (result\<lparr>txn_CreatedAt := now E\<rparr>) (t\<lparr>tx_work := d\<rparr>))"

section \<open>Moving the balances\<close>

text \<open>
  \<open>UPDATE accounts SET balance = balance + CASE WHEN id = $1 THEN $3 ELSE -$3 END
  WHERE id IN ($1, $2)\<close>: one update per distinct id.
\<close>

definition sql_apply_balances :: "env \<Rightarrow> TransferCommand \<Rightarrow> db \<Rightarrow> go_error + db" where
  "sql_apply_balances E cmd d =
     (case update_balance (cmd_DebitAccountID cmd) (Some (cmd_Amount cmd)) (now E) d of
        Inl e \<Rightarrow> Inl e
      | Inr d' \<Rightarrow>
          if cmd_CreditAccountID cmd = cmd_DebitAccountID cmd then Inr d'
          else update_balance (cmd_CreditAccountID cmd) (bigint_neg (cmd_Amount cmd)) (now E) d')"

definition applyBalances :: "env \<Rightarrow> tx \<Rightarrow> TransferCommand \<Rightarrow> go_error + tx" where
  "applyBalances E t cmd =
     (case call E ApplyBalancesExec (sql_apply_balances E cmd (tx_work t)) of
        Inl err \<Rightarrow> Inl (translateWriteError (wrap ''apply balances: '' err))
      | Inr d \<Rightarrow> Inr (t\<lparr>tx_work := d\<rparr>))"

section \<open>Transfer\<close>

text \<open>
  The checks on the locked accounts, the writes, and the rendering, in the order of the
  code: everything between owning the key and the commit.
\<close>

definition check_accounts :: "TransferCommand \<Rightarrow> Account \<Rightarrow> Account \<Rightarrow> go_error option" where
  "check_accounts cmd debit credit =
     (if acc_Currency debit \<noteq> cmd_Currency cmd \<or> acc_Currency credit \<noteq> cmd_Currency cmd
      then Some (Wrapf [] (Sentinel ErrCurrencyMismatch)
             [Str '': transfer in '', Str (cmd_Currency cmd), Str '' between '',
              Str (acc_Currency debit), Str '' and '', Str (acc_Currency credit), Str '' accounts''])
      else if \<not> acc_AllowNegativeBalance credit \<and> acc_Balance credit <s cmd_Amount cmd
      then Some (Wrapf [] (Sentinel ErrInsufficientFunds)
             [Str '': account '', Id (acc_ID credit), Str '' holds '', Dec (sint (acc_Balance credit)),
              Str '', needs '', Dec (sint (cmd_Amount cmd))])
      else None)"

definition transfer_work ::
    "env \<Rightarrow> TransferCommand \<Rightarrow> Claim \<Rightarrow> RenderFunc \<Rightarrow> tx \<Rightarrow> go_error + (Result \<times> tx)" where
  "transfer_work E cmd claim render t =
     (case lockAccounts E t [cmd_DebitAccountID cmd, cmd_CreditAccountID cmd] of
        Inl err \<Rightarrow> Inl err
      | Inr accs \<Rightarrow>
     (case check_accounts cmd (the (accs (cmd_DebitAccountID cmd))) (the (accs (cmd_CreditAccountID cmd))) of
        Some err \<Rightarrow> Inl err
      | None \<Rightarrow>
     (case writeTransaction E t cmd of
        Inl err \<Rightarrow> Inl err
      | Inr (result, t1) \<Rightarrow>
     (case applyBalances E t1 cmd of
        Inl err \<Rightarrow> Inl err
      | Inr t2 \<Rightarrow>
     (case insertEvent E t2
         (NewTransactionCreated (uuid_String (env_texts E)) (new_uuid E 3) result) of
        Inl err \<Rightarrow> Inl err
      | Inr (event, t3) \<Rightarrow>
     (case render result of
        Inl err \<Rightarrow> Inl (wrap ''render response for storage: '' err)
      | Inr (status, body) \<Rightarrow>
     (case storeResponse E t3 claim status body (txn_ID result) of
        Inl err \<Rightarrow> Inl err
      | Inr t4 \<Rightarrow>
          Inr (\<lparr>res_Status = status, res_Body = body, res_Replayed = False,
                res_Transaction = Some result\<rparr>, t4))))))))"

definition Store_Transfer ::
    "env \<Rightarrow> TransferCommand \<Rightarrow> Claim \<Rightarrow> RenderFunc \<Rightarrow> db \<Rightarrow> (go_error + Result) \<times> db" where
  "Store_Transfer E cmd claim render d =
     (case fails E BeginTransfer of
        Some err \<Rightarrow> (Inl (wrap ''begin transfer: '' err), d)
      | None \<Rightarrow>
          (let t = tx_begin d in
           case claimKey E t claim of
             Inl err \<Rightarrow> (Inl err, tx_rollback t)
           | Inr (owned, t0) \<Rightarrow>
               if \<not> owned then (replayStoredResponse E t0 claim, tx_rollback t0)
               else
                 (case transfer_work E cmd claim render t0 of
                    Inl err \<Rightarrow> (Inl err, tx_rollback t0)
                  | Inr (result, t4) \<Rightarrow>
                      (case tx_commit E CommitTransfer t4 of
                         (Some err, d') \<Rightarrow> (Inl (translateWriteError err), d')
                       | (None, d') \<Rightarrow> (Inr result, d')))))"

section \<open>GetTransaction\<close>

definition scanEntry :: "entry_row \<Rightarrow> Entry" where
  "scanEntry r =
     \<lparr>ent_ID = er_id r, ent_TransactionID = er_transaction_id r, ent_AccountID = er_account_id r,
      ent_Direction = direction_label (er_direction r), ent_Amount = er_amount r,
      ent_Currency = er_currency r, ent_CreatedAt = er_created_at r\<rparr>"

definition scanTransaction :: "transaction_row \<Rightarrow> Transaction" where
  "scanTransaction r =
     \<lparr>txn_ID = tr_id r, txn_ExternalRef = tr_external_ref r, txn_Description = tr_description r,
      txn_Currency = tr_currency r, txn_CreatedAt = tr_created_at r, txn_Entries = []\<rparr>"

text \<open>
  \<open>ORDER BY direction DESC, id\<close>: sorting by the last key first, the descending key as a
  sort in which credit precedes debit.
\<close>

definition order_entries :: "entry_row list \<Rightarrow> entry_row list" where
  "order_entries rows =
     rev (sort_key er_direction (rev (sort_key er_id rows)))"

definition Store_GetTransaction :: "env \<Rightarrow> uuid \<Rightarrow> db \<Rightarrow> go_error + Transaction" where
  "Store_GetTransaction E txid d =
     (case call E GetTransactionQuery
         (case find (\<lambda>r. tr_id r = txid) (transactions d) of
            None \<Rightarrow> Inl (Sentinel ErrNoRows) | Some r \<Rightarrow> Inr (scanTransaction r)) of
        Inl err \<Rightarrow>
          if errors_Is err ErrNoRows then Inl (Sentinel ErrTransactionNotFound)
          else Inl (wrap ''select transaction: '' err)
      | Inr t \<Rightarrow>
          (case call E EntriesQuery (Inr (order_entries (legs_of d txid))) of
             Inl err \<Rightarrow> Inl (wrap ''select entries: '' err)
           | Inr rows \<Rightarrow>
               (case scan_rows E EntriesScan ''scan entry: '' rows of
                  Inl err \<Rightarrow> Inl err
                | Inr rows' \<Rightarrow>
                    (case fails E EntriesRows of
                       Some err \<Rightarrow> Inl (wrap ''read entries: '' err)
                     | None \<Rightarrow> Inr (t\<lparr>txn_Entries := map scanEntry rows'\<rparr>)))))"

end
