(* ===== verification/Store_Facts.thy ===== *)
theory Store_Facts
  imports Store
begin

text \<open>
  What the operations of the store do when they succeed, as inversion rules: one rule
  per function, composed into the effect of a whole \<open>Transfer\<close>.
\<close>

section \<open>Claiming the key\<close>

definition claim_of :: "Claim \<Rightarrow> string \<times> string" where
  "claim_of c = (claim_Key c, claim_Endpoint c)"

definition claim_row :: "env \<Rightarrow> Claim \<Rightarrow> idempotency_row" where
  "claim_row E c = \<lparr>ir_request_hash = claim_Fingerprint c, ir_response_status = None,
     ir_response_body = None, ir_transaction_id = None,
     ir_created_at = now E, ir_expires_at = now E + day_us\<rparr>"

definition claimed :: "env \<Rightarrow> Claim \<Rightarrow> db \<Rightarrow> db" where
  "claimed E c d = d\<lparr>idempotency_keys := (idempotency_keys d)(claim_of c \<mapsto> claim_row E c)\<rparr>"

lemma insert_claim_eq:
  "insert_claim E c d =
     (if \<not> text_ok E (claim_Key c) then Inl (PgError bad_encoding [])
      else if \<not> text_ok E (claim_Endpoint c) then Inl (PgError bad_encoding [])
      else if idempotency_keys d (claim_of c) \<noteq> None then Inr (0, d)
      else Inr (1, claimed E c d))"
  by (simp add: insert_claim_def text_param_def claimed_def claim_row_def claim_of_def)

lemma claimKey_owned:
  "claimKey E t c = Inr (True, t') \<longleftrightarrow>
     fails E ClaimExec = None \<and> text_ok E (claim_Key c) \<and> text_ok E (claim_Endpoint c)
     \<and> idempotency_keys (tx_work t) (claim_of c) = None
     \<and> t' = t\<lparr>tx_work := claimed E c (tx_work t)\<rparr>"
  by (auto simp: claimKey_def insert_claim_eq call_def split: option.splits if_splits)

lemma claimKey_not_owned:
  "claimKey E t c = Inr (False, t') \<longleftrightarrow>
     fails E ClaimExec = None \<and> text_ok E (claim_Key c) \<and> text_ok E (claim_Endpoint c)
     \<and> idempotency_keys (tx_work t) (claim_of c) \<noteq> None \<and> t' = t"
  by (auto simp: claimKey_def insert_claim_eq call_def split: option.splits if_splits)

lemma claimKey_base: "claimKey E t c = Inr (b, t') \<Longrightarrow> tx_base t' = tx_base t \<and> tx_deferred t' = tx_deferred t"
  by (cases b) (auto simp: claimKey_owned claimKey_not_owned)

section \<open>Locking\<close>

lemma set_lock_order [simp]: "set (lock_order ids) = set ids"
  by (simp add: lock_order_def)

lemma distinct_lock_order [simp]: "distinct (lock_order ids)"
  by (simp add: lock_order_def)

lemma sorted_lock_order [simp]: "sorted (lock_order ids)"
  by (simp add: lock_order_def)

lemma scanAccount_sel [simp]:
  "acc_ID (scanAccount i r) = i" "acc_Currency (scanAccount i r) = ar_currency r"
  "acc_Balance (scanAccount i r) = ar_balance r"
  "acc_AllowNegativeBalance (scanAccount i r) = ar_allow_negative_balance r"
  by (simp_all add: scanAccount_def)

lemma map_of_select:
  "map_of (map (\<lambda>a. (acc_ID a, a))
      (concat (map (\<lambda>i. case accounts d i of None \<Rightarrow> [] | Some r \<Rightarrow> [scanAccount i r]) ids))) i
   = (if i \<in> set ids then map_option (scanAccount i) (accounts d i) else None)"
  by (induction ids) (auto simp: map_add_def split: option.splits)

lemma map_of_select_for_update:
  "map_of (map (\<lambda>a. (acc_ID a, a)) (select_for_update d ids)) i
   = (if i \<in> set ids then map_option (scanAccount i) (accounts d i) else None)"
  by (simp add: select_for_update_def map_of_select)

lemma first_missing_None: "first_missing found ids = None \<longleftrightarrow> (\<forall>i \<in> set ids. found i \<noteq> None)"
  by (induction ids) auto

lemma first_missing_Some:
  "first_missing found ids = Some i \<Longrightarrow> i \<in> set ids \<and> found i = None"
  by (induction ids) (auto split: if_splits)

lemma scan_rows_Inr: "scan_rows E s msg rows = Inr rows' \<Longrightarrow> rows' = rows"
  by (auto simp: scan_rows_def split: if_splits option.splits)

lemma lockAccounts_Inr:
  assumes "lockAccounts E t ids = Inr accs" and "i \<in> set ids"
  obtains r where "accounts (tx_work t) i = Some r" and "accs i = Some (scanAccount i r)"
proof -
  from assms(1) have accs: "accs = map_of (map (\<lambda>a. (acc_ID a, a)) (select_for_update (tx_work t) ids))"
    and "first_missing accs ids = None"
    by (auto simp: lockAccounts_def call_def Let_def dest: scan_rows_Inr
        split: option.splits sum.splits)
  then have "accs i \<noteq> None" using assms(2) by (simp add: first_missing_None)
  with accs assms(2) that show thesis
    by (auto simp: map_of_select_for_update)
qed

lemma check_accounts_None:
  "check_accounts cmd a c = None \<longleftrightarrow>
     acc_Currency a = cmd_Currency cmd \<and> acc_Currency c = cmd_Currency cmd
     \<and> (acc_AllowNegativeBalance c \<or> sint (cmd_Amount cmd) \<le> sint (acc_Balance c))"
  by (auto simp: check_accounts_def word_sless_alt)

section \<open>The rows of a transfer\<close>

definition transfer_row :: "env \<Rightarrow> TransferCommand \<Rightarrow> string \<Rightarrow> transaction_row" where
  "transfer_row E cmd currency =
     \<lparr>tr_id = new_uuid E 0, tr_external_ref = cmd_ExternalRef cmd,
      tr_description = cmd_Description cmd, tr_currency = currency, tr_created_at = now E\<rparr>"

definition leg_row :: "env \<Rightarrow> TransferCommand \<Rightarrow> string \<Rightarrow> nat \<Rightarrow> uuid \<Rightarrow> entry_direction \<Rightarrow> entry_row" where
  "leg_row E cmd currency n account dir =
     \<lparr>er_id = new_uuid E n, er_transaction_id = new_uuid E 0, er_account_id = account,
      er_direction = dir, er_amount = cmd_Amount cmd, er_currency = currency,
      er_signed_amount = (if dir = Debit_leg then cmd_Amount cmd else - cmd_Amount cmd),
      er_created_at = now E\<rparr>"

definition leg_entry :: "env \<Rightarrow> TransferCommand \<Rightarrow> nat \<Rightarrow> uuid \<Rightarrow> Direction \<Rightarrow> Entry" where
  "leg_entry E cmd n account direction =
     \<lparr>ent_ID = new_uuid E n, ent_TransactionID = new_uuid E 0, ent_AccountID = account,
      ent_Direction = direction, ent_Amount = cmd_Amount cmd, ent_Currency = cmd_Currency cmd,
      ent_CreatedAt = now E\<rparr>"

text \<open>The transaction a successful transfer returns: the debit leg, then the credit leg.\<close>

definition transfer_txn :: "env \<Rightarrow> TransferCommand \<Rightarrow> Transaction" where
  "transfer_txn E cmd =
     \<lparr>txn_ID = new_uuid E 0, txn_ExternalRef = cmd_ExternalRef cmd,
      txn_Description = cmd_Description cmd, txn_Currency = cmd_Currency cmd,
      txn_CreatedAt = now E,
      txn_Entries = [leg_entry E cmd 1 (cmd_DebitAccountID cmd) Debit,
                     leg_entry E cmd 2 (cmd_CreditAccountID cmd) Credit]\<rparr>"

lemma text_param_option:
  "(case ref of None \<Rightarrow> Inr None | Some x \<Rightarrow> map_sum (\<lambda>e. e) Some (text_param E x)) = Inr r
   \<longleftrightarrow> r = ref \<and> (\<forall>x. ref = Some x \<longrightarrow> text_ok E x)"
  by (cases ref) (auto simp: text_param_def)

lemma sql_insert_transaction_Inr:
  assumes "sql_insert_transaction E txID cmd d = Inr d'"
  obtains currency where
    "char3_param E (cmd_Currency cmd) = Inr currency"
    "\<not> transaction_exists d txID" "\<not> external_ref_used d (cmd_ExternalRef cmd)"
    "txID = new_uuid E 0 \<Longrightarrow>
       d' = d\<lparr>transactions := transactions d @ [transfer_row E cmd currency]\<rparr>"
  using assms
  by (auto simp: sql_insert_transaction_def case_sum_Inr_iff text_param_option insert_transaction_def
      transfer_row_def split: if_splits)

lemma insert_entry_Inr:
  assumes "insert_entry eid txid account dir amount currency created d = Inr d'"
  obtains "0 < sint amount" "eid \<notin> er_id ` set (ledger_entries d)" "transaction_exists d txid"
    "accounts d account \<noteq> None"
    "d' = d\<lparr>ledger_entries := ledger_entries d @
       [\<lparr>er_id = eid, er_transaction_id = txid, er_account_id = account, er_direction = dir,
         er_amount = amount, er_currency = currency,
         er_signed_amount = (if dir = Debit_leg then amount else - amount),
         er_created_at = created\<rparr>]\<rparr>"
  using assms
  by (auto simp: insert_entry_def signed_amount_def sint64_pos_iff bigint_neg_pos
      split: option.splits if_splits)

lemma insert_leg_Inr:
  assumes "insert_leg E
      \<lparr>ent_ID = new_uuid E n, ent_TransactionID = new_uuid E 0, ent_AccountID = account,
       ent_Direction = direction, ent_Amount = cmd_Amount cmd,
       ent_Currency = cmd_Currency cmd, ent_CreatedAt = 0\<rparr> t = Inr (entry, t')"
    and "char3_param E (cmd_Currency cmd) = Inr currency" and "direction_of_label direction = Some dir"
  obtains "entry = leg_entry E cmd n account direction"
    "0 < sint (cmd_Amount cmd)" "new_uuid E n \<notin> er_id ` set (ledger_entries (tx_work t))"
    "transaction_exists (tx_work t) (new_uuid E 0)" "accounts (tx_work t) account \<noteq> None"
    "t' = t\<lparr>tx_work := (tx_work t)\<lparr>ledger_entries := ledger_entries (tx_work t) @
             [leg_row E cmd currency n account dir]\<rparr>,
           tx_deferred := tx_deferred t @ [new_uuid E 0]\<rparr>"
proof -
  from assms obtain d where "t' = t\<lparr>tx_work := d, tx_deferred := tx_deferred t @ [new_uuid E 0]\<rparr>"
    and ins: "insert_entry (new_uuid E n) (new_uuid E 0) account dir (cmd_Amount cmd) currency (now E)
        (tx_work t) = Inr d"
    and "entry = leg_entry E cmd n account direction"
    by (auto simp: insert_leg_def sql_insert_entry_def call_def leg_entry_def
        split: option.splits sum.splits)
  moreover from ins obtain "0 < sint (cmd_Amount cmd)"
    "new_uuid E n \<notin> er_id ` set (ledger_entries (tx_work t))"
    "transaction_exists (tx_work t) (new_uuid E 0)" "accounts (tx_work t) account \<noteq> None"
    "d = (tx_work t)\<lparr>ledger_entries := ledger_entries (tx_work t) @
             [leg_row E cmd currency n account dir]\<rparr>"
    by (rule insert_entry_Inr) (auto simp: leg_row_def)
  ultimately show thesis using that by simp
qed

text \<open>The three inserts: the transaction row and one leg per account.\<close>

definition legs_written :: "env \<Rightarrow> TransferCommand \<Rightarrow> string \<Rightarrow> db \<Rightarrow> db" where
  "legs_written E cmd currency d =
     d\<lparr>transactions := transactions d @ [transfer_row E cmd currency],
       ledger_entries := ledger_entries d @
         [leg_row E cmd currency 1 (cmd_DebitAccountID cmd) Debit_leg,
          leg_row E cmd currency 2 (cmd_CreditAccountID cmd) Credit_leg]\<rparr>"

lemma writeTransaction_Inr:
  assumes "writeTransaction E t cmd = Inr (result, t')"
  obtains currency where
    "char3_param E (cmd_Currency cmd) = Inr currency" "0 < sint (cmd_Amount cmd)"
    "\<not> transaction_exists (tx_work t) (new_uuid E 0)"
    "\<not> external_ref_used (tx_work t) (cmd_ExternalRef cmd)"
    "new_uuid E 1 \<notin> er_id ` set (ledger_entries (tx_work t))"
    "new_uuid E 2 \<notin> er_id ` set (ledger_entries (tx_work t))" "new_uuid E 1 \<noteq> new_uuid E 2"
    "result = transfer_txn E cmd"
    "t' = t\<lparr>tx_work := legs_written E cmd currency (tx_work t),
           tx_deferred := tx_deferred t @ [new_uuid E 0, new_uuid E 0]\<rparr>"
proof -
  let ?r0 = "\<lparr>txn_ID = new_uuid E 0, txn_ExternalRef = cmd_ExternalRef cmd,
      txn_Description = cmd_Description cmd, txn_Currency = cmd_Currency cmd,
      txn_CreatedAt = now E, txn_Entries = []\<rparr>"
  from assms obtain d where
    ins: "sql_insert_transaction E (new_uuid E 0) cmd (tx_work t) = Inr d"
    and legs: "write_legs E cmd 1 [(cmd_DebitAccountID cmd, Debit), (cmd_CreditAccountID cmd, Credit)]
        ?r0 (t\<lparr>tx_work := d\<rparr>) = Inr (result, t')"
    by (auto simp: writeTransaction_def Let_def call_def split: option.splits sum.splits)
  from ins obtain currency where cur: "char3_param E (cmd_Currency cmd) = Inr currency"
    and new: "\<not> transaction_exists (tx_work t) (new_uuid E 0)"
      "\<not> external_ref_used (tx_work t) (cmd_ExternalRef cmd)"
    and d: "d = (tx_work t)\<lparr>transactions := transactions (tx_work t) @ [transfer_row E cmd currency]\<rparr>"
    by (rule sql_insert_transaction_Inr) blast
  let ?leg = "\<lambda>n a dir. \<lparr>ent_ID = new_uuid E n, ent_TransactionID = new_uuid E 0,
      ent_AccountID = a, ent_Direction = dir, ent_Amount = cmd_Amount cmd,
      ent_Currency = cmd_Currency cmd, ent_CreatedAt = 0\<rparr>"
  from legs obtain e1 t1 e2 where
    l1: "insert_leg E (?leg 1 (cmd_DebitAccountID cmd) Debit) (t\<lparr>tx_work := d\<rparr>) = Inr (e1, t1)"
    and l2: "insert_leg E (?leg 2 (cmd_CreditAccountID cmd) Credit) t1 = Inr (e2, t')"
    and res: "result = ?r0\<lparr>txn_Entries := [e1, e2]\<rparr>"
    by (auto simp: numeral_2_eq_2 split: sum.splits)
  from l1 cur have e1: "e1 = leg_entry E cmd 1 (cmd_DebitAccountID cmd) Debit"
    and t1: "t1 = t\<lparr>tx_work := d\<lparr>ledger_entries := ledger_entries d @
               [leg_row E cmd currency 1 (cmd_DebitAccountID cmd) Debit_leg]\<rparr>,
             tx_deferred := tx_deferred t @ [new_uuid E 0]\<rparr>"
    and f1: "0 < sint (cmd_Amount cmd)" "new_uuid E 1 \<notin> er_id ` set (ledger_entries d)"
    by (rule insert_leg_Inr; simp)+
  from l2 cur have e2: "e2 = leg_entry E cmd 2 (cmd_CreditAccountID cmd) Credit"
    and t': "t' = t1\<lparr>tx_work := (tx_work t1)\<lparr>ledger_entries := ledger_entries (tx_work t1) @
               [leg_row E cmd currency 2 (cmd_CreditAccountID cmd) Credit_leg]\<rparr>,
             tx_deferred := tx_deferred t1 @ [new_uuid E 0]\<rparr>"
    and f2: "new_uuid E 2 \<notin> er_id ` set (ledger_entries (tx_work t1))"
    by (rule insert_leg_Inr; simp)+
  show thesis
    by (rule that [OF cur f1(1) new]) (use f1 f2 t1 d e1 e2 res t' in
        \<open>auto simp: legs_written_def transfer_txn_def leg_row_def\<close>)
qed

section \<open>The balances\<close>

lemma update_balance_Inr:
  assumes "update_balance aid (Some x) t d = Inr d'" and "accounts d aid = Some r"
  obtains b where "sint b = sint (ar_balance r) + sint x"
    "ar_allow_negative_balance r \<or> 0 \<le> sint b"
    "d' = d\<lparr>accounts := (accounts d)(aid \<mapsto> r\<lparr>ar_balance := b, ar_updated_at := t\<rparr>)\<rparr>"
  using assms
  by (auto simp: update_balance_def word_sle_eq dest: bigint_add_Some split: option.splits if_splits)

definition balances_moved ::
    "env \<Rightarrow> TransferCommand \<Rightarrow> account_row \<Rightarrow> account_row \<Rightarrow> int64 \<Rightarrow> int64 \<Rightarrow> db \<Rightarrow> db" where
  "balances_moved E cmd rd rc bd bc d =
     d\<lparr>accounts := (accounts d)
         (cmd_DebitAccountID cmd \<mapsto> rd\<lparr>ar_balance := bd, ar_updated_at := now E\<rparr>,
          cmd_CreditAccountID cmd \<mapsto> rc\<lparr>ar_balance := bc, ar_updated_at := now E\<rparr>)\<rparr>"

lemma applyBalances_Inr:
  assumes "applyBalances E t cmd = Inr t'"
    and "accounts (tx_work t) (cmd_DebitAccountID cmd) = Some rd"
    and "accounts (tx_work t) (cmd_CreditAccountID cmd) = Some rc"
    and "cmd_DebitAccountID cmd \<noteq> cmd_CreditAccountID cmd" and "0 < sint (cmd_Amount cmd)"
  obtains bd bc where
    "sint bd = sint (ar_balance rd) + sint (cmd_Amount cmd)"
    "sint bc = sint (ar_balance rc) - sint (cmd_Amount cmd)"
    "ar_allow_negative_balance rd \<or> 0 \<le> sint bd" "ar_allow_negative_balance rc \<or> 0 \<le> sint bc"
    "t' = t\<lparr>tx_work := balances_moved E cmd rd rc bd bc (tx_work t)\<rparr>"
proof -
  from assms(1,4,5) obtain d1 d2 where
    u1: "update_balance (cmd_DebitAccountID cmd) (Some (cmd_Amount cmd)) (now E) (tx_work t) = Inr d1"
    and u2: "update_balance (cmd_CreditAccountID cmd) (Some (- cmd_Amount cmd)) (now E) d1 = Inr d2"
    and t': "t' = t\<lparr>tx_work := d2\<rparr>"
    by (auto simp: applyBalances_def sql_apply_balances_def call_def bigint_neg_pos
        split: option.splits sum.splits if_splits)
  from u1 assms(2) obtain bd where bd: "sint bd = sint (ar_balance rd) + sint (cmd_Amount cmd)"
    "ar_allow_negative_balance rd \<or> 0 \<le> sint bd"
    and d1: "d1 = (tx_work t)\<lparr>accounts := (accounts (tx_work t))
        (cmd_DebitAccountID cmd \<mapsto> rd\<lparr>ar_balance := bd, ar_updated_at := now E\<rparr>)\<rparr>"
    by (rule update_balance_Inr)
  from d1 assms(3,4) have "accounts d1 (cmd_CreditAccountID cmd) = Some rc" by simp
  with u2 obtain bc where bc: "sint bc = sint (ar_balance rc) + sint (- cmd_Amount cmd)"
    "ar_allow_negative_balance rc \<or> 0 \<le> sint bc"
    and d2: "d2 = d1\<lparr>accounts := (accounts d1)
        (cmd_CreditAccountID cmd \<mapsto> rc\<lparr>ar_balance := bc, ar_updated_at := now E\<rparr>)\<rparr>"
    by (rule update_balance_Inr)
  show thesis
    by (rule that [of bd bc]) (use bd bc d1 d2 t' assms(5) in
        \<open>simp_all add: balances_moved_def sint64_minus_pos\<close>)
qed

section \<open>The event and the stored response\<close>

definition transfer_event :: "env \<Rightarrow> TransferCommand \<Rightarrow> event_row" where
  "transfer_event E cmd =
     \<lparr>vr_id = new_uuid E 3, vr_aggregate_type = AggregateTransaction,
      vr_aggregate_id = new_uuid E 0, vr_event_type = EventTypeTransactionCreated,
      vr_schema_version = SchemaVersion,
      vr_payload = jsonb (marshal_TransactionCreatedPayload (uuid_String (env_texts E))
        (TransactionCreatedPayload_of (transfer_txn E cmd))),
      vr_status = Pending, vr_attempts = 0, vr_last_error = None, vr_available_at = now E,
      vr_published_at = None, vr_created_at = now E\<rparr>"

lemma insertEvent_Inr:
  assumes "insertEvent E t
      (NewTransactionCreated (uuid_String (env_texts E)) (new_uuid E 3) (transfer_txn E cmd)) = Inr (ev, t')"
  obtains "new_uuid E 3 \<notin> vr_id ` set (outbox_events (tx_work t))"
    "t' = t\<lparr>tx_work := (tx_work t)\<lparr>outbox_events := outbox_events (tx_work t) @ [transfer_event E cmd]\<rparr>\<rparr>"
  using assms
  by (auto simp: insertEvent_def Let_def call_def insert_event_def NewTransactionCreated_def
      transfer_event_def transfer_txn_def split: option.splits sum.splits if_splits)

definition response_row :: "env \<Rightarrow> Claim \<Rightarrow> int \<Rightarrow> string \<Rightarrow> uuid \<Rightarrow> idempotency_row" where
  "response_row E c status body txid =
     (claim_row E c)\<lparr>ir_response_status := Some status, ir_response_body := Some body,
                     ir_transaction_id := Some txid\<rparr>"

lemma storeResponse_Inr:
  assumes "storeResponse E t c status body txid = Inr t'"
    and "idempotency_keys (tx_work t) (claim_of c) = Some (claim_row E c)"
  obtains "json_ok E body" "transaction_exists (tx_work t) txid"
    "t' = t\<lparr>tx_work := (tx_work t)\<lparr>idempotency_keys :=
            (idempotency_keys (tx_work t))(claim_of c \<mapsto> response_row E c status body txid)\<rparr>\<rparr>"
  using assms
  by (auto simp: storeResponse_def call_def claim_of_def response_row_def
      split: option.splits if_splits)

section \<open>The whole transfer\<close>

text \<open>
  The state after a successful transfer, as one update of the starting state: \<open>rd\<close> and
  \<open>rc\<close> are the rows of the two accounts, \<open>bd\<close> and \<open>bc\<close> their new balances.
\<close>

definition after_transfer ::
    "env \<Rightarrow> TransferCommand \<Rightarrow> Claim \<Rightarrow> int \<Rightarrow> string \<Rightarrow> string
     \<Rightarrow> account_row \<Rightarrow> account_row \<Rightarrow> int64 \<Rightarrow> int64 \<Rightarrow> db \<Rightarrow> db" where
  "after_transfer E cmd claim status body currency rd rc bd bc d =
     d\<lparr>accounts := (accounts d)
         (cmd_DebitAccountID cmd \<mapsto> rd\<lparr>ar_balance := bd, ar_updated_at := now E\<rparr>,
          cmd_CreditAccountID cmd \<mapsto> rc\<lparr>ar_balance := bc, ar_updated_at := now E\<rparr>),
       transactions := transactions d @ [transfer_row E cmd currency],
       ledger_entries := ledger_entries d @
         [leg_row E cmd currency 1 (cmd_DebitAccountID cmd) Debit_leg,
          leg_row E cmd currency 2 (cmd_CreditAccountID cmd) Credit_leg],
       idempotency_keys := (idempotency_keys d)
         (claim_of claim \<mapsto> response_row E claim status body (new_uuid E 0)),
       outbox_events := outbox_events d @ [transfer_event E cmd]\<rparr>"

text \<open>What has to hold of the starting state, the command and the two balances.\<close>

definition transfer_enabled ::
    "env \<Rightarrow> TransferCommand \<Rightarrow> Claim \<Rightarrow> string \<Rightarrow> account_row \<Rightarrow> account_row
     \<Rightarrow> int64 \<Rightarrow> int64 \<Rightarrow> db \<Rightarrow> bool" where
  "transfer_enabled E cmd claim currency rd rc bd bc d \<longleftrightarrow>
     idempotency_keys d (claim_of claim) = None
     \<and> accounts d (cmd_DebitAccountID cmd) = Some rd
     \<and> accounts d (cmd_CreditAccountID cmd) = Some rc
     \<and> ar_currency rd = cmd_Currency cmd \<and> ar_currency rc = cmd_Currency cmd
     \<and> char3_param E (cmd_Currency cmd) = Inr currency
     \<and> 0 < sint (cmd_Amount cmd)
     \<and> (ar_allow_negative_balance rc \<or> sint (cmd_Amount cmd) \<le> sint (ar_balance rc))
     \<and> sint bd = sint (ar_balance rd) + sint (cmd_Amount cmd)
     \<and> sint bc = sint (ar_balance rc) - sint (cmd_Amount cmd)
     \<and> (ar_allow_negative_balance rd \<or> 0 \<le> sint bd)
     \<and> (ar_allow_negative_balance rc \<or> 0 \<le> sint bc)
     \<and> \<not> transaction_exists d (new_uuid E 0) \<and> \<not> external_ref_used d (cmd_ExternalRef cmd)
     \<and> new_uuid E 1 \<notin> er_id ` set (ledger_entries d)
     \<and> new_uuid E 2 \<notin> er_id ` set (ledger_entries d) \<and> new_uuid E 1 \<noteq> new_uuid E 2
     \<and> new_uuid E 3 \<notin> vr_id ` set (outbox_events d)"

lemma transfer_work_Inr:
  assumes work: "transfer_work E cmd claim render t0 = Inr (res, t4)"
    and t0: "t0 = (tx_begin d)\<lparr>tx_work := claimed E claim d\<rparr>"
    and new: "idempotency_keys d (claim_of claim) = None"
    and neq: "cmd_DebitAccountID cmd \<noteq> cmd_CreditAccountID cmd"
  obtains status body currency rd rc bd bc where
    "render (transfer_txn E cmd) = Inr (status, body)" "json_ok E body"
    "transfer_enabled E cmd claim currency rd rc bd bc d"
    "res = \<lparr>res_Status = status, res_Body = body, res_Replayed = False,
            res_Transaction = Some (transfer_txn E cmd)\<rparr>"
    "t4 = \<lparr>tx_base = d, tx_work = after_transfer E cmd claim status body currency rd rc bd bc d,
           tx_deferred = [new_uuid E 0, new_uuid E 0]\<rparr>"
proof -
  from work obtain accs result t1 t2 ev t3 status body where
    lock: "lockAccounts E t0 [cmd_DebitAccountID cmd, cmd_CreditAccountID cmd] = Inr accs"
    and check: "check_accounts cmd (the (accs (cmd_DebitAccountID cmd)))
        (the (accs (cmd_CreditAccountID cmd))) = None"
    and wr: "writeTransaction E t0 cmd = Inr (result, t1)"
    and bal: "applyBalances E t1 cmd = Inr t2"
    and event: "insertEvent E t2 (NewTransactionCreated (uuid_String (env_texts E))
        (new_uuid E 3) result) = Inr (ev, t3)"
    and render: "render result = Inr (status, body)"
    and store: "storeResponse E t3 claim status body (txn_ID result) = Inr t4"
    and res: "res = \<lparr>res_Status = status, res_Body = body, res_Replayed = False,
        res_Transaction = Some result\<rparr>"
    by (auto simp: transfer_work_def split: sum.splits option.splits prod.splits)
  have w0: "accounts (tx_work t0) = accounts d" "transactions (tx_work t0) = transactions d"
      "ledger_entries (tx_work t0) = ledger_entries d" "outbox_events (tx_work t0) = outbox_events d"
    by (simp_all add: t0 claimed_def)
  from lock obtain rd where rd: "accounts d (cmd_DebitAccountID cmd) = Some rd"
      "accs (cmd_DebitAccountID cmd) = Some (scanAccount (cmd_DebitAccountID cmd) rd)"
    by (rule lockAccounts_Inr [where i = "cmd_DebitAccountID cmd"]) (simp_all add: w0)
  from lock obtain rc where rc: "accounts d (cmd_CreditAccountID cmd) = Some rc"
      "accs (cmd_CreditAccountID cmd) = Some (scanAccount (cmd_CreditAccountID cmd) rc)"
    by (rule lockAccounts_Inr [where i = "cmd_CreditAccountID cmd"]) (simp_all add: w0)
  from wr obtain currency where cur: "char3_param E (cmd_Currency cmd) = Inr currency"
    and pos: "0 < sint (cmd_Amount cmd)"
    and fresh: "\<not> transaction_exists (tx_work t0) (new_uuid E 0)"
      "\<not> external_ref_used (tx_work t0) (cmd_ExternalRef cmd)"
      "new_uuid E 1 \<notin> er_id ` set (ledger_entries (tx_work t0))"
      "new_uuid E 2 \<notin> er_id ` set (ledger_entries (tx_work t0))" "new_uuid E 1 \<noteq> new_uuid E 2"
    and result: "result = transfer_txn E cmd"
    and t1: "t1 = t0\<lparr>tx_work := legs_written E cmd currency (tx_work t0),
           tx_deferred := tx_deferred t0 @ [new_uuid E 0, new_uuid E 0]\<rparr>"
    by (rule writeTransaction_Inr)
  have "accounts (tx_work t1) (cmd_DebitAccountID cmd) = Some rd"
      "accounts (tx_work t1) (cmd_CreditAccountID cmd) = Some rc"
    using rd rc by (simp_all add: t1 legs_written_def w0)
  from bal this neq pos obtain bd bc where
    bals: "sint bd = sint (ar_balance rd) + sint (cmd_Amount cmd)"
      "sint bc = sint (ar_balance rc) - sint (cmd_Amount cmd)"
      "ar_allow_negative_balance rd \<or> 0 \<le> sint bd" "ar_allow_negative_balance rc \<or> 0 \<le> sint bc"
    and t2: "t2 = t1\<lparr>tx_work := balances_moved E cmd rd rc bd bc (tx_work t1)\<rparr>"
    by (rule applyBalances_Inr)
  from event [unfolded result] have ev_new: "new_uuid E 3 \<notin> vr_id ` set (outbox_events d)"
    and t3: "t3 = t2\<lparr>tx_work := (tx_work t2)\<lparr>outbox_events := outbox_events (tx_work t2) @
        [transfer_event E cmd]\<rparr>\<rparr>"
    by (auto elim!: insertEvent_Inr simp: t2 t1 legs_written_def balances_moved_def w0)
  have key: "idempotency_keys (tx_work t3) (claim_of claim) = Some (claim_row E claim)"
    by (simp add: t3 t2 t1 t0 claimed_def legs_written_def balances_moved_def)
  from store key have "json_ok E body"
    and t4: "t4 = t3\<lparr>tx_work := (tx_work t3)\<lparr>idempotency_keys := (idempotency_keys (tx_work t3))
        (claim_of claim \<mapsto> response_row E claim status body (txn_ID result))\<rparr>\<rparr>"
    by (auto elim!: storeResponse_Inr)
  have "txn_ID result = new_uuid E 0" by (simp add: result transfer_txn_def)
  moreover have "transfer_enabled E cmd claim currency rd rc bd bc d"
    using check rd rc cur pos fresh bals ev_new new
    by (simp add: transfer_enabled_def check_accounts_None w0 transaction_exists_def external_ref_used_def)
  ultimately show thesis
    by (intro that [of status body currency rd rc bd bc])
      (use render result res \<open>json_ok E body\<close> in \<open>simp_all add: t4 t3 t2 t1 t0 claimed_def
        legs_written_def balances_moved_def after_transfer_def tx_begin_def\<close>)
qed

text \<open>
  A transfer moves the database at most to \<open>after_transfer\<close> of it. \<open>transfer_effect\<close> is
  that one possible change: what was rendered and stored, and that the deferred trigger
  accepted it.
\<close>

definition transfer_effect ::
    "env \<Rightarrow> TransferCommand \<Rightarrow> Claim \<Rightarrow> RenderFunc \<Rightarrow> int \<Rightarrow> string \<Rightarrow> db \<Rightarrow> db \<Rightarrow> bool" where
  "transfer_effect E cmd claim render status body d d' \<longleftrightarrow>
     render (transfer_txn E cmd) = Inr (status, body) \<and> json_ok E body
     \<and> (\<exists>currency rd rc bd bc.
          transfer_enabled E cmd claim currency rd rc bd bc d
          \<and> d' = after_transfer E cmd claim status body currency rd rc bd bc d
          \<and> run_deferred d' [new_uuid E 0, new_uuid E 0] = None)"

lemma transfer_effectI:
  assumes "render (transfer_txn E cmd) = Inr (status, body)" "json_ok E body"
    and "transfer_enabled E cmd claim currency rd rc bd bc d"
    and "run_deferred (after_transfer E cmd claim status body currency rd rc bd bc d)
           [new_uuid E 0, new_uuid E 0] = None"
  shows "transfer_effect E cmd claim render status body d
           (after_transfer E cmd claim status body currency rd rc bd bc d)"
  using assms unfolding transfer_effect_def by blast

lemma after_transfer_seq [simp]:
  "delivery_seq (after_transfer E cmd claim status body currency rd rc bd bc d) = delivery_seq d"
  by (simp add: after_transfer_def)

lemma claimed_seq [simp]: "delivery_seq (claimed E c d) = delivery_seq d"
  by (simp add: claimed_def)

lemma tx_commit_cases:
  obtains "tx_commit E s t = (None, tx_work t)" "run_deferred (tx_work t) (tx_deferred t) = None"
      "fails E s = None"
  | e where "tx_commit E s t = (Some e, tx_rollback t)"
  | e where "tx_commit E s t = (Some e, tx_work t)" "run_deferred (tx_work t) (tx_deferred t) = None"
      "fails E s = Some e" "commit_applied E"
  by (cases "run_deferred (tx_work t) (tx_deferred t)"; cases "fails E s"; cases "commit_applied E")
    (auto simp: tx_commit_def)

text \<open>After the key is owned: the work fails, or the commit has one of three outcomes.\<close>

lemma owned_transfer_cases:
  assumes t0: "t0 = (tx_begin d)\<lparr>tx_work := claimed E claim d\<rparr>"
    and new: "idempotency_keys d (claim_of claim) = None"
    and neq: "cmd_DebitAccountID cmd \<noteq> cmd_CreditAccountID cmd"
    and run: "(r, d') = (case transfer_work E cmd claim render t0 of
        Inl err \<Rightarrow> (Inl err, tx_rollback t0)
      | Inr (result, t4) \<Rightarrow>
          (case tx_commit E CommitTransfer t4 of
             (Some err, d') \<Rightarrow> (Inl (translateWriteError err), d')
           | (None, d') \<Rightarrow> (Inr result, d')))"
  obtains (fresh) status body where
      "r = Inr \<lparr>res_Status = status, res_Body = body, res_Replayed = False,
                res_Transaction = Some (transfer_txn E cmd)\<rparr>"
      "transfer_effect E cmd claim render status body d d'"
    | (failed) e where "r = Inl e" "d' = d"
    | (lost) e status body where "r = Inl e" "fails E CommitTransfer \<noteq> None" "commit_applied E"
      "transfer_effect E cmd claim render status body d d'"
proof (cases "transfer_work E cmd claim render t0")
  case (Inl e)
  with run t0 show thesis by (intro failed) (auto simp: tx_rollback_def)
next
  case (Inr rt)
  obtain res t4 where rt: "rt = (res, t4)" by (cases rt)
  with Inr obtain status body currency rd rc bd bc where
    w: "render (transfer_txn E cmd) = Inr (status, body)" "json_ok E body"
      "transfer_enabled E cmd claim currency rd rc bd bc d"
      "res = \<lparr>res_Status = status, res_Body = body, res_Replayed = False,
        res_Transaction = Some (transfer_txn E cmd)\<rparr>"
    and t4: "t4 = \<lparr>tx_base = d,
        tx_work = after_transfer E cmd claim status body currency rd rc bd bc d,
        tx_deferred = [new_uuid E 0, new_uuid E 0]\<rparr>"
    using transfer_work_Inr [OF _ t0 new neq] by metis
  have eff: "transfer_effect E cmd claim render status body d (tx_work t4)"
    if "run_deferred (tx_work t4) (tx_deferred t4) = None"
    using that w(2,3) unfolding t4
    by (auto intro!: transfer_effectI [where render = render, OF w(1)] simp del: run_deferred.simps)
  show thesis
  proof (rule tx_commit_cases [of E CommitTransfer t4])
    assume "tx_commit E CommitTransfer t4 = (None, tx_work t4)"
      "run_deferred (tx_work t4) (tx_deferred t4) = None"
    with run Inr rt w(4) eff show thesis by (intro fresh [of status body]) simp_all
  next
    fix e assume "tx_commit E CommitTransfer t4 = (Some e, tx_rollback t4)"
    with run Inr rt t4 show thesis by (intro failed) (auto simp: tx_rollback_def)
  next
    fix e assume "tx_commit E CommitTransfer t4 = (Some e, tx_work t4)"
      "run_deferred (tx_work t4) (tx_deferred t4) = None"
      "fails E CommitTransfer = Some e" "commit_applied E"
    with run Inr rt eff show thesis
      by (intro lost [of "translateWriteError e" status body]) simp_all
  qed
qed

lemma Store_Transfer_cases:
  assumes run: "Store_Transfer E cmd claim render d = (r, d')"
    and neq: "cmd_DebitAccountID cmd \<noteq> cmd_CreditAccountID cmd"
  obtains (fresh) status body where
      "idempotency_keys d (claim_of claim) = None"
      "r = Inr \<lparr>res_Status = status, res_Body = body, res_Replayed = False,
                res_Transaction = Some (transfer_txn E cmd)\<rparr>"
      "transfer_effect E cmd claim render status body d d'"
    | (replay) row where
      "idempotency_keys d (claim_of claim) = Some row" "d' = d"
      "r = replayStoredResponse E (tx_begin d) claim"
    | (failed) e where "r = Inl e" "d' = d"
    | (lost) e status body where "idempotency_keys d (claim_of claim) = None" "r = Inl e"
      "fails E CommitTransfer \<noteq> None" "commit_applied E"
      "transfer_effect E cmd claim render status body d d'"
proof (cases "fails E BeginTransfer")
  case (Some e)
  with run show thesis by (intro failed) (auto simp: Store_Transfer_def)
next
  case started: None
  show thesis
  proof (cases "claimKey E (tx_begin d) claim")
    case (Inl e)
    with started run show thesis by (intro failed) (auto simp: Store_Transfer_def)
  next
    case (Inr bt)
    obtain owned t0 where bt: "bt = (owned, t0)" by (cases bt)
    show thesis
    proof (cases owned)
      case False
      with Inr bt obtain row where "t0 = tx_begin d" "idempotency_keys d (claim_of claim) = Some row"
        by (auto simp: claimKey_not_owned)
      with False Inr bt started run show thesis
        by (intro replay [of row]) (auto simp: Store_Transfer_def)
    next
      case True
      with Inr bt have new: "idempotency_keys d (claim_of claim) = None"
        and t0: "t0 = (tx_begin d)\<lparr>tx_work := claimed E claim d\<rparr>"
        by (simp_all add: claimKey_owned)
      from True Inr bt started run
      have run': "(r, d') = (case transfer_work E cmd claim render t0 of
            Inl err \<Rightarrow> (Inl err, tx_rollback t0)
          | Inr (result, t4) \<Rightarrow>
              (case tx_commit E CommitTransfer t4 of
                 (Some err, d') \<Rightarrow> (Inl (translateWriteError err), d')
               | (None, d') \<Rightarrow> (Inr result, d')))"
        by (simp add: Store_Transfer_def)
      show thesis
        by (rule owned_transfer_cases [OF t0 new neq run'])
          (erule (1) fresh [OF new] failed lost [OF new], assumption?)+
    qed
  qed
qed

end
