(* ===== verification/Ledger_Inv.thy ===== *)
theory Ledger_Inv
  imports Store_Facts
begin

text \<open>
  The invariants of the ledger tables and their preservation by the two ways the ledger
  changes: inserting an account with a zero balance, and the effect of a transfer.
\<close>

section \<open>Definitions\<close>

text \<open>The balance an account should have: the sum of its signed entries, computed exactly.\<close>

definition account_total :: "db \<Rightarrow> uuid \<Rightarrow> int" where
  "account_total d a =
     (\<Sum>e \<leftarrow> filter (\<lambda>e. er_account_id e = a) (ledger_entries d). sint (er_signed_amount e))"

text \<open>Rows are well formed: keys are unique and references resolve.\<close>

definition refs_of :: "db \<Rightarrow> string list" where
  "refs_of d = concat (map (\<lambda>t. case tr_external_ref t of None \<Rightarrow> [] | Some x \<Rightarrow> [x]) (transactions d))"

definition transactions_wf :: "db \<Rightarrow> bool" where
  "transactions_wf d \<longleftrightarrow> distinct (map tr_id (transactions d)) \<and> distinct (refs_of d)"

definition entry_wf :: "db \<Rightarrow> entry_row \<Rightarrow> bool" where
  "entry_wf d e \<longleftrightarrow>
     0 < sint (er_amount e)
     \<and> er_signed_amount e = (if er_direction e = Debit_leg then er_amount e else - er_amount e)
     \<and> (\<exists>t \<in> set (transactions d). tr_id t = er_transaction_id e \<and> tr_currency t = er_currency e)
     \<and> (\<exists>r. accounts d (er_account_id e) = Some r \<and> ar_currency r = er_currency e)"

definition entries_wf :: "db \<Rightarrow> bool" where
  "entries_wf d \<longleftrightarrow>
     distinct (map er_id (ledger_entries d)) \<and> (\<forall>e \<in> set (ledger_entries d). entry_wf d e)"

text \<open>Every transaction has exactly two legs, one of each direction, and they cancel.\<close>

definition zero_sum :: "db \<Rightarrow> bool" where
  "zero_sum d \<longleftrightarrow>
     (\<forall>t \<in> set (transactions d).
        map er_direction (legs_of d (tr_id t)) = [Debit_leg, Credit_leg]
        \<and> imbalance d (tr_id t) = 0)"

definition balances_agree :: "db \<Rightarrow> bool" where
  "balances_agree d \<longleftrightarrow>
     (\<forall>a r. accounts d a = Some r \<longrightarrow> sint (ar_balance r) = account_total d a)"

definition balance_floor :: "db \<Rightarrow> bool" where
  "balance_floor d \<longleftrightarrow>
     (\<forall>a r. accounts d a = Some r \<longrightarrow> ar_allow_negative_balance r \<or> 0 \<le> sint (ar_balance r))"

text \<open>A committed idempotency row carries its response and names a transaction.\<close>

definition keys_wf :: "db \<Rightarrow> bool" where
  "keys_wf d \<longleftrightarrow>
     (\<forall>k r. idempotency_keys d k = Some r \<longrightarrow>
        (\<exists>status body txid. ir_response_status r = Some status \<and> ir_response_body r = Some body
           \<and> ir_transaction_id r = Some txid \<and> transaction_exists d txid))"

definition ledger_inv :: "db \<Rightarrow> bool" where
  "ledger_inv d \<longleftrightarrow> transactions_wf d \<and> entries_wf d \<and> zero_sum d \<and> balances_agree d
     \<and> balance_floor d \<and> keys_wf d \<and> finite (dom (accounts d))"

lemmas inv_defs = transactions_wf_def entries_wf_def zero_sum_def balances_agree_def
  balance_floor_def keys_wf_def

lemma ledger_inv_empty: "ledger_inv empty_db"
  by (simp add: ledger_inv_def inv_defs empty_db_def refs_of_def)

section \<open>Consequences\<close>

lemma ledger_invD:
  assumes "ledger_inv d"
  shows "transactions_wf d" "entries_wf d" "zero_sum d" "balances_agree d" "balance_floor d"
    "keys_wf d" "finite (dom (accounts d))"
  using assms by (simp_all add: ledger_inv_def)

text \<open>The ledger sums to zero: entries grouped by transaction cancel.\<close>

lemma sum_list_group:
  "(\<Sum>e \<leftarrow> es. f e) = (\<Sum>k \<in> g ` set es. (\<Sum>e \<leftarrow> filter (\<lambda>e. g e = k) es. (f e :: int)))"
proof (induction es)
  case Nil
  show ?case by simp
next
  case (Cons x es)
  let ?S = "\<lambda>es k. \<Sum>e \<leftarrow> filter (\<lambda>e. g e = k) es. f e"
  have zero: "?S es k = 0" if "k \<notin> g ` set es" for k
    using that by (subst filter_False) auto
  have "(\<Sum>k \<in> g ` set (x # es). ?S (x # es) k)
      = (\<Sum>k \<in> g ` set (x # es). (if k = g x then f x else 0) + ?S es k)"
    by (intro sum.cong) auto
  also have "\<dots> = f x + (\<Sum>k \<in> g ` set (x # es). ?S es k)"
    by (simp add: sum.distrib)
  also have "(\<Sum>k \<in> g ` set (x # es). ?S es k) = (\<Sum>k \<in> g ` set es. ?S es k)"
    by (intro sum.mono_neutral_right) (auto intro: zero)
  finally show ?case using Cons.IH by simp
qed

lemma entries_sum_zero:
  assumes "entries_wf d" and "zero_sum d"
  shows "(\<Sum>e \<leftarrow> ledger_entries d. sint (er_signed_amount e)) = 0"
proof -
  have "imbalance d k = 0" if "k \<in> er_transaction_id ` set (ledger_entries d)" for k
  proof -
    from that assms(1) obtain t where "t \<in> set (transactions d)" "tr_id t = k"
      by (auto simp: entries_wf_def entry_wf_def)
    with assms(2) show ?thesis by (auto simp: zero_sum_def)
  qed
  then show ?thesis
    by (subst sum_list_group [where g = er_transaction_id]) (simp add: imbalance_def legs_of_def)
qed

text \<open>So do the cached balances of all accounts.\<close>

lemma balances_sum_zero:
  assumes "ledger_inv d"
  shows "(\<Sum>a \<in> dom (accounts d). sint (ar_balance (the (accounts d a)))) = 0"
proof -
  note inv = ledger_invD [OF assms]
  let ?E = "ledger_entries d"
  have sub: "er_account_id ` set ?E \<subseteq> dom (accounts d)"
    using inv(2) by (auto simp: entries_wf_def entry_wf_def)
  have zero: "account_total d a = 0" if "a \<notin> er_account_id ` set ?E" for a
    using that unfolding account_total_def by (subst filter_False) auto
  have "(\<Sum>a \<in> dom (accounts d). sint (ar_balance (the (accounts d a))))
      = (\<Sum>a \<in> dom (accounts d). account_total d a)"
    using inv(4) by (intro sum.cong) (auto simp: balances_agree_def)
  also have "\<dots> = (\<Sum>a \<in> er_account_id ` set ?E. account_total d a)"
    using sub inv(7) zero by (intro sum.mono_neutral_right) auto
  also have "\<dots> = (\<Sum>e \<leftarrow> ?E. sint (er_signed_amount e))"
    by (subst sum_list_group [where g = er_account_id]) (simp add: account_total_def)
  finally show ?thesis using entries_sum_zero inv by simp
qed

section \<open>The effect of a transfer on the derived quantities\<close>

lemma after_transfer_sel [row_simps]:
  fixes E cmd claim status body currency rd rc bd bc d
  defines "d' \<equiv> after_transfer E cmd claim status body currency rd rc bd bc d"
  shows "transactions d' = transactions d @ [transfer_row E cmd currency]"
    and "ledger_entries d' = ledger_entries d @
         [leg_row E cmd currency 1 (cmd_DebitAccountID cmd) Debit_leg,
          leg_row E cmd currency 2 (cmd_CreditAccountID cmd) Credit_leg]"
    and "accounts d' = (accounts d)
         (cmd_DebitAccountID cmd \<mapsto> rd\<lparr>ar_balance := bd, ar_updated_at := now E\<rparr>,
          cmd_CreditAccountID cmd \<mapsto> rc\<lparr>ar_balance := bc, ar_updated_at := now E\<rparr>)"
    and "idempotency_keys d' = (idempotency_keys d)
         (claim_of claim \<mapsto> response_row E claim status body (new_uuid E 0))"
    and "outbox_events d' = outbox_events d @ [transfer_event E cmd]"
    and "outbox_deliveries d' = outbox_deliveries d"
  by (simp_all add: d'_def after_transfer_def)

lemma leg_row_sel [simp]:
  "er_id (leg_row E cmd cur n a dir) = new_uuid E n"
  "er_transaction_id (leg_row E cmd cur n a dir) = new_uuid E 0"
  "er_account_id (leg_row E cmd cur n a dir) = a"
  "er_direction (leg_row E cmd cur n a dir) = dir"
  "er_amount (leg_row E cmd cur n a dir) = cmd_Amount cmd"
  "er_currency (leg_row E cmd cur n a dir) = cur"
  "er_signed_amount (leg_row E cmd cur n a dir) =
     (if dir = Debit_leg then cmd_Amount cmd else - cmd_Amount cmd)"
  by (simp_all add: leg_row_def)

lemma transfer_row_sel [simp]:
  "tr_id (transfer_row E cmd cur) = new_uuid E 0"
  "tr_external_ref (transfer_row E cmd cur) = cmd_ExternalRef cmd"
  "tr_currency (transfer_row E cmd cur) = cur"
  by (simp_all add: transfer_row_def)

lemma transaction_existsI: "t \<in> set (transactions d) \<Longrightarrow> transaction_exists d (tr_id t)"
  by (simp add: transaction_exists_def)

lemma entry_transaction_exists:
  "entries_wf d \<Longrightarrow> e \<in> set (ledger_entries d) \<Longrightarrow> transaction_exists d (er_transaction_id e)"
  by (metis entries_wf_def entry_wf_def transaction_existsI)

lemma no_legs:
  assumes "entries_wf d" and "\<not> transaction_exists d txid"
  shows "legs_of d txid = []"
  using assms entry_transaction_exists by (fastforce simp: legs_of_def filter_empty_conv)

lemma legs_of_after_transfer [row_simps]:
  "legs_of (after_transfer E cmd claim status body currency rd rc bd bc d) txid =
     legs_of d txid @ (if txid = new_uuid E 0 then
       [leg_row E cmd currency 1 (cmd_DebitAccountID cmd) Debit_leg,
        leg_row E cmd currency 2 (cmd_CreditAccountID cmd) Credit_leg] else [])"
  by (simp add: legs_of_def row_simps)

lemma imbalance_after_transfer [row_simps]:
  assumes "0 < sint (cmd_Amount cmd)"
  shows "imbalance (after_transfer E cmd claim status body currency rd rc bd bc d) txid = imbalance d txid"
  using assms by (simp add: imbalance_def legs_of_after_transfer sint64_minus_pos)

lemma account_total_after_transfer [row_simps]:
  assumes "0 < sint (cmd_Amount cmd)"
  shows "account_total (after_transfer E cmd claim status body currency rd rc bd bc d) a =
     account_total d a + (if a = cmd_DebitAccountID cmd then sint (cmd_Amount cmd) else 0)
       - (if a = cmd_CreditAccountID cmd then sint (cmd_Amount cmd) else 0)"
  using assms by (simp add: account_total_def row_simps sint64_minus_pos)

lemma transaction_exists_after_transfer [row_simps]:
  "transaction_exists (after_transfer E cmd claim status body currency rd rc bd bc d) txid \<longleftrightarrow>
     transaction_exists d txid \<or> txid = new_uuid E 0"
  by (auto simp: transaction_exists_def row_simps)

lemma refs_of_after_transfer [row_simps]:
  "refs_of (after_transfer E cmd claim status body currency rd rc bd bc d) =
     refs_of d @ (case cmd_ExternalRef cmd of None \<Rightarrow> [] | Some x \<Rightarrow> [x])"
  by (simp add: refs_of_def row_simps split: option.split)

lemma set_refs_of: "x \<in> set (refs_of d) \<longleftrightarrow> Some x \<in> tr_external_ref ` set (transactions d)"
  by (auto simp: refs_of_def image_iff eq_commute split: option.splits)

text \<open>The deferred trigger accepts the two legs of a transfer.\<close>

lemma trigger_accepts_transfer:
  assumes "entries_wf d" and "0 < sint (cmd_Amount cmd)" and "\<not> transaction_exists d (new_uuid E 0)"
  shows "assert_transaction_balanced
    (after_transfer E cmd claim status body currency rd rc bd bc d) (new_uuid E 0) = None"
proof -
  have "legs_of d (new_uuid E 0) = []" using assms(1,3) by (rule no_legs)
  then show ?thesis
    using assms(2)
    by (simp add: assert_transaction_balanced_def row_simps imbalance_def bigint_def
        sint64_minus_pos)
qed

section \<open>Preservation by a transfer\<close>

lemma transactions_wf_transfer [inv_intros]:
  assumes "transfer_enabled E cmd claim currency rd rc bd bc d" and "transactions_wf d"
  shows "transactions_wf (after_transfer E cmd claim status body currency rd rc bd bc d)"
  using assms
  by (auto simp: transactions_wf_def row_simps transfer_enabled_def transaction_exists_def
      external_ref_used_def set_refs_of split: option.split)

lemma entry_wf_transfer_old:
  assumes en: "transfer_enabled E cmd claim currency rd rc bd bc d" and e: "entry_wf d e"
  shows "entry_wf (after_transfer E cmd claim status body currency rd rc bd bc d) e"
  using assms by (auto simp: entry_wf_def row_simps transfer_enabled_def)

lemma entries_wf_transfer [inv_intros]:
  assumes en: "transfer_enabled E cmd claim currency rd rc bd bc d" and wf: "entries_wf d"
    and cur: "currency = cmd_Currency cmd"
  shows "entries_wf (after_transfer E cmd claim status body currency rd rc bd bc d)"
proof -
  let ?d' = "after_transfer E cmd claim status body currency rd rc bd bc d"
  have "entry_wf ?d' (leg_row E cmd currency 1 (cmd_DebitAccountID cmd) Debit_leg)"
    "entry_wf ?d' (leg_row E cmd currency 2 (cmd_CreditAccountID cmd) Credit_leg)"
    using en cur by (auto simp: entry_wf_def row_simps transfer_enabled_def)
  moreover have "\<forall>e \<in> set (ledger_entries d). entry_wf ?d' e"
    using en wf by (auto simp: entries_wf_def intro: entry_wf_transfer_old)
  ultimately show ?thesis
    using en wf by (auto simp: entries_wf_def row_simps transfer_enabled_def)
qed

lemma zero_sum_transfer [inv_intros]:
  assumes en: "transfer_enabled E cmd claim currency rd rc bd bc d"
    and wf: "entries_wf d" and zs: "zero_sum d"
  shows "zero_sum (after_transfer E cmd claim status body currency rd rc bd bc d)"
proof -
  from en have pos: "0 < sint (cmd_Amount cmd)" and new: "\<not> transaction_exists d (new_uuid E 0)"
    by (simp_all add: transfer_enabled_def)
  have nl: "legs_of d (new_uuid E 0) = []" using wf new by (rule no_legs)
  then have "imbalance d (new_uuid E 0) = 0" by (simp add: imbalance_def)
  moreover have "tr_id t \<noteq> new_uuid E 0" if "t \<in> set (transactions d)" for t
    using new that transaction_existsI by metis
  ultimately show ?thesis
    using zs nl pos by (auto simp: zero_sum_def row_simps)
qed

lemma balances_agree_transfer [inv_intros]:
  assumes en: "transfer_enabled E cmd claim currency rd rc bd bc d"
    and neq: "cmd_DebitAccountID cmd \<noteq> cmd_CreditAccountID cmd" and ba: "balances_agree d"
  shows "balances_agree (after_transfer E cmd claim status body currency rd rc bd bc d)"
proof -
  from en have pos: "0 < sint (cmd_Amount cmd)" by (simp add: transfer_enabled_def)
  show ?thesis
    using en ba neq unfolding balances_agree_def
    by (simp add: account_total_after_transfer [OF pos] after_transfer_sel transfer_enabled_def)
qed

lemma balance_floor_transfer [inv_intros]:
  assumes "transfer_enabled E cmd claim currency rd rc bd bc d" and "balance_floor d"
  shows "balance_floor (after_transfer E cmd claim status body currency rd rc bd bc d)"
  using assms by (auto simp: balance_floor_def row_simps transfer_enabled_def)

lemma keys_wf_transfer [inv_intros]:
  assumes "keys_wf d"
  shows "keys_wf (after_transfer E cmd claim status body currency rd rc bd bc d)"
  using assms by (fastforce simp: keys_wf_def row_simps response_row_def)

lemma ledger_inv_transfer:
  assumes "transfer_enabled E cmd claim currency rd rc bd bc d" and "ledger_inv d"
    and "cmd_DebitAccountID cmd \<noteq> cmd_CreditAccountID cmd" and "currency = cmd_Currency cmd"
  shows "ledger_inv (after_transfer E cmd claim status body currency rd rc bd bc d)"
  using assms by (auto simp: ledger_inv_def row_simps intro!: inv_intros)

section \<open>Preservation by \<open>Transfer\<close> and \<open>CreateAccount\<close>\<close>

lemma char3_param_valid_unchanged:
  "char3_param E s = Inr t \<Longrightarrow> ValidCurrency s \<Longrightarrow> t = s"
  using char3_param_ValidCurrency [of s E] char3_param_cong [of E s t] by simp

text \<open>Whatever a transfer returns and whichever call fails, the invariant is kept.\<close>

lemma ledger_inv_effect:
  assumes "transfer_effect E cmd claim render status body d d'" and "ledger_inv d"
    and "TransferCommand_Validate cmd = None"
  shows "ledger_inv d'"
proof -
  from assms(1) obtain currency rd rc bd bc where
    en: "transfer_enabled E cmd claim currency rd rc bd bc d"
    and d': "d' = after_transfer E cmd claim status body currency rd rc bd bc d"
    unfolding transfer_effect_def by blast
  from assms(3) have "ValidCurrency (cmd_Currency cmd)"
    and neq: "cmd_DebitAccountID cmd \<noteq> cmd_CreditAccountID cmd"
    by (simp_all add: TransferCommand_Validate_None)
  then have "currency = cmd_Currency cmd"
    using en by (auto simp: transfer_enabled_def dest: char3_param_valid_unchanged)
  with en assms(2) neq show ?thesis unfolding d' by (intro ledger_inv_transfer)
qed

lemma ledger_inv_Store_Transfer:
  assumes run: "Store_Transfer E cmd claim render d = (r, d')" and inv: "ledger_inv d"
    and valid: "TransferCommand_Validate cmd = None"
  shows "ledger_inv d'"
proof -
  from valid have neq: "cmd_DebitAccountID cmd \<noteq> cmd_CreditAccountID cmd"
    by (simp add: TransferCommand_Validate_None)
  from run neq show ?thesis
    by (cases rule: Store_Transfer_cases) (use inv valid in \<open>auto intro: ledger_inv_effect\<close>)
qed

lemma account_total_no_account:
  assumes "entries_wf d" and "accounts d a = None"
  shows "account_total d a = 0"
proof -
  have "filter (\<lambda>e. er_account_id e = a) (ledger_entries d) = []"
    using assms by (auto simp: entries_wf_def entry_wf_def filter_empty_conv)
  then show ?thesis by (simp add: account_total_def)
qed

lemma entry_wf_new_account:
  "entry_wf d e \<Longrightarrow> accounts d aid = None \<Longrightarrow> entry_wf (d\<lparr>accounts := (accounts d)(aid \<mapsto> r)\<rparr>) e"
  by (auto simp: entry_wf_def)

lemma ledger_inv_insert_account:
  assumes ins: "insert_account aid r d = Inr d'" and inv: "ledger_inv d" and zero: "ar_balance r = 0"
  shows "ledger_inv d'"
proof -
  from ins have new: "accounts d aid = None" and d': "d' = d\<lparr>accounts := (accounts d)(aid \<mapsto> r)\<rparr>"
    by (auto simp: insert_account_def split: if_splits)
  note parts = ledger_invD [OF inv]
  have tot: "account_total d' a = account_total d a" for a
    by (simp add: d' account_total_def)
  have "entries_wf d'"
    using parts(2) new by (auto simp: entries_wf_def d' intro: entry_wf_new_account)
  moreover have "balances_agree d'"
    using parts(2,4) new zero by (auto simp: balances_agree_def tot [unfolded d'] d' account_total_no_account)
  moreover have "balance_floor d'"
    using parts(5) zero by (auto simp: balance_floor_def d')
  moreover have "zero_sum d'" "transactions_wf d'" "keys_wf d'" "finite (dom (accounts d'))"
    using parts by (auto simp: zero_sum_def transactions_wf_def keys_wf_def refs_of_def d'
        legs_of_def imbalance_def transaction_exists_def)
  ultimately show ?thesis by (simp add: ledger_inv_def)
qed

lemma Store_CreateAccount_cases:
  assumes "Store_CreateAccount E a d = (r, d')"
  obtains (created) row where "account_row_of E a = Inr row" "insert_account (acc_ID a) row d = Inr d'"
      "r = Inr (a\<lparr>acc_CreatedAt := now E, acc_UpdatedAt := now E\<rparr>)"
    | (failed) e where "r = Inl e" "d' = d"
    | (lost) e row where "r = Inl e" "account_row_of E a = Inr row"
      "insert_account (acc_ID a) row d = Inr d'" "fails E CreateAccountQuery \<noteq> None" "commit_applied E"
  using assms
  by (auto simp: Store_CreateAccount_def autocommit_def split: sum.splits option.splits if_splits)

lemma account_row_of_balance: "account_row_of E a = Inr row \<Longrightarrow> ar_balance row = acc_Balance a"
  by (auto simp: account_row_of_def split: sum.splits option.splits)

lemma ledger_inv_Store_CreateAccount:
  assumes run: "Store_CreateAccount E a d = (r, d')" and inv: "ledger_inv d" and "acc_Balance a = 0"
  shows "ledger_inv d'"
  using run by (cases rule: Store_CreateAccount_cases)
    (use inv assms(3) in \<open>auto intro: ledger_inv_insert_account simp: account_row_of_balance\<close>)

end
