(* ===== verification/Service.thy ===== *)
theory Service
  imports Ledger_Inv
begin

text \<open>
  \<open>internal/ledger/service.go\<close>: the application layer over the \<open>Repository\<close> interface,
  the contract of that interface as a locale, and its interpretation on the PostgreSQL
  store.
\<close>

section \<open>Repository\<close>

text \<open>
  The interface as a record of functions over a state \<open>'s\<close>. An error comes with the
  state the call leaves; \<open>CreateAccount\<close> fills in the account it was given.
\<close>

record 's Repository =
  repo_CreateAccount :: "Account \<Rightarrow> 's \<Rightarrow> (go_error + Account) \<times> 's"
  repo_GetAccount :: "uuid \<Rightarrow> 's \<Rightarrow> go_error + Account"
  repo_Transfer :: "TransferCommand \<Rightarrow> Claim \<Rightarrow> RenderFunc \<Rightarrow> 's \<Rightarrow> (go_error + Result) \<times> 's"
  repo_GetTransaction :: "uuid \<Rightarrow> 's \<Rightarrow> go_error + Transaction"

text \<open>The PostgreSQL store as a repository, for one call whose environment is \<open>E\<close>.\<close>

definition Store_repository :: "env \<Rightarrow> db Repository" where
  "Store_repository E =
     \<lparr>repo_CreateAccount = Store_CreateAccount E, repo_GetAccount = Store_GetAccount E,
      repo_Transfer = Store_Transfer E, repo_GetTransaction = Store_GetTransaction E\<rparr>"

section \<open>Service\<close>

text \<open>\<open>new_id\<close> is the value of \<open>uuid.New()\<close>.\<close>

definition new_account :: "uuid \<Rightarrow> CreateAccountCommand \<Rightarrow> Account" where
  "new_account new_id cmd =
     \<lparr>acc_ID = new_id, acc_Name = cac_Name cmd, acc_Kind = cac_Kind cmd,
      acc_Currency = cac_Currency cmd, acc_Balance = 0,
      acc_AllowNegativeBalance = cac_AllowNegativeBalance cmd,
      acc_CreatedAt = 0, acc_UpdatedAt = 0\<rparr>"

definition Service_CreateAccount ::
    "'s Repository \<Rightarrow> uuid \<Rightarrow> CreateAccountCommand \<Rightarrow> 's \<Rightarrow> (go_error + Account) \<times> 's" where
  "Service_CreateAccount repo new_id cmd s =
     (case CreateAccountCommand_Validate cmd of
        Some err \<Rightarrow> (Inl err, s)
      | None \<Rightarrow>
          (case repo_CreateAccount repo (new_account new_id cmd) s of
             (Inl err, s') \<Rightarrow> (Inl (wrap ''create account: '' err), s')
           | (Inr account, s') \<Rightarrow> (Inr account, s')))"

definition Service_GetAccount :: "'s Repository \<Rightarrow> uuid \<Rightarrow> 's \<Rightarrow> go_error + Account" where
  "Service_GetAccount repo i s = repo_GetAccount repo i s"

definition not_balanced_error :: "Transaction \<Rightarrow> go_error" where
  "not_balanced_error t =
     NewError [Str ''internal: transaction '', Id (txn_ID t), Str '' is not balanced'']"

definition Service_Transfer ::
    "'s Repository \<Rightarrow> TransferCommand \<Rightarrow> Claim \<Rightarrow> RenderFunc \<Rightarrow> 's \<Rightarrow> (go_error + Result) \<times> 's" where
  "Service_Transfer repo cmd claim render s =
     (case TransferCommand_Validate cmd of
        Some err \<Rightarrow> (Inl err, s)
      | None \<Rightarrow>
          (case repo_Transfer repo cmd claim render s of
             (Inl err, s') \<Rightarrow> (Inl err, s')
           | (Inr result, s') \<Rightarrow>
               (case res_Transaction result of
                  Some t \<Rightarrow>
                    if \<not> Balanced t then (Inl (not_balanced_error t), s') else (Inr result, s')
                | None \<Rightarrow> (Inr result, s'))))"

definition Service_GetTransaction :: "'s Repository \<Rightarrow> uuid \<Rightarrow> 's \<Rightarrow> go_error + Transaction" where
  "Service_GetTransaction repo i s = repo_GetTransaction repo i s"

section \<open>The contract of a repository\<close>

text \<open>
  What the service relies on: the two writing operations keep the repository's invariant
  when the command has passed validation, a new account starts at zero, and a transfer
  that did the work returns a balanced transaction.
\<close>

locale ledger_repository =
  fixes repo :: "'s Repository" and inv :: "'s \<Rightarrow> bool"
  assumes create_inv: "repo_CreateAccount repo a s = (r, s') \<Longrightarrow> acc_Balance a = 0 \<Longrightarrow> inv s \<Longrightarrow> inv s'"
    and transfer_inv: "repo_Transfer repo cmd claim render s = (r', s') \<Longrightarrow>
      TransferCommand_Validate cmd = None \<Longrightarrow> inv s \<Longrightarrow> inv s'"
    and transfer_balanced: "repo_Transfer repo cmd claim render s = (Inr res, s') \<Longrightarrow>
      TransferCommand_Validate cmd = None \<Longrightarrow> res_Transaction res = Some t \<Longrightarrow> Balanced t"
begin

lemma service_create_inv:
  "Service_CreateAccount repo new_id cmd s = (r, s') \<Longrightarrow> inv s \<Longrightarrow> inv s'"
  by (auto simp: Service_CreateAccount_def new_account_def intro: create_inv
      split: option.splits prod.splits sum.splits)

lemma service_transfer_inv:
  "Service_Transfer repo cmd claim render s = (r, s') \<Longrightarrow> inv s \<Longrightarrow> inv s'"
  by (auto simp: Service_Transfer_def intro: transfer_inv
      split: option.splits prod.splits sum.splits if_splits)

text \<open>The assertion after the repository call never fires.\<close>

lemma service_transfer_eq:
  "Service_Transfer repo cmd claim render s =
     (case TransferCommand_Validate cmd of
        Some err \<Rightarrow> (Inl err, s) | None \<Rightarrow> repo_Transfer repo cmd claim render s)"
  using transfer_balanced
  by (fastforce simp: Service_Transfer_def split: option.splits prod.splits sum.splits)

end

section \<open>The store is such a repository\<close>

lemma Balanced_transfer_txn: "Balanced (transfer_txn E cmd)"
  by (simp add: Balanced_sum transfer_txn_def leg_entry_def SignedAmount_def)

lemma replayStoredResponse_Inr:
  "replayStoredResponse E t c = Inr res \<longleftrightarrow>
     fails E ReplayQuery = None
     \<and> (\<exists>row status. idempotency_keys (tx_work t) (claim_of c) = Some row
          \<and> ir_request_hash row = claim_Fingerprint c \<and> ir_response_status row = Some status
          \<and> res = \<lparr>res_Status = status,
                    res_Body = (case ir_response_body row of None \<Rightarrow> [] | Some b \<Rightarrow> b),
                    res_Replayed = True, res_Transaction = None\<rparr>)"
  by (auto simp: replayStoredResponse_def call_def claim_of_def split: option.splits if_splits)

lemma Store_Transfer_Balanced:
  assumes run: "Store_Transfer E cmd claim render d = (Inr res, d')"
    and valid: "TransferCommand_Validate cmd = None" and t: "res_Transaction res = Some t"
  shows "Balanced t"
proof -
  from valid have neq: "cmd_DebitAccountID cmd \<noteq> cmd_CreditAccountID cmd"
    by (simp add: TransferCommand_Validate_None)
  from run neq show ?thesis
  proof (cases rule: Store_Transfer_cases)
    case replay
    from replay(3) [symmetric] t show ?thesis by (auto simp: replayStoredResponse_Inr)
  qed (use t Balanced_transfer_txn in auto)
qed

interpretation store: ledger_repository "Store_repository E" ledger_inv for E
proof (unfold_locales, goal_cases)
  case (1 a s r s')
  then show ?case by (auto simp: Store_repository_def intro: ledger_inv_Store_CreateAccount)
next
  case (2 cmd claim render s r' s')
  then show ?case by (auto simp: Store_repository_def intro: ledger_inv_Store_Transfer)
next
  case (3 cmd claim render s res s' t)
  then show ?case by (auto simp: Store_repository_def intro: Store_Transfer_Balanced)
qed

end
