(* ===== verification/Ledger_Spec.thy ===== *)
theory Ledger_Spec
  imports Service
begin

text \<open>
  The ledger as a client sees it, without tables, transactions or drivers: an abstract
  state and an abstract transfer that decides by cases, and the proof that the store
  implements it when no database call fails.
\<close>

section \<open>The abstract ledger\<close>

text \<open>
  An account is its currency, whether it may go below zero, and its balance as an
  unbounded integer. A key remembers the fingerprint, the status and the body. The log
  has the signed movements in the order they were written.
\<close>

record ledger =
  lg_accounts :: "uuid \<rightharpoonup> string \<times> bool \<times> int"
  lg_refs :: "string set"
  lg_keys :: "string \<times> string \<rightharpoonup> string \<times> int \<times> string"
  lg_log :: "(uuid \<times> int) list"

datatype verdict = Done int string | Repeated int string | Rejected sentinel

definition move :: "uuid \<Rightarrow> int \<Rightarrow> (uuid \<rightharpoonup> string \<times> bool \<times> int) \<Rightarrow> (uuid \<rightharpoonup> string \<times> bool \<times> int)" where
  "move a delta accs = (case accs a of None \<Rightarrow> accs
     | Some (currency, neg, balance) \<Rightarrow> accs(a \<mapsto> (currency, neg, balance + delta)))"

definition add_ref :: "string option \<Rightarrow> string set \<Rightarrow> string set" where
  "add_ref ref refs = (case ref of None \<Rightarrow> refs | Some x \<Rightarrow> insert x refs)"

definition spec_transfer ::
    "TransferCommand \<Rightarrow> Claim \<Rightarrow> int \<Rightarrow> string \<Rightarrow> ledger \<Rightarrow> verdict \<times> ledger" where
  "spec_transfer cmd claim status body L =
     (case lg_keys L (claim_of claim) of
        Some (fp, st, b) \<Rightarrow>
          (if fp \<noteq> claim_Fingerprint claim then Rejected ErrIdempotencyKeyReuse else Repeated st b, L)
      | None \<Rightarrow>
          (case (lg_accounts L (cmd_DebitAccountID cmd), lg_accounts L (cmd_CreditAccountID cmd)) of
             (Some (cur1, _, _), Some (cur2, neg, balance)) \<Rightarrow>
               if cur1 \<noteq> cmd_Currency cmd \<or> cur2 \<noteq> cmd_Currency cmd
               then (Rejected ErrCurrencyMismatch, L)
               else if \<not> neg \<and> balance < sint (cmd_Amount cmd)
               then (Rejected ErrInsufficientFunds, L)
               else if (\<exists>x \<in> lg_refs L. cmd_ExternalRef cmd = Some x)
               then (Rejected ErrDuplicateExternalRef, L)
               else (Done status body,
                 L\<lparr>lg_accounts := move (cmd_CreditAccountID cmd) (- sint (cmd_Amount cmd))
                     (move (cmd_DebitAccountID cmd) (sint (cmd_Amount cmd)) (lg_accounts L)),
                   lg_refs := add_ref (cmd_ExternalRef cmd) (lg_refs L),
                   lg_keys := (lg_keys L)(claim_of claim \<mapsto>
                     (claim_Fingerprint claim, status, body)),
                   lg_log := lg_log L @ [(cmd_DebitAccountID cmd, sint (cmd_Amount cmd)),
                     (cmd_CreditAccountID cmd, - sint (cmd_Amount cmd))]\<rparr>)
           | _ \<Rightarrow> (Rejected ErrAccountNotFound, L)))"

section \<open>Abstraction\<close>

definition abs_account :: "account_row \<Rightarrow> string \<times> bool \<times> int" where
  "abs_account r = (ar_currency r, ar_allow_negative_balance r, sint (ar_balance r))"

definition abs_key :: "idempotency_row \<Rightarrow> string \<times> int \<times> string" where
  "abs_key r = (ir_request_hash r, the (ir_response_status r), the (ir_response_body r))"

definition abs_db :: "db \<Rightarrow> ledger" where
  "abs_db d =
     \<lparr>lg_accounts = (\<lambda>a. map_option abs_account (accounts d a)),
      lg_refs = set (refs_of d),
      lg_keys = (\<lambda>k. map_option abs_key (idempotency_keys d k)),
      lg_log = map (\<lambda>e. (er_account_id e, sint (er_signed_amount e))) (ledger_entries d)\<rparr>"

text \<open>The verdict a result stands for.\<close>

definition conforms :: "verdict \<Rightarrow> go_error + Result \<Rightarrow> bool" where
  "conforms v r \<longleftrightarrow>
     (case v of
        Done st b \<Rightarrow> \<exists>t. r = Inr \<lparr>res_Status = st, res_Body = b, res_Replayed = False,
                                   res_Transaction = Some t\<rparr>
      | Repeated st b \<Rightarrow> r = Inr \<lparr>res_Status = st, res_Body = b, res_Replayed = True,
                                   res_Transaction = None\<rparr>
      | Rejected s \<Rightarrow> \<exists>e. r = Inl e \<and> errors_Is e s)"

section \<open>The environment of an undisturbed call\<close>

text \<open>
  No driver call fails, the request's strings are text the server accepts, and the
  ids drawn are new.
\<close>

definition request_text_ok :: "env \<Rightarrow> TransferCommand \<Rightarrow> Claim \<Rightarrow> bool" where
  "request_text_ok E cmd claim \<longleftrightarrow>
     text_ok E (claim_Key claim) \<and> text_ok E (claim_Endpoint claim)
     \<and> text_ok E (cmd_Description cmd) \<and> text_ok E (cmd_Currency cmd)
     \<and> (\<forall>x. cmd_ExternalRef cmd = Some x \<longrightarrow> text_ok E x)"

definition fresh_ids :: "env \<Rightarrow> db \<Rightarrow> bool" where
  "fresh_ids E d \<longleftrightarrow>
     \<not> transaction_exists d (new_uuid E 0)
     \<and> new_uuid E 1 \<notin> er_id ` set (ledger_entries d)
     \<and> new_uuid E 2 \<notin> er_id ` set (ledger_entries d) \<and> new_uuid E 1 \<noteq> new_uuid E 2
     \<and> new_uuid E 3 \<notin> vr_id ` set (outbox_events d)"

text \<open>The two new balances stay in the range of \<open>bigint\<close>.\<close>

definition no_overflow :: "TransferCommand \<Rightarrow> db \<Rightarrow> bool" where
  "no_overflow cmd d \<longleftrightarrow>
     (\<forall>r. accounts d (cmd_DebitAccountID cmd) = Some r \<longrightarrow>
        sint (ar_balance r) + sint (cmd_Amount cmd) < 2 ^ 63)
     \<and> (\<forall>r. accounts d (cmd_CreditAccountID cmd) = Some r \<longrightarrow>
        - (2 ^ 63) \<le> sint (ar_balance r) - sint (cmd_Amount cmd))"

section \<open>The calls of an undisturbed transfer\<close>

lemma scan_rows_no_fault [simp]: "fails E s = None \<Longrightarrow> scan_rows E s msg rows = Inr rows"
  by (simp add: scan_rows_def)

lemma claimKey_free:
  assumes "no_faults E" "request_text_ok E cmd claim" "idempotency_keys d (claim_of claim) = None"
  shows "claimKey E (tx_begin d) claim = Inr (True, (tx_begin d)\<lparr>tx_work := claimed E claim d\<rparr>)"
  using assms by (simp add: claimKey_owned request_text_ok_def)

lemma claimKey_taken:
  assumes "no_faults E" "request_text_ok E cmd claim" "idempotency_keys d (claim_of claim) \<noteq> None"
  shows "claimKey E (tx_begin d) claim = Inr (False, tx_begin d)"
  using assms by (simp add: claimKey_not_owned request_text_ok_def)

definition locked_map :: "db \<Rightarrow> uuid list \<Rightarrow> uuid \<rightharpoonup> Account" where
  "locked_map d ids = map_of (map (\<lambda>a. (acc_ID a, a)) (select_for_update d ids))"

lemma lockAccounts_no_fault:
  assumes "no_faults E"
  shows "lockAccounts E t ids =
    (case first_missing (locked_map (tx_work t) ids) ids of
       Some i \<Rightarrow> Inl (Wrapf [] (Sentinel ErrAccountNotFound) [Str '': '', Id i])
     | None \<Rightarrow> Inr (locked_map (tx_work t) ids))"
  using assms by (simp add: lockAccounts_def locked_map_def Let_def split: option.split)

lemma locked_map_apply:
  "locked_map d ids i = (if i \<in> set ids then map_option (scanAccount i) (accounts d i) else None)"
  by (simp add: locked_map_def map_of_select_for_update)

lemma sql_insert_transaction_ok:
  assumes "request_text_ok E cmd claim" and "ValidCurrency (cmd_Currency cmd)"
  shows "sql_insert_transaction E txID cmd d = insert_transaction
    \<lparr>tr_id = txID, tr_external_ref = cmd_ExternalRef cmd, tr_description = cmd_Description cmd,
     tr_currency = cmd_Currency cmd, tr_created_at = now E\<rparr> d"
proof -
  have "(case cmd_ExternalRef cmd of None \<Rightarrow> Inr None
      | Some x \<Rightarrow> map_sum (\<lambda>e. e) Some (text_param E x)) = Inr (cmd_ExternalRef cmd)"
    using assms(1) by (auto simp: text_param_option request_text_ok_def)
  moreover have "char3_param E (cmd_Currency cmd) = Inr (cmd_Currency cmd)"
    using assms by (simp add: request_text_ok_def char3_param_ValidCurrency)
  moreover have "text_param E (cmd_Description cmd) = Inr (cmd_Description cmd)"
    using assms(1) by (simp add: request_text_ok_def)
  ultimately show ?thesis by (simp only: sql_insert_transaction_def sum.case)
qed

lemma insert_leg_ok:
  assumes "no_faults E" "char3_param E (cmd_Currency cmd) = Inr currency"
    and "direction_of_label direction = Some dir" "0 < sint (cmd_Amount cmd)"
    and "new_uuid E n \<notin> er_id ` set (ledger_entries (tx_work t))"
    and "transaction_exists (tx_work t) (new_uuid E 0)" "accounts (tx_work t) account \<noteq> None"
  shows "insert_leg E
      \<lparr>ent_ID = new_uuid E n, ent_TransactionID = new_uuid E 0, ent_AccountID = account,
       ent_Direction = direction, ent_Amount = cmd_Amount cmd,
       ent_Currency = cmd_Currency cmd, ent_CreatedAt = 0\<rparr> t =
    Inr (leg_entry E cmd n account direction,
      t\<lparr>tx_work := (tx_work t)\<lparr>ledger_entries := ledger_entries (tx_work t) @
             [leg_row E cmd currency n account dir]\<rparr>,
        tx_deferred := tx_deferred t @ [new_uuid E 0]\<rparr>)"
  using assms bigint_neg_pos [OF assms(4)]
  by (auto simp: insert_leg_def sql_insert_entry_def insert_entry_def signed_amount_def
      sint64_pos_iff leg_entry_def leg_row_def)

lemma writeTransaction_no_fault:
  assumes nf: "no_faults E" and rt: "request_text_ok E cmd claim" and cur: "ValidCurrency (cmd_Currency cmd)"
    and pos: "0 < sint (cmd_Amount cmd)"
    and new: "\<not> transaction_exists (tx_work t) (new_uuid E 0)"
      "new_uuid E 1 \<notin> er_id ` set (ledger_entries (tx_work t))"
      "new_uuid E 2 \<notin> er_id ` set (ledger_entries (tx_work t))" "new_uuid E 1 \<noteq> new_uuid E 2"
    and accs: "accounts (tx_work t) (cmd_DebitAccountID cmd) \<noteq> None"
      "accounts (tx_work t) (cmd_CreditAccountID cmd) \<noteq> None"
    and ref: "\<not> external_ref_used (tx_work t) (cmd_ExternalRef cmd)"
  shows "writeTransaction E t cmd =
    Inr (transfer_txn E cmd, t\<lparr>tx_work := legs_written E cmd (cmd_Currency cmd) (tx_work t),
           tx_deferred := tx_deferred t @ [new_uuid E 0, new_uuid E 0]\<rparr>)"
proof -
  have c3: "char3_param E (cmd_Currency cmd) = Inr (cmd_Currency cmd)"
    using rt cur by (simp add: request_text_ok_def char3_param_ValidCurrency)
  let ?d = "(tx_work t)\<lparr>transactions := transactions (tx_work t) @ [transfer_row E cmd (cmd_Currency cmd)]\<rparr>"
  have ins: "sql_insert_transaction E (new_uuid E 0) cmd (tx_work t) = Inr ?d"
    using new(1) ref
    by (simp add: sql_insert_transaction_ok [OF rt cur] insert_transaction_def transfer_row_def)
  have ex: "transaction_exists ?d (new_uuid E 0)"
    by (simp add: transaction_exists_def transfer_row_def)
  show ?thesis
    using nf ins c3 pos new(2-) accs ex
    by (simp add: writeTransaction_def Let_def insert_leg_ok [OF nf c3] numeral_2_eq_2
        transaction_exists_def legs_written_def transfer_txn_def)
qed

lemma writeTransaction_duplicate_ref:
  assumes "no_faults E" "request_text_ok E cmd claim" "ValidCurrency (cmd_Currency cmd)"
    and "\<not> transaction_exists (tx_work t) (new_uuid E 0)"
    and "external_ref_used (tx_work t) (cmd_ExternalRef cmd)"
  shows "writeTransaction E t cmd = Inl (Sentinel ErrDuplicateExternalRef)"
  using assms by (simp add: writeTransaction_def Let_def sql_insert_transaction_ok
      insert_transaction_def translateWriteError_def)

lemma update_balance_ok:
  assumes "accounts d aid = Some r" "sint b = sint (ar_balance r) + sint x"
    and "ar_allow_negative_balance r \<or> 0 \<le> sint b"
  shows "update_balance aid (Some x) t d =
    Inr (d\<lparr>accounts := (accounts d)(aid \<mapsto> r\<lparr>ar_balance := b, ar_updated_at := t\<rparr>)\<rparr>)"
proof -
  have "bigint_add (ar_balance r) x = Some b"
    using assms(2) sint64_range [of b] by (simp add: bigint_add_def bigint_Some)
  with assms show ?thesis by (simp add: update_balance_def word_sle_eq)
qed

lemma applyBalances_ok:
  assumes nf: "no_faults E" and neq: "cmd_DebitAccountID cmd \<noteq> cmd_CreditAccountID cmd"
    and pos: "0 < sint (cmd_Amount cmd)"
    and rd: "accounts (tx_work t) (cmd_DebitAccountID cmd) = Some rd"
    and rc: "accounts (tx_work t) (cmd_CreditAccountID cmd) = Some rc"
    and bd: "sint bd = sint (ar_balance rd) + sint (cmd_Amount cmd)"
      "ar_allow_negative_balance rd \<or> 0 \<le> sint bd"
    and bc: "sint bc = sint (ar_balance rc) - sint (cmd_Amount cmd)"
      "ar_allow_negative_balance rc \<or> 0 \<le> sint bc"
  shows "applyBalances E t cmd = Inr (t\<lparr>tx_work := balances_moved E cmd rd rc bd bc (tx_work t)\<rparr>)"
proof -
  let ?d1 = "(tx_work t)\<lparr>accounts := (accounts (tx_work t))
     (cmd_DebitAccountID cmd \<mapsto> rd\<lparr>ar_balance := bd, ar_updated_at := now E\<rparr>)\<rparr>"
  have "accounts ?d1 (cmd_CreditAccountID cmd) = Some rc" using rc neq by simp
  moreover have "sint bc = sint (ar_balance rc) + sint (- cmd_Amount cmd)"
    using bc(1) pos by (simp add: sint64_minus_pos)
  ultimately have "update_balance (cmd_CreditAccountID cmd) (Some (- cmd_Amount cmd)) (now E) ?d1 =
      Inr (balances_moved E cmd rd rc bd bc (tx_work t))"
    using bc(2) by (simp add: update_balance_ok balances_moved_def)
  then show ?thesis
    using nf neq pos update_balance_ok [OF rd bd] bigint_neg_pos [OF pos]
    by (simp add: applyBalances_def sql_apply_balances_def)
qed

lemma insertEvent_ok:
  assumes "no_faults E" "new_uuid E 3 \<notin> vr_id ` set (outbox_events (tx_work t))"
  obtains ev where "insertEvent E t (NewTransactionCreated (uuid_String (env_texts E)) (new_uuid E 3)
      (transfer_txn E cmd)) =
    Inr (ev, t\<lparr>tx_work := (tx_work t)\<lparr>outbox_events := outbox_events (tx_work t) @ [transfer_event E cmd]\<rparr>\<rparr>)"
  using assms
  by (auto simp: insertEvent_def insert_event_def NewTransactionCreated_def transfer_event_def
      transfer_txn_def)

lemma storeResponse_ok:
  assumes "no_faults E" "json_ok E body" "transaction_exists (tx_work t) txid"
    and "idempotency_keys (tx_work t) (claim_of c) = Some (claim_row E c)"
  shows "storeResponse E t c status body txid =
    Inr (t\<lparr>tx_work := (tx_work t)\<lparr>idempotency_keys :=
          (idempotency_keys (tx_work t))(claim_of c \<mapsto> response_row E c status body txid)\<rparr>\<rparr>)"
  using assms by (simp add: storeResponse_def claim_of_def response_row_def)

text \<open>Together: an enabled transfer in an undisturbed call succeeds.\<close>

lemma transfer_work_ok:
  assumes nf: "no_faults E" and rt: "request_text_ok E cmd claim"
    and cur: "ValidCurrency (cmd_Currency cmd)"
    and en: "transfer_enabled E cmd claim (cmd_Currency cmd) rd rc bd bc d"
    and neq: "cmd_DebitAccountID cmd \<noteq> cmd_CreditAccountID cmd"
    and render: "render (transfer_txn E cmd) = Inr (status, body)" and js: "json_ok E body"
  shows "transfer_work E cmd claim render ((tx_begin d)\<lparr>tx_work := claimed E claim d\<rparr>) =
    Inr (\<lparr>res_Status = status, res_Body = body, res_Replayed = False,
           res_Transaction = Some (transfer_txn E cmd)\<rparr>,
         \<lparr>tx_base = d,
          tx_work = after_transfer E cmd claim status body (cmd_Currency cmd) rd rc bd bc d,
          tx_deferred = [new_uuid E 0, new_uuid E 0]\<rparr>)"
proof -
  let ?tx = "\<lambda>w. \<lparr>tx_base = d, tx_work = w, tx_deferred = [new_uuid E 0, new_uuid E 0]\<rparr>"
  let ?t0 = "\<lparr>tx_base = d, tx_work = claimed E claim d, tx_deferred = []\<rparr>"
  let ?ids = "[cmd_DebitAccountID cmd, cmd_CreditAccountID cmd]"
  define w1 where "w1 = legs_written E cmd (cmd_Currency cmd) (claimed E claim d)"
  define w2 where "w2 = balances_moved E cmd rd rc bd bc w1"
  define w3 where "w3 = w2\<lparr>outbox_events := outbox_events w2 @ [transfer_event E cmd]\<rparr>"
  note w_defs = w1_def w2_def w3_def claimed_def legs_written_def balances_moved_def
  note enD = en [unfolded transfer_enabled_def]
  have t0: "(tx_begin d)\<lparr>tx_work := claimed E claim d\<rparr> = ?t0" by (simp add: tx_begin_def)
  have lock: "lockAccounts E ?t0 ?ids = Inr (locked_map (claimed E claim d) ?ids)"
    using enD by (simp add: lockAccounts_no_fault [OF nf] locked_map_apply claimed_def)
  have check: "check_accounts cmd (the (locked_map (claimed E claim d) ?ids (cmd_DebitAccountID cmd)))
      (the (locked_map (claimed E claim d) ?ids (cmd_CreditAccountID cmd))) = None"
    using enD by (simp add: check_accounts_None locked_map_apply claimed_def)
  have wr: "writeTransaction E ?t0 cmd = Inr (transfer_txn E cmd, ?tx w1)"
    using enD by (subst writeTransaction_no_fault [OF nf rt cur])
      (auto simp: claimed_def transaction_exists_def external_ref_used_def w1_def)
  have ap: "applyBalances E (?tx w1) cmd = Inr (?tx w2)"
    using enD neq by (subst applyBalances_ok [OF nf neq, where rd = rd and rc = rc and bd = bd and bc = bc])
      (auto simp: w_defs)
  have "new_uuid E 3 \<notin> vr_id ` set (outbox_events (tx_work (?tx w2)))"
    using enD by (simp add: w_defs)
  with nf obtain ev where ev: "insertEvent E (?tx w2)
      (NewTransactionCreated (uuid_String (env_texts E)) (new_uuid E 3) (transfer_txn E cmd)) =
      Inr (ev, ?tx w3)"
    by (rule insertEvent_ok [where cmd = cmd]) (simp add: w3_def)
  have st: "storeResponse E (?tx w3) claim status body (new_uuid E 0) =
    Inr (?tx (after_transfer E cmd claim status body (cmd_Currency cmd) rd rc bd bc d))"
    using js by (subst storeResponse_ok [OF nf])
      (simp_all add: w_defs transaction_exists_def transfer_row_def after_transfer_def)
  have tid: "txn_ID (transfer_txn E cmd) = new_uuid E 0" by (simp add: transfer_txn_def)
  show ?thesis
    unfolding t0 by (simp add: transfer_work_def lock check wr ap ev render tid st)
qed

lemma Store_Transfer_ok:
  assumes nf: "no_faults E" and rt: "request_text_ok E cmd claim"
    and cur: "ValidCurrency (cmd_Currency cmd)"
    and en: "transfer_enabled E cmd claim (cmd_Currency cmd) rd rc bd bc d"
    and neq: "cmd_DebitAccountID cmd \<noteq> cmd_CreditAccountID cmd"
    and render: "render (transfer_txn E cmd) = Inr (status, body)" and js: "json_ok E body"
    and wf: "entries_wf d"
  shows "Store_Transfer E cmd claim render d =
    (Inr \<lparr>res_Status = status, res_Body = body, res_Replayed = False,
          res_Transaction = Some (transfer_txn E cmd)\<rparr>,
     after_transfer E cmd claim status body (cmd_Currency cmd) rd rc bd bc d)"
proof -
  have "idempotency_keys d (claim_of claim) = None" and pos: "0 < sint (cmd_Amount cmd)"
    and new: "\<not> transaction_exists d (new_uuid E 0)"
    using en by (simp_all add: transfer_enabled_def)
  then have own: "claimKey E (tx_begin d) claim = Inr (True, (tx_begin d)\<lparr>tx_work := claimed E claim d\<rparr>)"
    using nf rt by (intro claimKey_free) auto
  show ?thesis
    using nf own transfer_work_ok [where render = render, OF nf rt cur en neq render js]
    by (simp add: Store_Transfer_def tx_commit_def trigger_accepts_transfer [OF wf pos new])
qed

section \<open>The refinement\<close>

lemma abs_db_sel [simp]:
  "lg_accounts (abs_db d) a = map_option abs_account (accounts d a)"
  "lg_refs (abs_db d) = set (refs_of d)"
  "lg_keys (abs_db d) k = map_option abs_key (idempotency_keys d k)"
  by (simp_all add: abs_db_def)

lemma external_ref_used_iff:
  "external_ref_used d ref \<longleftrightarrow> (\<exists>x \<in> set (refs_of d). ref = Some x)"
  by (cases ref) (auto simp: external_ref_used_def set_refs_of)

text \<open>A key that is taken: the stored response, or the refusal to reuse the key.\<close>

lemma Store_Transfer_taken:
  assumes nf: "no_faults E" and rt: "request_text_ok E cmd claim" and kw: "keys_wf d"
    and row: "idempotency_keys d (claim_of claim) = Some row"
  obtains r where "Store_Transfer E cmd claim render d = (r, d)"
    and "conforms (if ir_request_hash row \<noteq> claim_Fingerprint claim then Rejected ErrIdempotencyKeyReuse
       else Repeated (the (ir_response_status row)) (the (ir_response_body row))) r"
proof -
  have "Store_Transfer E cmd claim render d = (replayStoredResponse E (tx_begin d) claim, d)"
    using nf row claimKey_taken [OF nf rt] by (simp add: Store_Transfer_def)
  moreover from kw row obtain status body where
    "ir_response_status row = Some status" "ir_response_body row = Some body"
    unfolding keys_wf_def by blast
  then have "conforms (if ir_request_hash row \<noteq> claim_Fingerprint claim then Rejected ErrIdempotencyKeyReuse
       else Repeated (the (ir_response_status row)) (the (ir_response_body row)))
       (replayStoredResponse E (tx_begin d) claim)"
    using nf row by (simp add: replayStoredResponse_def claim_of_def conforms_def)
  ultimately show thesis using that by blast
qed

text \<open>A transfer that is refused before anything is written.\<close>

lemma Store_Transfer_refused:
  assumes nf: "no_faults E" and rt: "request_text_ok E cmd claim"
    and free: "idempotency_keys d (claim_of claim) = None"
    and work: "transfer_work E cmd claim render ((tx_begin d)\<lparr>tx_work := claimed E claim d\<rparr>) = Inl e"
  shows "Store_Transfer E cmd claim render d = (Inl e, d)"
  using nf work claimKey_free [OF nf rt free] by (simp add: Store_Transfer_def tx_rollback_def)

lemma transfer_work_no_account:
  assumes nf: "no_faults E"
    and none: "accounts d (cmd_DebitAccountID cmd) = None \<or> accounts d (cmd_CreditAccountID cmd) = None"
  obtains e where "transfer_work E cmd claim render ((tx_begin d)\<lparr>tx_work := claimed E claim d\<rparr>) = Inl e"
    and "errors_Is e ErrAccountNotFound"
proof -
  let ?ids = "[cmd_DebitAccountID cmd, cmd_CreditAccountID cmd]"
  let ?m = "locked_map (claimed E claim d) ?ids"
  have "\<exists>i \<in> set ?ids. ?m i = None"
    using none by (auto simp: locked_map_apply claimed_def)
  then have "first_missing ?m ?ids \<noteq> None" by (simp only: first_missing_None) auto
  then obtain i where "first_missing ?m ?ids = Some i" by blast
  then show thesis
    by (intro that [of "Wrapf [] (Sentinel ErrAccountNotFound) [Str '': '', Id i]"])
      (simp_all add: transfer_work_def lockAccounts_no_fault [OF nf] del: first_missing.simps)
qed

lemma transfer_work_locked:
  assumes nf: "no_faults E"
    and rd: "accounts d (cmd_DebitAccountID cmd) = Some rd"
    and rc: "accounts d (cmd_CreditAccountID cmd) = Some rc"
    and chk: "check_accounts cmd (scanAccount (cmd_DebitAccountID cmd) rd)
        (scanAccount (cmd_CreditAccountID cmd) rc) = Some e"
  shows "transfer_work E cmd claim render ((tx_begin d)\<lparr>tx_work := claimed E claim d\<rparr>) = Inl e"
  using assms by (simp add: transfer_work_def lockAccounts_no_fault locked_map_apply claimed_def)

lemma transfer_work_duplicate_ref:
  assumes nf: "no_faults E" and rt: "request_text_ok E cmd claim"
    and cur: "ValidCurrency (cmd_Currency cmd)"
    and rd: "accounts d (cmd_DebitAccountID cmd) = Some rd"
    and rc: "accounts d (cmd_CreditAccountID cmd) = Some rc"
    and chk: "check_accounts cmd (scanAccount (cmd_DebitAccountID cmd) rd)
        (scanAccount (cmd_CreditAccountID cmd) rc) = None"
    and new: "\<not> transaction_exists d (new_uuid E 0)"
    and ref: "external_ref_used d (cmd_ExternalRef cmd)"
  shows "transfer_work E cmd claim render ((tx_begin d)\<lparr>tx_work := claimed E claim d\<rparr>) =
    Inl (Sentinel ErrDuplicateExternalRef)"
proof -
  have "writeTransaction E ((tx_begin d)\<lparr>tx_work := claimed E claim d\<rparr>) cmd =
      Inl (Sentinel ErrDuplicateExternalRef)"
    using new ref by (intro writeTransaction_duplicate_ref [OF nf rt cur])
      (simp_all add: claimed_def transaction_exists_def external_ref_used_def)
  with assms show ?thesis
    by (simp add: transfer_work_def lockAccounts_no_fault locked_map_apply claimed_def)
qed

text \<open>What the abstraction sees of the tables after a transfer.\<close>

lemma abs_after_transfer:
  assumes en: "transfer_enabled E cmd claim currency rd rc bd bc d"
    and neq: "cmd_DebitAccountID cmd \<noteq> cmd_CreditAccountID cmd"
  shows "abs_db (after_transfer E cmd claim status body currency rd rc bd bc d) =
    (abs_db d)\<lparr>lg_accounts := move (cmd_CreditAccountID cmd) (- sint (cmd_Amount cmd))
         (move (cmd_DebitAccountID cmd) (sint (cmd_Amount cmd)) (lg_accounts (abs_db d))),
       lg_refs := add_ref (cmd_ExternalRef cmd) (lg_refs (abs_db d)),
       lg_keys := (lg_keys (abs_db d))(claim_of claim \<mapsto> (claim_Fingerprint claim, status, body)),
       lg_log := lg_log (abs_db d) @ [(cmd_DebitAccountID cmd, sint (cmd_Amount cmd)),
         (cmd_CreditAccountID cmd, - sint (cmd_Amount cmd))]\<rparr>"
proof -
  note enD = en [unfolded transfer_enabled_def]
  have "lg_accounts (abs_db (after_transfer E cmd claim status body currency rd rc bd bc d)) =
      move (cmd_CreditAccountID cmd) (- sint (cmd_Amount cmd))
         (move (cmd_DebitAccountID cmd) (sint (cmd_Amount cmd)) (lg_accounts (abs_db d)))"
    using enD neq by (auto simp: fun_eq_iff row_simps move_def abs_account_def)
  moreover have "lg_keys (abs_db (after_transfer E cmd claim status body currency rd rc bd bc d)) =
      (lg_keys (abs_db d))(claim_of claim \<mapsto> (claim_Fingerprint claim, status, body))"
    by (auto simp: fun_eq_iff row_simps abs_key_def response_row_def claim_row_def)
  moreover have "lg_log (abs_db (after_transfer E cmd claim status body currency rd rc bd bc d)) =
      lg_log (abs_db d) @ [(cmd_DebitAccountID cmd, sint (cmd_Amount cmd)),
         (cmd_CreditAccountID cmd, - sint (cmd_Amount cmd))]"
    using enD by (simp add: abs_db_def row_simps sint64_minus_pos)
  moreover have "lg_refs (abs_db (after_transfer E cmd claim status body currency rd rc bd bc d)) =
      add_ref (cmd_ExternalRef cmd) (lg_refs (abs_db d))"
    by (simp add: row_simps add_ref_def split: option.split)
  ultimately show ?thesis by simp
qed

text \<open>The balances the update computes exist when nothing overflows.\<close>

lemma transfer_enabled_ok:
  assumes inv: "ledger_inv d" and fresh: "fresh_ids E d" and over: "no_overflow cmd d"
    and rt: "request_text_ok E cmd claim" and valid: "TransferCommand_Validate cmd = None"
    and free: "idempotency_keys d (claim_of claim) = None"
    and rd: "accounts d (cmd_DebitAccountID cmd) = Some rd"
    and rc: "accounts d (cmd_CreditAccountID cmd) = Some rc"
    and chk: "check_accounts cmd (scanAccount (cmd_DebitAccountID cmd) rd)
        (scanAccount (cmd_CreditAccountID cmd) rc) = None"
    and ref: "\<not> external_ref_used d (cmd_ExternalRef cmd)"
  obtains bd bc where "transfer_enabled E cmd claim (cmd_Currency cmd) rd rc bd bc d"
proof -
  from valid have pos: "0 < sint (cmd_Amount cmd)" and cur: "ValidCurrency (cmd_Currency cmd)"
    by (simp_all add: TransferCommand_Validate_None)
  let ?bd = "word_of_int (sint (ar_balance rd) + sint (cmd_Amount cmd)) :: int64"
  let ?bc = "word_of_int (sint (ar_balance rc) - sint (cmd_Amount cmd)) :: int64"
  from over rd rc have "sint (ar_balance rd) + sint (cmd_Amount cmd) < 2 ^ 63"
    "- (2 ^ 63) \<le> sint (ar_balance rc) - sint (cmd_Amount cmd)"
    by (simp_all add: no_overflow_def)
  with pos sint64_range [of "ar_balance rd"] sint64_range [of "ar_balance rc"]
  have "int64_range (sint (ar_balance rd) + sint (cmd_Amount cmd))"
    "int64_range (sint (ar_balance rc) - sint (cmd_Amount cmd))" by auto
  then have bd: "sint ?bd = sint (ar_balance rd) + sint (cmd_Amount cmd)"
    and bc: "sint ?bc = sint (ar_balance rc) - sint (cmd_Amount cmd)"
    by (simp_all only: sint64_of_int)
  have "ar_allow_negative_balance rd \<or> 0 \<le> sint (ar_balance rd)"
    using ledger_invD(5) [OF inv] rd by (auto simp: balance_floor_def)
  with pos have "ar_allow_negative_balance rd \<or> 0 \<le> sint ?bd" unfolding bd by auto
  moreover have "ar_allow_negative_balance rc \<or> 0 \<le> sint ?bc"
    using chk unfolding bc by (auto simp: check_accounts_None)
  moreover have "char3_param E (cmd_Currency cmd) = Inr (cmd_Currency cmd)"
    using rt cur by (simp add: request_text_ok_def char3_param_ValidCurrency)
  ultimately have "transfer_enabled E cmd claim (cmd_Currency cmd) rd rc ?bd ?bc d"
    unfolding transfer_enabled_def
    using bd bc fresh free rd rc pos chk ref by (simp add: fresh_ids_def check_accounts_None)
  then show thesis by (rule that)
qed

definition undisturbed :: "env \<Rightarrow> TransferCommand \<Rightarrow> Claim \<Rightarrow> db \<Rightarrow> bool" where
  "undisturbed E cmd claim d \<longleftrightarrow>
     no_faults E \<and> request_text_ok E cmd claim \<and> fresh_ids E d \<and> no_overflow cmd d"

lemma transfer_refines:
  assumes inv: "ledger_inv d" and und: "undisturbed E cmd claim d"
    and valid: "TransferCommand_Validate cmd = None"
    and render: "render (transfer_txn E cmd) = Inr (status, body)" and js: "json_ok E body"
  shows "conforms (fst (spec_transfer cmd claim status body (abs_db d)))
           (fst (Store_Transfer E cmd claim render d))
       \<and> abs_db (snd (Store_Transfer E cmd claim render d)) =
           snd (spec_transfer cmd claim status body (abs_db d))"
proof -
  from und have nf: "no_faults E" and rt: "request_text_ok E cmd claim" and fresh: "fresh_ids E d"
    and over: "no_overflow cmd d" by (simp_all add: undisturbed_def)
  from valid have pos: "0 < sint (cmd_Amount cmd)" and cur: "ValidCurrency (cmd_Currency cmd)"
    and neq: "cmd_DebitAccountID cmd \<noteq> cmd_CreditAccountID cmd"
    by (simp_all add: TransferCommand_Validate_None)
  show ?thesis
  proof (cases "idempotency_keys d (claim_of claim)")
    case (Some row)
    show ?thesis
      by (rule Store_Transfer_taken [OF nf rt ledger_invD(6) [OF inv] Some, of render])
        (use Some in \<open>simp add: spec_transfer_def abs_key_def split: if_splits\<close>)
  next
    case free: None
    note refused = Store_Transfer_refused [OF nf rt free]
    show ?thesis
    proof (cases "accounts d (cmd_DebitAccountID cmd) = None \<or> accounts d (cmd_CreditAccountID cmd) = None")
      case True
      show ?thesis
        by (rule transfer_work_no_account [OF nf True, of claim render])
          (use True free refused in \<open>auto simp: spec_transfer_def conforms_def split: option.split\<close>)
    next
      case False
      then obtain rd rc where rd: "accounts d (cmd_DebitAccountID cmd) = Some rd"
        and rc: "accounts d (cmd_CreditAccountID cmd) = Some rc" by auto
      show ?thesis
      proof (cases "check_accounts cmd (scanAccount (cmd_DebitAccountID cmd) rd)
          (scanAccount (cmd_CreditAccountID cmd) rc)")
        case (Some e)
        with refused [OF transfer_work_locked [OF nf rd rc Some]] rd rc free show ?thesis
          by (auto simp: spec_transfer_def conforms_def abs_account_def check_accounts_def
              word_sless_alt split: if_splits)
      next
        case chk: None
        note ok = chk [unfolded check_accounts_None, simplified]
        show ?thesis
        proof (cases "external_ref_used d (cmd_ExternalRef cmd)")
          case True
          from fresh have "\<not> transaction_exists d (new_uuid E 0)" by (simp add: fresh_ids_def)
          from refused [OF transfer_work_duplicate_ref [OF nf rt cur rd rc chk this True]]
          show ?thesis
            using True rd rc free ok
            by (auto simp: spec_transfer_def conforms_def abs_account_def external_ref_used_iff)
        next
          case False
          from transfer_enabled_ok [OF inv fresh over rt valid free rd rc chk False]
          obtain bd bc where en: "transfer_enabled E cmd claim (cmd_Currency cmd) rd rc bd bc d" .
          from Store_Transfer_ok [where render = render, OF nf rt cur en neq render js ledger_invD(2) [OF inv]]
          show ?thesis
            using False rd rc free ok
            by (auto simp: spec_transfer_def conforms_def abs_account_def external_ref_used_iff
                abs_after_transfer [OF en neq])
        qed
      qed
    qed
  qed
qed

end
