(* ===== verification/Outbox_Facts.thy ===== *)
theory Outbox_Facts
  imports Ledger_Inv "HOL-Library.Sublist"
begin

text \<open>
  What the outbox operations do: the retry delay survives its trip through PostgreSQL's
  interval syntax, a settled attempt is one change of the event's row and one new
  delivery, and a dispatched batch is the fold of its settled attempts.
\<close>

section \<open>Intervals\<close>

lemma digit_not_space: "c \<in> set (show_nat n) \<Longrightarrow> c \<noteq> CHR '' ''"
proof (induction n rule: show_nat.induct)
  case (1 n)
  have "digit k \<noteq> CHR '' ''" if "k < 10" for k
  proof
    assume "digit k = CHR '' ''"
    then have "(of_char (digit k) :: nat) = of_char (CHR '' '')" by simp
    with that show False by (simp add: of_char_digit)
  qed
  from this [of n] this [of "n mod 10"] 1 show ?case
    by (cases "n < 10") (auto simp: show_nat.simps [of n])
qed

lemma show_int_not_space: "c \<in> set (show_int i) \<Longrightarrow> c \<noteq> CHR '' ''"
  by (auto simp: show_int_def digit_not_space split: if_splits dest: digit_not_space)

lemma interval_param_intervalOf: "interval_param (intervalOf d) = Inr (Milliseconds d * 1000)"
proof -
  let ?n = "show_int (Milliseconds d)"
  have all: "\<forall>c \<in> set ?n. c \<noteq> CHR '' ''" using show_int_not_space by blast
  then have "takeWhile (\<lambda>c. c \<noteq> CHR '' '') (?n @ '' milliseconds'') = ?n"
    "dropWhile (\<lambda>c. c \<noteq> CHR '' '') (?n @ '' milliseconds'') = '' milliseconds''"
    by simp_all
  then show ?thesis by (simp add: interval_param_def intervalOf_def read_show_int)
qed

text \<open>A backoff is a whole number of seconds, so nothing is lost in milliseconds.\<close>

definition backoff_us :: "int \<Rightarrow> int" where
  "backoff_us n = backoff_seconds n * 1000000"

lemma interval_param_Backoff: "interval_param (intervalOf (Backoff n)) = Inr (backoff_us n)"
proof -
  have "0 < backoff_seconds n" using backoff_seconds_bounds [of n] by simp
  then have "Milliseconds (Backoff n) = backoff_seconds n * 1000"
    by (simp add: Milliseconds_def Backoff_closed_form abs_mult sgn_mult)
  then show ?thesis by (simp add: interval_param_intervalOf backoff_us_def)
qed

section \<open>One settled attempt\<close>

text \<open>What an attempt whose publish returned \<open>perr\<close> makes of the event's row.\<close>

definition next_status :: "int \<Rightarrow> outbox_status" where
  "next_status attempts = (if attempts \<ge> MaxAttempts then Failed else Pending)"

definition settle_row :: "env \<Rightarrow> int \<Rightarrow> go_error option \<Rightarrow> event_row \<Rightarrow> event_row" where
  "settle_row E attempts perr r =
     (case perr of
        None \<Rightarrow> r\<lparr>vr_status := Published, vr_published_at := Some (now E),
                  vr_attempts := attempts, vr_last_error := None\<rparr>
      | Some err \<Rightarrow> r\<lparr>vr_status := next_status attempts, vr_attempts := attempts,
                  vr_last_error := Some (Error_text (env_texts E) err),
                  vr_available_at := now E + backoff_us attempts\<rparr>)"

definition delivery_of :: "env \<Rightarrow> uuid \<Rightarrow> go_error option \<Rightarrow> string \<Rightarrow> int \<Rightarrow> delivery_row" where
  "delivery_of E eid perr trigger n =
     \<lparr>dr_id = n, dr_event_id = eid, dr_attempted_at = now E, dr_succeeded = (perr = None),
      dr_trigger = trigger, dr_error = map_option (Error_text (env_texts E)) perr\<rparr>"

definition settled :: "env \<Rightarrow> Event \<Rightarrow> go_error option \<Rightarrow> string \<Rightarrow> db \<Rightarrow> db" where
  "settled E e perr trigger d =
     d\<lparr>outbox_events := map (\<lambda>r. if vr_id r = ev_ID e then settle_row E (ev_Attempts e + 1) perr r else r)
          (outbox_events d),
       outbox_deliveries := outbox_deliveries d @ [delivery_of E (ev_ID e) perr trigger (delivery_seq d)],
       delivery_seq := delivery_seq d + 1\<rparr>"

lemma settle_row_sel [simp]:
  "vr_id (settle_row E n perr r) = vr_id r"
  "vr_aggregate_type (settle_row E n perr r) = vr_aggregate_type r"
  "vr_aggregate_id (settle_row E n perr r) = vr_aggregate_id r"
  "vr_event_type (settle_row E n perr r) = vr_event_type r"
  "vr_schema_version (settle_row E n perr r) = vr_schema_version r"
  "vr_payload (settle_row E n perr r) = vr_payload r"
  "vr_created_at (settle_row E n perr r) = vr_created_at r"
  "vr_attempts (settle_row E n perr r) = n"
  by (simp_all add: settle_row_def split: option.split)

lemma settled_sel [simp]:
  "accounts (settled E e perr trigger d) = accounts d"
  "transactions (settled E e perr trigger d) = transactions d"
  "ledger_entries (settled E e perr trigger d) = ledger_entries d"
  "idempotency_keys (settled E e perr trigger d) = idempotency_keys d"
  "delivery_seq (settled E e perr trigger d) = delivery_seq d + 1"
  "outbox_deliveries (settled E e perr trigger d) =
     outbox_deliveries d @ [delivery_of E (ev_ID e) perr trigger (delivery_seq d)]"
  "outbox_events (settled E e perr trigger d) =
     map (\<lambda>r. if vr_id r = ev_ID e then settle_row E (ev_Attempts e + 1) perr r else r) (outbox_events d)"
  by (simp_all add: settled_def)

lemma map_vr_id_settled [simp]:
  "map vr_id (outbox_events (settled E e perr trigger d)) = map vr_id (outbox_events d)"
  by (induction "outbox_events d") (auto simp: o_def)

lemma set_vr_id_settled:
  "vr_id ` set (outbox_events (settled E e perr trigger d)) = vr_id ` set (outbox_events d)"
  by (metis map_vr_id_settled set_map)

lemma recordDelivery_Inr:
  assumes "recordDelivery E t eid succeeded trigger err = Inr t'"
  shows "eid \<in> vr_id ` set (outbox_events (tx_work t))"
    and "t' = t\<lparr>tx_work := (tx_work t)\<lparr>delivery_seq := delivery_seq (tx_work t) + 1,
           outbox_deliveries := outbox_deliveries (tx_work t) @
             [\<lparr>dr_id = delivery_seq (tx_work t), dr_event_id = eid, dr_attempted_at = now E,
               dr_succeeded = succeeded, dr_trigger = trigger, dr_error = err\<rparr>]\<rparr>\<rparr>"
  using assms
  by (auto simp: recordDelivery_def insert_delivery_def Let_def call_def
      split: option.splits sum.splits if_splits)

lemma vr_id_update:
  assumes "\<And>r. vr_id (f r) = vr_id r"
  shows "map vr_id (outbox_events (update_event eid f d)) = map vr_id (outbox_events d)"
  using assms by (simp add: update_event_def)

lemma settle_status:
  "status_of_label (if attempts \<ge> MaxAttempts then StatusFailed else StatusPending) =
     Some (next_status attempts)"
  by (simp add: next_status_def)

lemma settleAttempt_Inr:
  assumes "settleAttempt E t e perr trigger = Inr t'"
  shows "t' = t\<lparr>tx_work := settled E e perr trigger (tx_work t)\<rparr>"
    and "ev_ID e \<in> vr_id ` set (outbox_events (tx_work t))"
proof -
  let ?f = "settle_row E (ev_Attempts e + 1) perr"
  let ?d = "update_event (ev_ID e) ?f (tx_work t)"
  have "\<exists>succeeded err. recordDelivery E (t\<lparr>tx_work := ?d\<rparr>) (ev_ID e) succeeded trigger err = Inr t'
      \<and> succeeded = (perr = None) \<and> err = map_option (Error_text (env_texts E)) perr"
  proof (cases perr)
    case None
    then have "?f = (\<lambda>r. r\<lparr>vr_status := Published, vr_published_at := Some (now E),
        vr_attempts := ev_Attempts e + 1, vr_last_error := None\<rparr>)"
      by (intro ext) (simp add: settle_row_def)
    with None assms show ?thesis
      by (auto simp: settleAttempt_def Let_def call_def split: option.splits)
  next
    case (Some p)
    then have f: "?f = (\<lambda>r. r\<lparr>vr_status := next_status (ev_Attempts e + 1),
        vr_attempts := ev_Attempts e + 1, vr_last_error := Some (Error_text (env_texts E) p),
        vr_available_at := now E + backoff_us (ev_Attempts e + 1)\<rparr>)"
      by (intro ext) (simp add: settle_row_def)
    from Some assms show ?thesis unfolding f
      by (auto simp: settleAttempt_def mark_failed_attempt_def Let_def call_def settle_status
          interval_param_Backoff text_param_def split: option.splits sum.splits if_splits)
  qed
  then obtain succeeded err where
    rd: "recordDelivery E (t\<lparr>tx_work := ?d\<rparr>) (ev_ID e) succeeded trigger err = Inr t'"
    and sc: "succeeded = (perr = None)" "err = map_option (Error_text (env_texts E)) perr" by blast
  have "map vr_id (outbox_events ?d) = map vr_id (outbox_events (tx_work t))"
    by (rule vr_id_update) simp
  then have ids: "vr_id ` set (outbox_events ?d) = vr_id ` set (outbox_events (tx_work t))"
    by (metis set_map)
  from recordDelivery_Inr [OF rd] sc ids
  show "t' = t\<lparr>tx_work := settled E e perr trigger (tx_work t)\<rparr>"
    and "ev_ID e \<in> vr_id ` set (outbox_events (tx_work t))"
    by (simp_all add: settled_def delivery_of_def update_event_def)
qed

section \<open>A dispatched batch\<close>

fun settle_all :: "env \<Rightarrow> 'p publisher \<Rightarrow> Event list \<Rightarrow> 'p \<Rightarrow> db \<Rightarrow> 'p \<times> db" where
  "settle_all E publish [] p d = (p, d)"
| "settle_all E publish (e # es) p d =
     (case publish (Event_Envelope e) p of
        (perr, p') \<Rightarrow> settle_all E publish es p' (settled E e perr TriggerRelay d))"

fun publish_all :: "'p publisher \<Rightarrow> Event list \<Rightarrow> 'p \<Rightarrow> 'p" where
  "publish_all publish [] p = p"
| "publish_all publish (e # es) p = publish_all publish es (snd (publish (Event_Envelope e) p))"

lemma settle_all_publisher: "fst (settle_all E publish es p d) = publish_all publish es p"
  by (induction es arbitrary: p d) (auto split: prod.split)

lemma settle_all_append:
  "settle_all E publish (es @ fs) p d =
     (case settle_all E publish es p d of (p', d') \<Rightarrow> settle_all E publish fs p' d')"
  by (induction es arbitrary: p d) (auto split: prod.split)

lemma settle_all_seq: "delivery_seq d \<le> delivery_seq (snd (settle_all E publish es p d))"
proof (induction es arbitrary: p d)
  case (Cons e es)
  obtain perr p1 where "publish (Event_Envelope e) p = (perr, p1)"
    by (cases "publish (Event_Envelope e) p")
  with Cons.IH [of "settled E e perr TriggerRelay d" p1] show ?case by simp
qed simp

text \<open>
  The loop either settles every event, or stops at one whose settlement failed: then the
  publisher has seen the events up to it and the transaction is to be rolled back.
\<close>

lemma dispatch_loop_cases:
  assumes "dispatch_loop E publish es p t = (err, p', t')"
  shows "(err = None \<and> t' = t\<lparr>tx_work := snd (settle_all E publish es p (tx_work t))\<rparr>
            \<and> p' = publish_all publish es p)
       \<or> (err \<noteq> None \<and> tx_base t' = tx_base t \<and> delivery_seq (tx_work t) \<le> delivery_seq (tx_work t')
            \<and> (\<exists>n < length es. p' = publish_all publish (take (Suc n) es) p))"
  using assms
proof (induction es arbitrary: p t)
  case Nil
  then show ?case by simp
next
  case (Cons e es)
  obtain perr p1 where pub: "publish (Event_Envelope e) p = (perr, p1)" by (cases "publish (Event_Envelope e) p")
  show ?case
  proof (cases "settleAttempt E t e perr TriggerRelay")
    case (Inl f)
    with Cons.prems pub show ?thesis by (auto intro!: exI [of _ 0])
  next
    case (Inr t1)
    from settleAttempt_Inr(1) [OF Inr]
    have t1: "t1 = t\<lparr>tx_work := settled E e perr TriggerRelay (tx_work t)\<rparr>" .
    from Cons.prems pub Inr have "dispatch_loop E publish es p1 t1 = (err, p', t')" by simp
    from Cons.IH [OF this] show ?thesis
    proof (elim disjE conjE exE)
      fix n assume "n < length es" "p' = publish_all publish (take (Suc n) es) p1"
        "err \<noteq> None" "tx_base t' = tx_base t1" "delivery_seq (tx_work t1) \<le> delivery_seq (tx_work t')"
      then show ?thesis using pub t1 by (intro disjI2) (auto intro!: exI [of _ "Suc n"])
    qed (use pub t1 in auto)
  qed
qed

text \<open>The batch a dispatch claims.\<close>

definition batch :: "env \<Rightarrow> int \<Rightarrow> db \<Rightarrow> event_row list" where
  "batch E limit d = take (nat limit)
     (filter (\<lambda>r. \<not> row_locked E (vr_id r))
       (sort_key vr_created_at (filter (due E) (heap_order E (outbox_events d)))))"

definition burnt :: "db \<Rightarrow> db \<Rightarrow> bool" where
  "burnt d d' \<longleftrightarrow> (\<exists>n \<ge> delivery_seq d. d' = d\<lparr>delivery_seq := n\<rparr>)"

lemma burnt_refl [simp]: "burnt d d"
  unfolding burnt_def by (intro exI [of _ "delivery_seq d"]) simp

lemma DispatchBatch_cases:
  assumes run: "DispatchBatch E limit publish p d = (r, p', d')"
  obtains (dispatched) "r = Inr (int (length (batch E limit d)))"
      "(p', d') = settle_all E publish (map scanEvent (batch E limit d)) p d" "0 \<le> limit"
    | (failed) e es where "r = Inl e" "burnt d d'" "prefix es (map scanEvent (batch E limit d))"
      "p' = publish_all publish es p"
    | (lost) e where "r = Inl e" "fails E CommitDispatch \<noteq> None" "commit_applied E"
      "(p', d') = settle_all E publish (map scanEvent (batch E limit d)) p d"
proof -
  let ?t = "tx_begin d" and ?es = "map scanEvent (batch E limit d)"
  show thesis
  proof (cases "fails E BeginDispatch \<noteq> None \<or> fails E ClaimBatchQuery \<noteq> None \<or> limit < 0
      \<or> (batch E limit d \<noteq> [] \<and> fails E BatchScan \<noteq> None) \<or> fails E BatchRows \<noteq> None")
    case True
    with run have "\<exists>e. r = Inl e \<and> p' = p \<and> d' = d"
      by (cases "fails E BeginDispatch"; cases "fails E ClaimBatchQuery"; cases "limit < 0";
          cases "batch E limit d"; cases "fails E BatchScan"; cases "fails E BatchRows")
        (auto simp: DispatchBatch_def Let_def call_def claim_batch_def scan_rows_def simp flip: batch_def)
    then obtain e where e: "r = Inl e" "p' = p" "d' = d" by blast
    show thesis by (rule failed [of e "[]"]) (use e in simp_all)
  next
    case False
    then have lim: "0 \<le> limit" by simp
    from False run have run':
      "(if batch E limit d = [] then (Inr 0, p, tx_rollback ?t)
        else (case dispatch_loop E publish ?es p ?t of
           (Some err, p', t') \<Rightarrow> (Inl err, p', tx_rollback t')
         | (None, p', t') \<Rightarrow>
             (case tx_commit E CommitDispatch t' of
                (Some err, d') \<Rightarrow> (Inl (wrap ''commit dispatch: '' err), p', d')
              | (None, d') \<Rightarrow> (Inr (int (length (batch E limit d))), p', d')))) = (r, p', d')"
      by (auto simp: DispatchBatch_def Let_def call_def claim_batch_def scan_rows_def
          simp flip: batch_def)
    show thesis
    proof (cases "batch E limit d = []")
      case True
      with run' lim show thesis by (intro dispatched) auto
    next
      case False
      obtain err p1 t1 where loop: "dispatch_loop E publish ?es p ?t = (err, p1, t1)"
        by (cases "dispatch_loop E publish ?es p ?t")
      from dispatch_loop_cases [OF loop] show thesis
      proof (elim disjE conjE exE)
        fix n assume *: "err \<noteq> None" "tx_base t1 = tx_base ?t"
          "delivery_seq (tx_work ?t) \<le> delivery_seq (tx_work t1)"
          "p1 = publish_all publish (take (Suc n) ?es) p"
        with run' False loop obtain e where "r = Inl e" "p' = p1" "d' = tx_rollback t1" by auto
        with * show thesis
          by (intro failed [of e "take (Suc n) ?es"])
            (auto simp: burnt_def tx_rollback_def take_is_prefix)
      next
        assume *: "err = None" "t1 = ?t\<lparr>tx_work := snd (settle_all E publish ?es p (tx_work ?t))\<rparr>"
          "p1 = publish_all publish ?es p"
        let ?w = "snd (settle_all E publish ?es p d)"
        have all: "settle_all E publish ?es p d = (p1, ?w)"
          using *(3) settle_all_publisher [of E publish ?es p d] by (simp add: prod_eq_iff)
        have seq: "delivery_seq d \<le> delivery_seq ?w" by (rule settle_all_seq)
        have rb: "burnt d (tx_rollback t1)" using *(2) seq by (auto simp: burnt_def tx_rollback_def)
        show thesis
        proof (rule tx_commit_cases [of E CommitDispatch t1])
          assume "tx_commit E CommitDispatch t1 = (None, tx_work t1)"
          with run' False loop * all lim show thesis by (intro dispatched) auto
        next
          fix e assume "tx_commit E CommitDispatch t1 = (Some e, tx_rollback t1)"
          with run' False loop *(1,3) rb show thesis
            by (intro failed [of "wrap ''commit dispatch: '' e" ?es]) auto
        next
          fix e assume "tx_commit E CommitDispatch t1 = (Some e, tx_work t1)"
            "fails E CommitDispatch = Some e" "commit_applied E"
          with run' False loop * all show thesis
            by (intro lost [of "wrap ''commit dispatch: '' e"]) auto
        qed
      qed
    qed
  qed
qed

lemma DispatchBatch_Inr:
  assumes "DispatchBatch E limit publish p d = (Inr n, p', d')"
  shows "n = int (length (batch E limit d))"
    and "d' = snd (settle_all E publish (map scanEvent (batch E limit d)) p d)"
    and "p' = publish_all publish (map scanEvent (batch E limit d)) p"
  using assms settle_all_publisher [of E publish "map scanEvent (batch E limit d)" p d]
  by (cases rule: DispatchBatch_cases; auto simp: prod_eq_iff)+

section \<open>A replay\<close>

lemma find_vr_id:
  "find (\<lambda>r. vr_id r = eid) rows = Some r \<Longrightarrow> r \<in> set rows \<and> vr_id r = eid"
  by (rule find_SomeD)

lemma finish_replay_cases:
  assumes run: "finish_replay E eid e perr (tx_begin d) = (r, d')"
  obtains (replayed) ev dlv where "r = Inr (ev, dlv)"
      "d' = settled E e perr TriggerManualReplay d"
      "select_event d' eid = Inr ev" "select_last_delivery d' eid = Inr dlv"
    | (failed) f where "r = Inl f" "burnt d d'"
    | (lost) f where "r = Inl f" "fails E CommitReplay \<noteq> None" "commit_applied E"
      "d' = settled E e perr TriggerManualReplay d"
proof (cases "settleAttempt E (tx_begin d) e perr TriggerManualReplay")
  case (Inl f)
  with run show thesis by (intro failed [of f]) (auto simp: finish_replay_def)
next
  case (Inr t1)
  let ?w = "settled E e perr TriggerManualReplay d"
  from settleAttempt_Inr(1) [OF Inr] have t1: "t1 = (tx_begin d)\<lparr>tx_work := ?w\<rparr>" by simp
  have rb: "burnt d (tx_rollback t1)"
    unfolding burnt_def by (intro exI [of _ "delivery_seq d + 1"]) (simp add: t1 tx_rollback_def)
  show thesis
  proof (cases "call E ReplayReload (select_event ?w eid)")
    case (Inl f)
    with Inr run t1 rb show thesis
      by (intro failed [of "wrap ''reload replayed event: '' f"]) (auto simp: finish_replay_def)
  next
    case ev: (Inr ev)
    show thesis
    proof (cases "call E ReplayDeliveryQuery (select_last_delivery ?w eid)")
      case (Inl f)
      with Inr ev run t1 rb show thesis
        by (intro failed [of "wrap ''read replay delivery: '' f"]) (auto simp: finish_replay_def)
    next
      case dlv: (Inr dlv)
      from Inr ev dlv run t1 have run':
        "(case tx_commit E CommitReplay t1 of
            (Some err, d') \<Rightarrow> (Inl (wrap ''commit replay: '' err), d')
          | (None, d') \<Rightarrow> (Inr (ev, dlv), d')) = (r, d')"
        by (simp add: finish_replay_def)
      show thesis
      proof (rule tx_commit_cases [of E CommitReplay t1])
        assume "tx_commit E CommitReplay t1 = (None, tx_work t1)"
        with run' t1 ev dlv show thesis
          by (intro replayed [of ev dlv]) (auto simp: call_Inr_iff)
      next
        fix f assume "tx_commit E CommitReplay t1 = (Some f, tx_rollback t1)"
        with run' rb show thesis by (intro failed) auto
      next
        fix f assume "tx_commit E CommitReplay t1 = (Some f, tx_work t1)"
          "fails E CommitReplay = Some f" "commit_applied E"
        with run' t1 show thesis by (intro lost) auto
      qed
    qed
  qed
qed

lemma ReplayEvent_cases:
  assumes run: "ReplayEvent E eid publish p d = (r, p', d')"
  obtains (refused) f where "r = Inl f" "p' = p" "d' = d"
    | (published) e perr where "select_event d eid = Inr e"
      "publish (Event_Envelope e) p = (perr, p')"
      "finish_replay E eid e perr (tx_begin d) = (r, d')"
proof (cases "fails E BeginReplay")
  case (Some f)
  with run show thesis by (intro refused) (auto simp: ReplayEvent_def)
next
  case begun: None
  show thesis
  proof (cases "call E ReplaySelect (select_event d eid)")
    case (Inl f)
    with begun run have "\<exists>f. r = Inl f \<and> p' = p \<and> d' = d"
      by (auto simp: ReplayEvent_def split: if_splits)
    then show thesis by (elim exE conjE) (rule refused)
  next
    case (Inr e)
    obtain perr p1 where pub: "publish (Event_Envelope e) p = (perr, p1)"
      by (cases "publish (Event_Envelope e) p")
    obtain r1 d1 where fin: "finish_replay E eid e perr (tx_begin d) = (r1, d1)"
      by (cases "finish_replay E eid e perr (tx_begin d)")
    from begun Inr run pub fin show thesis
      by (intro published [of e perr]) (auto simp: ReplayEvent_def call_Inr_iff)
  qed
qed

section \<open>Undisturbed operations\<close>

text \<open>No database call fails, and the publisher's messages are text the server accepts.\<close>

definition publisher_text_ok :: "env \<Rightarrow> 'p publisher \<Rightarrow> bool" where
  "publisher_text_ok E publish \<longleftrightarrow>
     (\<forall>e p err. fst (publish e p) = Some err \<longrightarrow> text_ok E (Error_text (env_texts E) err))"

lemma settleAttempt_ok:
  assumes nf: "no_faults E" and id: "ev_ID e \<in> vr_id ` set (outbox_events (tx_work t))"
    and tok: "\<And>err. perr = Some err \<Longrightarrow> text_ok E (Error_text (env_texts E) err)"
  shows "settleAttempt E t e perr trigger = Inr (t\<lparr>tx_work := settled E e perr trigger (tx_work t)\<rparr>)"
proof -
  have upd: "ev_ID e \<in> vr_id ` set (outbox_events (update_event (ev_ID e) f (tx_work t)))"
    if "\<And>r. vr_id (f r) = vr_id r" for f
    using vr_id_update [of f "ev_ID e" "tx_work t", OF that] id by (metis set_map)
  have "\<exists>t'. settleAttempt E t e perr trigger = Inr t'"
  proof (cases perr)
    case None
    with nf upd show ?thesis
      by (simp add: settleAttempt_def recordDelivery_def insert_delivery_def Let_def)
  next
    case (Some p)
    with nf upd tok show ?thesis
      by (simp add: settleAttempt_def recordDelivery_def insert_delivery_def mark_failed_attempt_def
          settle_status interval_param_Backoff text_param_def Let_def)
  qed
  then show ?thesis using settleAttempt_Inr(1) by blast
qed

lemma dispatch_loop_ok:
  assumes nf: "no_faults E" and tok: "publisher_text_ok E publish"
    and "ev_ID ` set es \<subseteq> vr_id ` set (outbox_events (tx_work t))"
  shows "dispatch_loop E publish es p t =
    (None, publish_all publish es p, t\<lparr>tx_work := snd (settle_all E publish es p (tx_work t))\<rparr>)"
  using assms(3)
proof (induction es arbitrary: p t)
  case (Cons e es)
  obtain perr p1 where pub: "publish (Event_Envelope e) p = (perr, p1)"
    by (cases "publish (Event_Envelope e) p")
  with tok have tok': "\<And>err. perr = Some err \<Longrightarrow> text_ok E (Error_text (env_texts E) err)"
    unfolding publisher_text_ok_def by (metis fst_conv)
  let ?t1 = "t\<lparr>tx_work := settled E e perr TriggerRelay (tx_work t)\<rparr>"
  have "settleAttempt E t e perr TriggerRelay = Inr ?t1"
    using Cons.prems by (intro settleAttempt_ok [OF nf _ tok']) auto
  moreover have "ev_ID ` set es \<subseteq> vr_id ` set (outbox_events (tx_work ?t1))"
    using Cons.prems set_vr_id_settled [of E e perr TriggerRelay "tx_work t"] by simp
  ultimately show ?case using Cons.IH pub by simp
qed simp

lemma DispatchBatch_ok:
  assumes nf: "no_faults E" and tok: "publisher_text_ok E publish" and lim: "0 \<le> limit"
    and sub: "set (batch E limit d) \<subseteq> set (outbox_events d)"
  shows "DispatchBatch E limit publish p d =
    (Inr (int (length (batch E limit d))), settle_all E publish (map scanEvent (batch E limit d)) p d)"
proof -
  let ?es = "map scanEvent (batch E limit d)"
  have loop: "dispatch_loop E publish ?es p (tx_begin d) =
      (None, publish_all publish ?es p, (tx_begin d)\<lparr>tx_work := snd (settle_all E publish ?es p d)\<rparr>)"
    using sub by (subst dispatch_loop_ok [OF nf tok]) (auto simp: scanEvent_def)
  have all: "settle_all E publish ?es p d = (publish_all publish ?es p, snd (settle_all E publish ?es p d))"
    using settle_all_publisher [of E publish ?es p d] by (simp add: prod_eq_iff)
  show ?thesis
    using nf lim loop all
    by (auto simp: DispatchBatch_def Let_def claim_batch_def scan_rows_def tx_commit_def
        simp flip: batch_def)
qed

end
