(* ===== verification/Outbox_Inv.thy ===== *)
theory Outbox_Inv
  imports Outbox_Facts
begin

text \<open>
  The invariant of the outbox: one event per transaction, in the same order, and for each
  event a history of deliveries from which its status, attempt count, last error and
  publication time can be read off. Settling an attempt, a transfer and a new account
  preserve it.
\<close>

section \<open>Definitions\<close>

definition history :: "db \<Rightarrow> uuid \<Rightarrow> delivery_row list" where
  "history d eid = filter (\<lambda>x. dr_event_id x = eid) (outbox_deliveries d)"

text \<open>The row of an event agrees with a history \<open>h\<close>, oldest delivery first.\<close>

definition row_agrees :: "event_row \<Rightarrow> delivery_row list \<Rightarrow> bool" where
  "row_agrees r h \<longleftrightarrow>
     vr_attempts r = int (length h)
     \<and> vr_last_error r = (if h = [] then None else dr_error (last h))
     \<and> (vr_status r = Published \<longleftrightarrow> h \<noteq> [] \<and> dr_succeeded (last h))
     \<and> (vr_status r = Failed \<longleftrightarrow>
          h \<noteq> [] \<and> \<not> dr_succeeded (last h) \<and> MaxAttempts \<le> int (length h))
     \<and> (vr_published_at r \<noteq> None \<longleftrightarrow> (\<exists>x \<in> set h. dr_succeeded x))"

definition deliveries_wf :: "db \<Rightarrow> bool" where
  "deliveries_wf d \<longleftrightarrow>
     sorted_wrt (<) (map dr_id (outbox_deliveries d))
     \<and> (\<forall>x \<in> set (outbox_deliveries d). dr_id x < delivery_seq d
          \<and> dr_event_id x \<in> vr_id ` set (outbox_events d)
          \<and> (dr_error x = None \<longleftrightarrow> dr_succeeded x))"

definition one_event_each :: "db \<Rightarrow> bool" where
  "one_event_each d \<longleftrightarrow>
     distinct (map vr_id (outbox_events d))
     \<and> map vr_aggregate_id (outbox_events d) = map tr_id (transactions d)"

definition events_wf :: "db \<Rightarrow> bool" where
  "events_wf d \<longleftrightarrow> (\<forall>r \<in> set (outbox_events d). row_agrees r (history d (vr_id r)))"

definition outbox_inv :: "db \<Rightarrow> bool" where
  "outbox_inv d \<longleftrightarrow> one_event_each d \<and> events_wf d \<and> deliveries_wf d"

lemma outbox_inv_empty: "outbox_inv empty_db"
  by (simp add: outbox_inv_def one_event_each_def events_wf_def deliveries_wf_def empty_db_def)

section \<open>Preservation\<close>

lemma history_settled:
  "history (settled E e perr trigger d) eid =
     history d eid @ (if eid = ev_ID e then [delivery_of E (ev_ID e) perr trigger (delivery_seq d)] else [])"
  by (simp add: history_def delivery_of_def)

lemma delivery_of_sel [simp]:
  "dr_id (delivery_of E eid perr trigger n) = n"
  "dr_event_id (delivery_of E eid perr trigger n) = eid"
  "dr_succeeded (delivery_of E eid perr trigger n) \<longleftrightarrow> perr = None"
  "dr_error (delivery_of E eid perr trigger n) = map_option (Error_text (env_texts E)) perr"
  by (simp_all add: delivery_of_def)

lemma row_agrees_settle:
  assumes "row_agrees r h"
  shows "row_agrees (settle_row E (vr_attempts r + 1) perr r) (h @ [delivery_of E eid perr trigger n])"
  using assms
  by (cases perr) (auto simp: row_agrees_def settle_row_def next_status_def)

lemma scanEvent_sel [simp]:
  "ev_ID (scanEvent r) = vr_id r" "ev_Attempts (scanEvent r) = vr_attempts r"
  by (simp_all add: scanEvent_def)

lemma outbox_inv_settled:
  assumes inv: "outbox_inv d" and r: "r \<in> set (outbox_events d)"
  shows "outbox_inv (settled E (scanEvent r) perr trigger d)"
proof -
  let ?d' = "settled E (scanEvent r) perr trigger d"
  from inv have dist: "distinct (map vr_id (outbox_events d))" and ev: "events_wf d"
    and dl: "deliveries_wf d" by (simp_all add: outbox_inv_def one_event_each_def)
  have same: "r' = r" if "r' \<in> set (outbox_events d)" "vr_id r' = vr_id r" for r'
    using dist r that by (auto simp: distinct_map dest: inj_onD)
  have "one_event_each ?d'"
    using inv by (simp add: outbox_inv_def one_event_each_def comp_def if_distrib cong: if_cong)
  moreover have "events_wf ?d'"
    using ev same by (auto simp: events_wf_def history_settled intro!: row_agrees_settle)
  moreover have "deliveries_wf ?d'"
  proof -
    have "vr_id ` set (outbox_events ?d') = vr_id ` set (outbox_events d)"
      by (metis map_vr_id_settled set_map)
    with dl r show ?thesis
      by (auto simp: deliveries_wf_def sorted_wrt_append simp del: settled_sel(7))
  qed
  ultimately show ?thesis by (simp add: outbox_inv_def)
qed

lemma row_unchanged_settled:
  "r' \<in> set (outbox_events d) \<Longrightarrow> vr_id r' \<noteq> ev_ID e \<Longrightarrow>
     r' \<in> set (outbox_events (settled E e perr trigger d))"
  by (force simp: image_iff)

lemma outbox_inv_settle_all:
  assumes "outbox_inv d" and "set rows \<subseteq> set (outbox_events d)" and "distinct (map vr_id rows)"
  shows "outbox_inv (snd (settle_all E publish (map scanEvent rows) p d))"
  using assms
proof (induction rows arbitrary: p d)
  case (Cons r rows)
  obtain perr p1 where pub: "publish (Event_Envelope (scanEvent r)) p = (perr, p1)"
    by (cases "publish (Event_Envelope (scanEvent r)) p")
  let ?d1 = "settled E (scanEvent r) perr TriggerRelay d"
  have "outbox_inv ?d1" using Cons.prems by (intro outbox_inv_settled) auto
  moreover have "set rows \<subseteq> set (outbox_events ?d1)"
  proof
    fix x assume x: "x \<in> set rows"
    then have "vr_id x \<noteq> vr_id r" using Cons.prems(3) by (force simp: image_iff)
    with x Cons.prems(2) show "x \<in> set (outbox_events ?d1)"
      by (intro row_unchanged_settled) auto
  qed
  ultimately show ?case using Cons.IH Cons.prems(3) pub by simp
qed simp

lemma outbox_inv_burnt:
  assumes "outbox_inv d" and "burnt d d'"
  shows "outbox_inv d'"
  using assms
  by (fastforce simp: burnt_def outbox_inv_def one_event_each_def events_wf_def deliveries_wf_def
      history_def)

lemma outbox_inv_transfer:
  assumes en: "transfer_enabled E cmd claim currency rd rc bd bc d" and inv: "outbox_inv d"
  shows "outbox_inv (after_transfer E cmd claim status body currency rd rc bd bc d)"
proof -
  let ?d' = "after_transfer E cmd claim status body currency rd rc bd bc d"
  from en have new: "new_uuid E 3 \<notin> vr_id ` set (outbox_events d)"
    by (simp add: transfer_enabled_def)
  have te: "vr_id (transfer_event E cmd) = new_uuid E 3"
    "vr_aggregate_id (transfer_event E cmd) = new_uuid E 0" by (simp_all add: transfer_event_def)
  have hist: "history ?d' eid = history d eid" for eid by (simp add: history_def row_simps)
  have nohist: "history d (new_uuid E 3) = []"
    using inv new by (force simp: outbox_inv_def deliveries_wf_def history_def filter_empty_conv)
  have "row_agrees (transfer_event E cmd) []"
    by (simp add: row_agrees_def transfer_event_def)
  with inv have "events_wf ?d'"
    by (auto simp: outbox_inv_def events_wf_def row_simps hist te nohist)
  moreover have "one_event_each ?d'"
    using inv new by (auto simp: outbox_inv_def one_event_each_def row_simps te)
  moreover have "deliveries_wf ?d'"
    using inv by (auto simp: outbox_inv_def deliveries_wf_def row_simps)
  ultimately show ?thesis by (simp add: outbox_inv_def)
qed

lemma outbox_inv_insert_account:
  "insert_account aid r d = Inr d' \<Longrightarrow> outbox_inv d \<Longrightarrow> outbox_inv d'"
  by (auto simp: insert_account_def outbox_inv_def one_event_each_def events_wf_def
      deliveries_wf_def history_def split: if_splits)

section \<open>The ledger is not touched by the outbox\<close>

definition same_ledger :: "db \<Rightarrow> db \<Rightarrow> bool" where
  "same_ledger d d' \<longleftrightarrow> accounts d' = accounts d \<and> transactions d' = transactions d
     \<and> ledger_entries d' = ledger_entries d \<and> idempotency_keys d' = idempotency_keys d"

lemma same_ledger_settled [simp]: "same_ledger d (settled E e perr trigger d)"
  by (simp add: same_ledger_def)

lemma same_ledger_trans: "same_ledger a b \<Longrightarrow> same_ledger b c \<Longrightarrow> same_ledger a c"
  by (simp add: same_ledger_def)

lemma same_ledger_settle_all: "same_ledger d (snd (settle_all E publish es p d))"
proof (induction es arbitrary: p d)
  case (Cons e es)
  obtain perr p1 where pub: "publish (Event_Envelope e) p = (perr, p1)"
    by (cases "publish (Event_Envelope e) p")
  have "same_ledger d (settled E e perr TriggerRelay d)" by simp
  from same_ledger_trans [OF this Cons.IH] pub show ?case by simp
qed (simp add: same_ledger_def)

lemma same_ledger_burnt: "burnt d d' \<Longrightarrow> same_ledger d d'"
  by (auto simp: burnt_def same_ledger_def)

lemma ledger_inv_same:
  assumes "same_ledger d d'" and "ledger_inv d"
  shows "ledger_inv d'"
proof -
  from assms(1) have eqs: "accounts d' = accounts d" "transactions d' = transactions d"
    "ledger_entries d' = ledger_entries d" "idempotency_keys d' = idempotency_keys d"
    by (simp_all add: same_ledger_def)
  have ew: "entry_wf d' = entry_wf d" by (simp add: fun_eq_iff entry_wf_def eqs)
  have rf: "refs_of d' = refs_of d" by (simp add: refs_of_def eqs)
  have lg: "legs_of d' = legs_of d" by (simp add: fun_eq_iff legs_of_def eqs)
  then have im: "imbalance d' = imbalance d" by (simp add: fun_eq_iff imbalance_def)
  have tot: "account_total d' = account_total d" by (simp add: fun_eq_iff account_total_def eqs)
  have ex: "transaction_exists d' = transaction_exists d"
    by (simp add: fun_eq_iff transaction_exists_def eqs)
  show ?thesis
    using assms(2) unfolding ledger_inv_def inv_defs eqs ew rf lg im tot ex .
qed

section \<open>The claimed batch\<close>

lemma mset_heap: "scans_all E \<Longrightarrow> mset (heap_order E rows) = mset rows"
  by (simp add: scans_all_def)

lemma set_heap: "scans_all E \<Longrightarrow> set (heap_order E rows) = set rows"
  by (metis mset_heap set_mset_mset)

lemma set_batch:
  assumes "scans_all E"
  shows "set (batch E limit d) \<subseteq> {r \<in> set (outbox_events d). due E r \<and> \<not> row_locked E (vr_id r)}"
  using set_heap [OF assms] by (auto simp: batch_def dest: in_set_takeD)

lemma distinct_batch:
  assumes "scans_all E" and "distinct (map vr_id (outbox_events d))"
  shows "distinct (map vr_id (batch E limit d))"
proof -
  have "mset (map vr_id (heap_order E (outbox_events d))) = mset (map vr_id (outbox_events d))"
    by (simp add: mset_heap [OF assms(1)])
  then have "distinct (map vr_id (heap_order E (outbox_events d)))"
    using assms(2) mset_eq_imp_distinct_iff by blast
  then have "distinct (map vr_id (filter (due E) (heap_order E (outbox_events d))))"
    by (rule distinct_map_filter)
  moreover have "mset (map vr_id (sort_key vr_created_at xs)) = mset (map vr_id xs)" for xs :: "event_row list"
    by simp
  ultimately have "distinct (map vr_id (sort_key vr_created_at (filter (due E) (heap_order E (outbox_events d)))))"
    using mset_eq_imp_distinct_iff by blast
  then show ?thesis
    by (simp add: batch_def distinct_map_filter flip: take_map)
qed

lemma length_batch: "length (batch E limit d) \<le> nat limit"
  by (simp add: batch_def)

lemma sorted_batch: "sorted (map vr_created_at (batch E limit d))"
  by (simp add: batch_def sorted_filter flip: take_map)

section \<open>An undisturbed replay\<close>

lemma select_event_unique:
  assumes "distinct (map vr_id (outbox_events d))" and "r \<in> set (outbox_events d)"
  shows "select_event d (vr_id r) = Inr (scanEvent r)"
proof -
  have "find (\<lambda>x. vr_id x = vr_id r) (outbox_events d) = Some r"
    using assms by (intro find_unique) (auto simp: distinct_map dest: inj_onD)
  then show ?thesis by (simp add: select_event_def)
qed

lemma sorted_wrt_less_sorted: "sorted_wrt (<) (xs :: int list) \<Longrightarrow> sorted xs"
  by (rule sorted_wrt_mono_rel [of _ "(<)"]) auto

lemma select_last_delivery_settled:
  assumes "deliveries_wf d"
  shows "select_last_delivery (settled E e perr trigger d) (ev_ID e) =
    Inr (scanDelivery (delivery_of E (ev_ID e) perr trigger (delivery_seq d)))"
proof -
  let ?n = "delivery_of E (ev_ID e) perr trigger (delivery_seq d)"
  let ?h = "filter (\<lambda>r. dr_event_id r = ev_ID e) (outbox_deliveries d @ [?n])"
  have "sorted_wrt (<) (map dr_id (outbox_deliveries d @ [?n]))"
    using assms by (auto simp: deliveries_wf_def sorted_wrt_append)
  then have "sorted (map dr_id (outbox_deliveries d @ [?n]))" by (rule sorted_wrt_less_sorted)
  then have "sorted (map dr_id ?h)" by (rule sorted_filter)
  then have "sort_key dr_id ?h = ?h" by (rule sort_key_id_if_sorted)
  then show ?thesis by (simp add: select_last_delivery_def)
qed

lemma ReplayEvent_ok:
  assumes nf: "no_faults E" and inv: "outbox_inv d" and r: "r \<in> set (outbox_events d)"
    and pub: "publish (Event_Envelope (scanEvent r)) p = (perr, p')"
    and tok: "\<And>err. perr = Some err \<Longrightarrow> text_ok E (Error_text (env_texts E) err)"
  shows "ReplayEvent E (vr_id r) publish p d =
    (Inr (scanEvent (settle_row E (vr_attempts r + 1) perr r),
          scanDelivery (delivery_of E (vr_id r) perr TriggerManualReplay (delivery_seq d))),
     p', settled E (scanEvent r) perr TriggerManualReplay d)"
proof -
  let ?w = "settled E (scanEvent r) perr TriggerManualReplay d"
  from inv have dist: "distinct (map vr_id (outbox_events d))" and dw: "deliveries_wf d"
    by (simp_all add: outbox_inv_def one_event_each_def)
  have sel: "select_event d (vr_id r) = Inr (scanEvent r)" by (rule select_event_unique [OF dist r])
  have st: "settleAttempt E (tx_begin d) (scanEvent r) perr TriggerManualReplay =
      Inr ((tx_begin d)\<lparr>tx_work := ?w\<rparr>)"
    using r by (subst settleAttempt_ok [OF nf _ tok]) auto
  have dist': "distinct (map vr_id (outbox_events ?w))" using dist by (simp only: map_vr_id_settled)
  have mem: "settle_row E (vr_attempts r + 1) perr r \<in> set (outbox_events ?w)"
    unfolding settled_sel scanEvent_sel set_map using r
    by (intro image_eqI [where x = r]) (simp_all only: if_True simp_thms)
  have re: "select_event ?w (vr_id r) = Inr (scanEvent (settle_row E (vr_attempts r + 1) perr r))"
    using select_event_unique [OF dist' mem] by simp
  have dl: "select_last_delivery ?w (vr_id r) =
      Inr (scanDelivery (delivery_of E (vr_id r) perr TriggerManualReplay (delivery_seq d)))"
    using select_last_delivery_settled [OF dw, of E "scanEvent r" perr TriggerManualReplay] by simp
  show ?thesis
    using nf sel pub st re dl
    by (simp add: ReplayEvent_def finish_replay_def tx_commit_def)
qed

end
