(* ===== verification/Outbox_Delivery.thy ===== *)
theory Outbox_Delivery
  imports Outbox_Inv
begin

text \<open>
  The outbox against a publisher: the contract of a publisher as a locale with two
  extensions, its interpretation on the publishers of the program, and what a dispatch
  and a replay then guarantee: nothing marked published was not delivered, and due
  events do get delivered.
\<close>

section \<open>What a consumer has received\<close>

text \<open>\<open>accepted p\<close> is the set of envelopes a publisher in state \<open>p\<close> has taken.\<close>

definition delivered :: "('p \<Rightarrow> Envelope set) \<Rightarrow> db \<Rightarrow> 'p \<Rightarrow> bool" where
  "delivered accepted d p \<longleftrightarrow>
     (\<forall>r \<in> set (outbox_events d). vr_published_at r \<noteq> None \<longrightarrow>
        Event_Envelope (scanEvent r) \<in> accepted p)"

text \<open>An envelope does not mention the delivery state, so settling keeps it.\<close>

lemma envelope_settle_row [simp]:
  "Event_Envelope (scanEvent (settle_row E n perr r)) = Event_Envelope (scanEvent r)"
  by (simp add: Event_Envelope_def scanEvent_def)

lemma published_at_settle_row:
  "vr_published_at (settle_row E n perr r) = (if perr = None then Some (now E) else vr_published_at r)"
  by (auto simp: settle_row_def split: option.split)

lemma envelopes_settled:
  "map (Event_Envelope \<circ> scanEvent) (outbox_events (settled E e perr trigger d)) =
     map (Event_Envelope \<circ> scanEvent) (outbox_events d)"
  by (simp add: comp_def if_distrib cong: if_cong)

lemma envelopes_settle_all:
  "map (Event_Envelope \<circ> scanEvent) (outbox_events (snd (settle_all E publish es p d))) =
     map (Event_Envelope \<circ> scanEvent) (outbox_events d)"
proof (induction es arbitrary: p d)
  case (Cons e es)
  then show ?case
    by (cases "publish (Event_Envelope e) p") (simp add: envelopes_settled [unfolded comp_def] comp_def del: settled_sel(7))
qed simp

lemma select_event_Inr:
  "select_event d eid = Inr e \<Longrightarrow> \<exists>r \<in> set (outbox_events d). vr_id r = eid \<and> e = scanEvent r"
  by (auto simp: select_event_def dest: find_vr_id split: option.splits)

section \<open>The contract of a publisher\<close>

locale publisher_contract =
  fixes publish :: "'p publisher" and accepted :: "'p \<Rightarrow> Envelope set"
  assumes accepts: "publish e p = (None, p') \<Longrightarrow> e \<in> accepted p'"
    and keeps: "publish e p = (err, p') \<Longrightarrow> accepted p \<subseteq> accepted p'"
begin

lemma delivered_mono: "delivered accepted d p \<Longrightarrow> accepted p \<subseteq> accepted p' \<Longrightarrow> delivered accepted d p'"
  by (auto simp: delivered_def)

lemma delivered_settled:
  assumes dl: "delivered accepted d p" and r: "r \<in> set (outbox_events d)"
    and dist: "distinct (map vr_id (outbox_events d))"
    and pub: "publish (Event_Envelope (scanEvent r)) p = (perr, p')"
  shows "delivered accepted (settled E (scanEvent r) perr trigger d) p'"
proof -
  have same: "r' = r" if "r' \<in> set (outbox_events d)" "vr_id r' = vr_id r" for r'
    using dist r that by (auto simp: distinct_map dest: inj_onD)
  have "accepted p \<subseteq> accepted p'" using keeps [OF pub] .
  moreover have "perr = None \<Longrightarrow> Event_Envelope (scanEvent r) \<in> accepted p'"
    using accepts pub by simp
  ultimately show ?thesis
    using dl same by (fastforce simp: delivered_def published_at_settle_row split: if_splits)
qed

lemma delivered_settle_all:
  assumes "delivered accepted d p" and "set rows \<subseteq> set (outbox_events d)"
    and "distinct (map vr_id rows)" and "distinct (map vr_id (outbox_events d))"
    and "settle_all E publish (map scanEvent rows) p d = (p', d')"
  shows "delivered accepted d' p'"
  using assms
proof (induction rows arbitrary: p d)
  case (Cons r rows)
  obtain perr p1 where pub: "publish (Event_Envelope (scanEvent r)) p = (perr, p1)"
    by (cases "publish (Event_Envelope (scanEvent r)) p")
  let ?d1 = "settled E (scanEvent r) perr TriggerRelay d"
  have "delivered accepted ?d1 p1"
    using Cons.prems pub by (intro delivered_settled [where p = p]) auto
  moreover have "set rows \<subseteq> set (outbox_events ?d1)"
  proof
    fix x assume x: "x \<in> set rows"
    then have "vr_id x \<noteq> vr_id r" using Cons.prems(3) by (force simp: image_iff)
    with x Cons.prems(2) show "x \<in> set (outbox_events ?d1)"
      by (intro row_unchanged_settled) auto
  qed
  moreover have "distinct (map vr_id (outbox_events ?d1))"
    using Cons.prems(4) by (simp only: map_vr_id_settled)
  moreover have "settle_all E publish (map scanEvent rows) p1 ?d1 = (p', d')"
    using Cons.prems(5) pub by simp
  ultimately show ?case using Cons.IH Cons.prems(3) by simp
qed simp

lemma accepted_publish_all: "accepted p \<subseteq> accepted (publish_all publish es p)"
proof (induction es arbitrary: p)
  case (Cons e es)
  obtain perr p1 where "publish (Event_Envelope e) p = (perr, p1)"
    by (cases "publish (Event_Envelope e) p")
  with keeps [OF this] Cons.IH [of p1] show ?case by auto
qed simp

lemma delivered_burnt: "delivered accepted d p \<Longrightarrow> burnt d d' \<Longrightarrow> delivered accepted d' p"
  by (auto simp: delivered_def burnt_def)

text \<open>A dispatch, whatever it returns, keeps the invariant.\<close>

lemma dispatch_inv:
  assumes run: "DispatchBatch E limit publish p d = (res, p', d')" and sc: "scans_all E"
    and inv: "outbox_inv d" and dl: "delivered accepted d p"
  shows "outbox_inv d'" and "delivered accepted d' p'" and "same_ledger d d'"
proof -
  from inv have dist: "distinct (map vr_id (outbox_events d))"
    by (simp add: outbox_inv_def one_event_each_def)
  have sub: "set (batch E limit d) \<subseteq> set (outbox_events d)" using set_batch [OF sc] by auto
  note db = distinct_batch [OF sc dist]
  have all: "outbox_inv d' \<and> delivered accepted d' p' \<and> same_ledger d d'"
    if eq: "(p', d') = settle_all E publish (map scanEvent (batch E limit d)) p d"
  proof -
    from eq have "d' = snd (settle_all E publish (map scanEvent (batch E limit d)) p d)"
      by (simp add: prod_eq_iff)
    then have "outbox_inv d'" "same_ledger d d'"
      using outbox_inv_settle_all [OF inv sub db] same_ledger_settle_all by auto
    moreover have "delivered accepted d' p'"
      by (rule delivered_settle_all [OF dl sub db dist eq [symmetric]])
    ultimately show ?thesis by simp
  qed
  from run have "outbox_inv d' \<and> delivered accepted d' p' \<and> same_ledger d d'"
  proof (cases rule: DispatchBatch_cases)
    case (failed e es)
    with inv dl accepted_publish_all [of p es] show ?thesis
      by (auto intro: outbox_inv_burnt same_ledger_burnt delivered_burnt delivered_mono)
  qed (use all in simp_all)
  then show "outbox_inv d'" "delivered accepted d' p'" "same_ledger d d'" by simp_all
qed

text \<open>So does a replay.\<close>

lemma replay_inv:
  assumes run: "ReplayEvent E eid publish p d = (res, p', d')"
    and inv: "outbox_inv d" and dl: "delivered accepted d p"
  shows "outbox_inv d'" and "delivered accepted d' p'" and "same_ledger d d'"
proof -
  from inv have dist: "distinct (map vr_id (outbox_events d))"
    by (simp add: outbox_inv_def one_event_each_def)
  from run have "outbox_inv d' \<and> delivered accepted d' p' \<and> same_ledger d d'"
  proof (cases rule: ReplayEvent_cases)
    case (refused f)
    with inv dl show ?thesis by (simp add: same_ledger_def)
  next
    case (published e perr)
    from select_event_Inr [OF published(1)] obtain r where r: "r \<in> set (outbox_events d)"
      and e: "e = scanEvent r" by blast
    let ?w = "settled E e perr TriggerManualReplay d"
    have ok: "outbox_inv ?w" "delivered accepted ?w p'" "same_ledger d ?w"
      using outbox_inv_settled [OF inv r] delivered_settled [OF dl r dist published(2) [unfolded e]]
      by (simp_all add: e)
    have rb: "outbox_inv d' \<and> delivered accepted d' p' \<and> same_ledger d d'" if "burnt d d'"
      using inv dl keeps [OF published(2)] that
      by (auto intro: outbox_inv_burnt same_ledger_burnt delivered_burnt delivered_mono)
    from published(3) show ?thesis
      by (cases rule: finish_replay_cases) (use ok rb in auto)
  qed
  then show "outbox_inv d'" "delivered accepted d' p'" "same_ledger d d'" by simp_all
qed

end

text \<open>A publisher that never returns an error.\<close>

locale reliable_publisher = publisher_contract +
  assumes never_fails: "fst (publish e p) = None"
begin

lemma publish_all_accepts:
  "e \<in> set es \<Longrightarrow> Event_Envelope e \<in> accepted (publish_all publish es p)"
proof (induction es arbitrary: p)
  case (Cons x es)
  obtain p1 where pub: "publish (Event_Envelope x) p = (None, p1)"
    using never_fails [of "Event_Envelope x" p] by (cases "publish (Event_Envelope x) p") simp
  show ?case
  proof (cases "e = x")
    case True
    with accepts [OF pub] accepted_publish_all [of p1 es] pub show ?thesis by auto
  next
    case False
    with Cons pub show ?thesis by simp
  qed
qed simp

text \<open>It marks every event of a batch published.\<close>

lemma settle_all_events:
  assumes "set rows \<subseteq> set (outbox_events d)" and "distinct (map vr_id rows)"
    and "distinct (map vr_id (outbox_events d))"
  shows "outbox_events (snd (settle_all E publish (map scanEvent rows) p d)) =
    map (\<lambda>r. if vr_id r \<in> vr_id ` set rows then settle_row E (vr_attempts r + 1) None r else r)
      (outbox_events d)"
  using assms
proof (induction rows arbitrary: p d)
  case (Cons r rows)
  obtain p1 where pub: "publish (Event_Envelope (scanEvent r)) p = (None, p1)"
    using never_fails [of "Event_Envelope (scanEvent r)" p]
    by (cases "publish (Event_Envelope (scanEvent r)) p") simp
  let ?d1 = "settled E (scanEvent r) None TriggerRelay d"
  have notin: "vr_id r \<notin> vr_id ` set rows" using Cons.prems(2) by simp
  have "set rows \<subseteq> set (outbox_events ?d1)"
  proof
    fix x assume x: "x \<in> set rows"
    with notin have "vr_id x \<noteq> vr_id r" by (metis imageI)
    with x Cons.prems(1) show "x \<in> set (outbox_events ?d1)"
      by (intro row_unchanged_settled) auto
  qed
  moreover have "distinct (map vr_id (outbox_events ?d1))"
    using Cons.prems(3) by (simp only: map_vr_id_settled)
  ultimately have IH: "outbox_events (snd (settle_all E publish (map scanEvent rows) p1 ?d1)) =
    map (\<lambda>x. if vr_id x \<in> vr_id ` set rows then settle_row E (vr_attempts x + 1) None x else x)
      (outbox_events ?d1)"
    using Cons.IH Cons.prems(2) by simp
  have same: "x = r" if "x \<in> set (outbox_events d)" "vr_id x = vr_id r" for x
    using Cons.prems(1,3) that by (auto simp: distinct_map dest: inj_onD)
  have "outbox_events (snd (settle_all E publish (map scanEvent (r # rows)) p d)) =
    map (\<lambda>x. if vr_id x \<in> vr_id ` set rows then settle_row E (vr_attempts x + 1) None x else x)
      (outbox_events ?d1)"
    using pub IH by simp
  also have "\<dots> = map (\<lambda>x. if vr_id x \<in> vr_id ` set (r # rows)
      then settle_row E (vr_attempts x + 1) None x else x) (outbox_events d)"
    unfolding settled_sel map_map using notin same by (intro map_cong) auto
  finally show ?case .
qed (simp add: map_idI)

text \<open>So after an undisturbed dispatch with room for all of them no event is due.\<close>

lemma dispatch_delivers_due:
  assumes nf: "no_faults E" and sc: "scans_all E" and inv: "outbox_inv d"
    and free: "\<And>r. r \<in> set (outbox_events d) \<Longrightarrow> \<not> row_locked E (vr_id r)"
    and room: "int (length (filter (due E) (outbox_events d))) \<le> limit"
  shows "\<exists>p' d'. DispatchBatch E limit publish p d =
      (Inr (int (length (filter (due E) (outbox_events d)))), p', d')
    \<and> (\<forall>r \<in> set (outbox_events d'). \<not> due E r)
    \<and> (\<forall>r \<in> set (outbox_events d). due E r \<longrightarrow>
         (\<exists>r' \<in> set (outbox_events d'). vr_id r' = vr_id r \<and> vr_status r' = Published
            \<and> Event_Envelope (scanEvent r') \<in> accepted p'))"
proof -
  let ?b = "batch E limit d" and ?due = "filter (due E) (outbox_events d)"
  let ?q = "sort_key vr_created_at (filter (due E) (heap_order E (outbox_events d)))"
  from inv have dist: "distinct (map vr_id (outbox_events d))"
    by (simp add: outbox_inv_def one_event_each_def)
  have "mset (filter (due E) (heap_order E (outbox_events d))) = mset ?due"
    by (simp add: mset_heap [OF sc])
  then have mq: "mset ?q = mset ?due" by simp
  then have lq: "length ?q = length ?due" by (rule mset_eq_length)
  have "filter (\<lambda>r. \<not> row_locked E (vr_id r)) ?q = ?q"
    using free set_heap [OF sc] by (intro filter_True) auto
  with room lq have bq: "?b = ?q" by (simp add: batch_def)
  have sb: "set ?b = set ?due" unfolding bq using mq by (metis set_mset_mset)
  have sub: "set ?b \<subseteq> set (outbox_events d)" unfolding sb by auto
  note db = distinct_batch [OF sc dist, of limit]
  have tok: "publisher_text_ok E publish" using never_fails by (simp add: publisher_text_ok_def)
  have lim: "0 \<le> limit" using room by simp
  obtain p' d' where all: "settle_all E publish (map scanEvent ?b) p d = (p', d')"
    by (cases "settle_all E publish (map scanEvent ?b) p d")
  from DispatchBatch_ok [OF nf tok lim sub, of p] all lq bq
  have run: "DispatchBatch E limit publish p d = (Inr (int (length ?due)), p', d')" by simp
  have ev: "outbox_events d' = map (\<lambda>r. if vr_id r \<in> vr_id ` set ?b
      then settle_row E (vr_attempts r + 1) None r else r) (outbox_events d)"
    using settle_all_events [OF sub db dist, of E p] all by simp
  have iff: "vr_id r \<in> vr_id ` set ?b \<longleftrightarrow> due E r" if "r \<in> set (outbox_events d)" for r
    using that dist unfolding sb by (auto simp: distinct_map dest: inj_onD)
  have st: "vr_status (settle_row E n None r) = Published" for n r by (simp add: settle_row_def)
  have "\<not> due E r" if "r \<in> set (outbox_events d')" for r
    using that iff by (auto simp: ev due_def st split: if_splits)
  moreover have "\<exists>r' \<in> set (outbox_events d'). vr_id r' = vr_id r \<and> vr_status r' = Published
      \<and> Event_Envelope (scanEvent r') \<in> accepted p'"
    if r: "r \<in> set (outbox_events d)" and due: "due E r" for r
  proof -
    have "Event_Envelope (scanEvent r) \<in> accepted (publish_all publish (map scanEvent ?b) p)"
      using r due sb by (intro publish_all_accepts) auto
    then have acc: "Event_Envelope (scanEvent r) \<in> accepted p'"
      using all settle_all_publisher [of E publish "map scanEvent ?b" p d] by simp
    have "settle_row E (vr_attempts r + 1) None r \<in> set (outbox_events d')"
    proof -
      have "vr_id r \<in> vr_id ` set ?b" using due iff [OF r] by simp
      then show ?thesis unfolding ev set_map
        by (intro image_eqI [where x = r]) (simp_all only: if_True r)
    qed
    with acc st show ?thesis by (intro bexI) auto
  qed
  ultimately show ?thesis using run by blast
qed

end

section \<open>The program's publishers\<close>

interpretation log_publisher: reliable_publisher LogPublisher_Publish set
  by unfold_locales (auto simp: LogPublisher_Publish_def)

interpretation recording_publisher: publisher_contract RecordingPublisher_Publish "set \<circ> rp_published"
  by unfold_locales (auto simp: RecordingPublisher_Publish_def split: if_splits)

text \<open>
  Any publisher at all meets the contract when nothing is asked of its memory; the facts
  about the database then hold for it.
\<close>

interpretation any_publisher: publisher_contract publish "\<lambda>_. UNIV" for publish
  by unfold_locales simp_all

lemma delivered_UNIV: "delivered (\<lambda>_. UNIV) d p"
  by (simp add: delivered_def)

end
