(* ===== verification/Relay.thy ===== *)
theory Relay
  imports Outbox_Delivery
begin

text \<open>
  \<open>internal/outbox/relay.go\<close>: the relay's options and defaults, its polling loop and the
  inner loop that drains a backlog, over the \<open>Dispatcher\<close> interface. The contract under
  which the inner loop returns is a locale, interpreted on the store's \<open>DispatchBatch\<close>.
\<close>

section \<open>Construction\<close>

text \<open>Go's \<open>int\<close> has 64 bits on the platforms the program is built for.\<close>

record RelayOptions =
  opt_Interval :: int64
  opt_BatchSize :: int64

record RelayConfig =
  rl_interval :: int64
  rl_batchSize :: int64

definition Millisecond :: int64 where "Millisecond = 1000000"
definition DefaultInterval :: int64 where "DefaultInterval = 500 * Millisecond"
definition DefaultBatchSize :: int64 where "DefaultBatchSize = 100"

definition NewRelay :: "RelayOptions \<Rightarrow> RelayConfig" where
  "NewRelay opts =
     \<lparr>rl_interval = (if opt_Interval opts \<le>s 0 then DefaultInterval else opt_Interval opts),
      rl_batchSize = (if opt_BatchSize opts \<le>s 0 then DefaultBatchSize else opt_BatchSize opts)\<rparr>"

section \<open>The loops\<close>

text \<open>
  A dispatcher with its publisher is a function of the number of the call (the time and
  the faults differ from call to call), the batch size and the state. The inner loop
  says how it ended, with the number of the next call; it is defined even if it never
  ends, as \<^const>\<open>None\<close>.
\<close>

type_synonym 's dispatcher = "nat \<Rightarrow> int \<Rightarrow> 's \<Rightarrow> (go_error + int) \<times> 's"

datatype drain_end = Drained | Interrupted | Logged go_error

definition batch_error :: "go_error \<Rightarrow> drain_end" where
  "batch_error err =
     (if errors_Is err Canceled \<or> errors_Is err DeadlineExceeded then Interrupted else Logged err)"

partial_function (option) drain ::
    "'s dispatcher \<Rightarrow> int \<Rightarrow> nat \<Rightarrow> 's \<Rightarrow> (drain_end \<times> nat \<times> 's) option" where
  "drain D bsize k s =
     (case D k bsize s of
        (Inl err, s') \<Rightarrow> Some (batch_error err, Suc k, s')
      | (Inr n, s') \<Rightarrow>
          if n < bsize then Some (Drained, Suc k, s') else drain D bsize (Suc k) s')"

text \<open>What the \<open>select\<close> receives, in order.\<close>

datatype wakeup = Tick | Done

fun Run :: "'s dispatcher \<Rightarrow> int \<Rightarrow> wakeup list \<Rightarrow> nat \<Rightarrow> 's \<Rightarrow> (drain_end list \<times> 's) option" where
  "Run D bsize [] k s = Some ([], s)"
| "Run D bsize (Done # ws) k s = Some ([], s)"
| "Run D bsize (Tick # ws) k s =
     (case drain D bsize k s of
        None \<Rightarrow> None
      | Some (e, k', s') \<Rightarrow>
          (case Run D bsize ws k' s' of None \<Rightarrow> None | Some (es, s'') \<Rightarrow> Some (e # es, s'')))"

section \<open>When the loops return\<close>

locale dispatcher_contract =
  fixes D :: "'s dispatcher" and inv :: "'s \<Rightarrow> bool" and backlog :: "'s \<Rightarrow> nat"
  assumes dispatch_inv: "D k bsize s = (r, s') \<Longrightarrow> inv s \<Longrightarrow> inv s'"
    and full_batch: "D k bsize s = (Inr n, s') \<Longrightarrow> inv s \<Longrightarrow> 0 < bsize \<Longrightarrow> bsize \<le> n \<Longrightarrow>
      backlog s' + nat bsize \<le> backlog s"
begin

text \<open>The number of calls is bounded by the backlog in batches, plus the last one.\<close>

lemma drain_returns:
  assumes "inv s" and "0 < bsize"
  shows "\<exists>e k' s'. drain D bsize k s = Some (e, k', s') \<and> inv s' \<and> k < k'
    \<and> (k' - Suc k) * nat bsize \<le> backlog s"
  using assms
proof (induction "backlog s" arbitrary: s k rule: less_induct)
  case less
  obtain r s1 where run: "D k bsize s = (r, s1)" by (cases "D k bsize s")
  have inv1: "inv s1" using dispatch_inv [OF run less.prems(1)] .
  show ?case
  proof (cases r)
    case (Inl err)
    with run inv1 show ?thesis by (simp add: drain.simps)
  next
    case (Inr n)
    show ?thesis
    proof (cases "n < bsize")
      case True
      with Inr run inv1 show ?thesis by (simp add: drain.simps)
    next
      case False
      then have dec: "backlog s1 + nat bsize \<le> backlog s"
        using full_batch run Inr less.prems by simp
      then have "backlog s1 < backlog s" using less.prems(2) by simp
      from less.hyps [OF this inv1 less.prems(2), of "Suc k"]
      obtain e k' s' where d: "drain D bsize (Suc k) s1 = Some (e, k', s')" "inv s'" "Suc k < k'"
        "(k' - Suc (Suc k)) * nat bsize \<le> backlog s1" by blast
      have "(k' - Suc k) * nat bsize = (k' - Suc (Suc k)) * nat bsize + nat bsize"
      proof -
        have "k' - Suc k = Suc (k' - Suc (Suc k))" using d(3) by simp
        then show ?thesis by simp
      qed
      with d dec have "(k' - Suc k) * nat bsize \<le> backlog s" by simp
      moreover have "drain D bsize k s = Some (e, k', s')"
        using False Inr run d(1) by (simp add: drain.simps)
      ultimately show ?thesis using d by auto
    qed
  qed
qed

lemma Run_returns:
  assumes "inv s" and "0 < bsize"
  shows "\<exists>es s'. Run D bsize ws k s = Some (es, s') \<and> inv s'"
  using assms
proof (induction ws arbitrary: k s)
  case (Cons w ws)
  show ?case
  proof (cases w)
    case Tick
    from drain_returns [OF Cons.prems, of k] obtain e k' s' where
      "drain D bsize k s = Some (e, k', s')" "inv s'" by blast
    with Tick Cons.IH [of s' k'] Cons.prems(2) show ?thesis by auto
  qed (use Cons.prems in simp)
qed simp

end

section \<open>Dispatching from the database\<close>

text \<open>The \<open>k\<close>-th call of the relay runs in the environment \<open>Es k\<close>.\<close>

definition store_dispatcher :: "(nat \<Rightarrow> env) \<Rightarrow> 'p publisher \<Rightarrow> (db \<times> 'p) dispatcher" where
  "store_dispatcher Es publish k bsize s =
     (case DispatchBatch (Es k) bsize publish (snd s) (fst s) of (r, p', d') \<Rightarrow> (r, (d', p')))"

text \<open>
  While the drain takes less than the shortest backoff, an event that failed is not due
  again: all its calls lie within one second before \<open>T\<close>.
\<close>

definition within_second :: "(nat \<Rightarrow> env) \<Rightarrow> time \<Rightarrow> bool" where
  "within_second Es T \<longleftrightarrow>
     (\<forall>k. scans_all (Es k) \<and> now (Es k) \<le> T \<and> T < now (Es k) + 1000000)"

definition due_by :: "time \<Rightarrow> event_row \<Rightarrow> bool" where
  "due_by T r \<longleftrightarrow> vr_status r = Pending \<and> vr_available_at r \<le> T"

definition due_count :: "time \<Rightarrow> db \<Rightarrow> nat" where
  "due_count T d = length (filter (due_by T) (outbox_events d))"

lemma not_due_after_settle:
  assumes "T < now E + 1000000"
  shows "\<not> due_by T (settle_row E n perr r)"
  using assms backoff_seconds_bounds(1) [of n]
  by (cases perr) (auto simp: due_by_def settle_row_def backoff_us_def)

lemma filter_update_remove:
  assumes "distinct (map g xs)" and "x \<in> set xs" and "P x" and "\<not> P (f x)"
  shows "length (filter P (map (\<lambda>y. if g y = g x then f y else y) xs)) + 1 = length (filter P xs)"
  using assms
proof (induction xs)
  case (Cons y ys)
  show ?case
  proof (cases "y = x")
    case True
    with Cons.prems have "g z \<noteq> g x" if "z \<in> set ys" for z using that by (auto simp: image_iff)
    then have "map (\<lambda>y. if g y = g x then f y else y) ys = ys" by (simp add: map_idI)
    with True Cons.prems show ?thesis by simp
  next
    case False
    with Cons.prems have "g y \<noteq> g x" by (auto simp: image_iff)
    with False Cons show ?thesis by auto
  qed
qed simp

lemma due_count_settled:
  assumes "distinct (map vr_id (outbox_events d))" and "r \<in> set (outbox_events d)"
    and "due_by T r" and "T < now E + 1000000"
  shows "due_count T (settled E (scanEvent r) perr trigger d) + 1 = due_count T d"
  using filter_update_remove [where g = vr_id and P = "due_by T" and
      f = "settle_row E (vr_attempts r + 1) perr", OF assms(1-3)]
    not_due_after_settle [OF assms(4)]
  unfolding due_count_def settled_sel scanEvent_sel by simp

lemma due_count_settle_all:
  assumes "distinct (map vr_id (outbox_events d))" and "set rows \<subseteq> set (outbox_events d)"
    and "distinct (map vr_id rows)" and "\<forall>r \<in> set rows. due_by T r" and "T < now E + 1000000"
  shows "due_count T (snd (settle_all E publish (map scanEvent rows) p d)) + length rows = due_count T d"
  using assms
proof (induction rows arbitrary: p d)
  case (Cons r rows)
  obtain perr p1 where pub: "publish (Event_Envelope (scanEvent r)) p = (perr, p1)"
    by (cases "publish (Event_Envelope (scanEvent r)) p")
  let ?d1 = "settled E (scanEvent r) perr TriggerRelay d"
  have "set rows \<subseteq> set (outbox_events ?d1)"
  proof
    fix x assume x: "x \<in> set rows"
    then have "vr_id x \<noteq> vr_id r" using Cons.prems(3) by (force simp: image_iff)
    with x Cons.prems(2) show "x \<in> set (outbox_events ?d1)"
      by (intro row_unchanged_settled) auto
  qed
  moreover have "distinct (map vr_id (outbox_events ?d1))"
    using Cons.prems(1) by (simp only: map_vr_id_settled)
  moreover have "due_count T ?d1 + 1 = due_count T d"
    using Cons.prems by (intro due_count_settled) auto
  ultimately show ?case using Cons.IH [of ?d1 p1] Cons.prems(3-5) pub by simp
qed simp

lemma batch_due:
  assumes "scans_all E" and "now E \<le> T" and "r \<in> set (batch E limit d)"
  shows "due_by T r"
  using set_batch [OF assms(1)] assms(2,3) by (fastforce simp: due_def due_by_def)

interpretation relay: dispatcher_contract "store_dispatcher Es publish"
  "\<lambda>s. outbox_inv (fst s) \<and> within_second Es T" "\<lambda>s. due_count T (fst s)" for Es publish T
proof (unfold_locales, goal_cases)
  case (1 k bsize s r s')
  obtain p' d' where run: "DispatchBatch (Es k) bsize publish (snd s) (fst s) = (r, p', d')"
    and s': "s' = (d', p')"
    using 1(1) by (auto simp: store_dispatcher_def split: prod.splits)
  from 1(2) have "scans_all (Es k)" "outbox_inv (fst s)" by (simp_all add: within_second_def)
  from any_publisher.dispatch_inv(1) [OF run this delivered_UNIV] 1(2) s' show ?case by simp
next
  case (2 k bsize s n s')
  obtain p' d' where run: "DispatchBatch (Es k) bsize publish (snd s) (fst s) = (Inr n, p', d')"
    and s': "s' = (d', p')"
    using 2(1) by (auto simp: store_dispatcher_def split: prod.splits)
  from 2(2) have sc: "scans_all (Es k)" and cl: "now (Es k) \<le> T" "T < now (Es k) + 1000000"
    and dist: "distinct (map vr_id (outbox_events (fst s)))"
    by (simp_all add: within_second_def outbox_inv_def one_event_each_def)
  let ?b = "batch (Es k) bsize (fst s)"
  from run have n: "n = int (length ?b)"
    and d': "d' = snd (settle_all (Es k) publish (map scanEvent ?b) (snd s) (fst s))"
    by (auto dest: DispatchBatch_Inr)
  have "due_count T d' + length ?b = due_count T (fst s)"
    unfolding d' using dist set_batch [OF sc] distinct_batch [OF sc dist] batch_due [OF sc cl(1)] cl(2)
    by (intro due_count_settle_all) auto
  with n s' 2(4) show ?case by simp
qed

end
