(* ===== verification/System.thy ===== *)
theory System
  imports Ledger_Spec Relay
begin

text \<open>
  The running system: a database shared by the API, the relay and the replay endpoint,
  and a publisher. Each operation is one step; every interleaving of requests is a
  sequence of steps, because an operation commits as one database transaction holding
  the locks on what it changes. A step may meet any fault its environment describes.
\<close>

section \<open>Steps and reachable states\<close>

inductive system_step :: "'p publisher \<Rightarrow> db \<times> 'p \<Rightarrow> db \<times> 'p \<Rightarrow> bool" for publish where
  create: "Service_CreateAccount (Store_repository E) new_id cmd d = (r, d') \<Longrightarrow>
    system_step publish (d, p) (d', p)"
| transfer: "Service_Transfer (Store_repository E) cmd claim render d = (r, d') \<Longrightarrow>
    system_step publish (d, p) (d', p)"
| dispatch: "DispatchBatch E limit publish p d = (r, p', d') \<Longrightarrow> scans_all E \<Longrightarrow>
    system_step publish (d, p) (d', p')"
| replay: "ReplayEvent E eid publish p d = (r, p', d') \<Longrightarrow>
    system_step publish (d, p) (d', p')"

inductive_cases system_step_E [consumes 1, case_names create transfer dispatch replay]:
  "system_step publish (d, p) (d', p')"

inductive reachable :: "'p publisher \<Rightarrow> 'p \<Rightarrow> db \<times> 'p \<Rightarrow> bool" for publish p0 where
  start: "reachable publish p0 (empty_db, p0)"
| step: "reachable publish p0 s \<Longrightarrow> system_step publish s s' \<Longrightarrow> reachable publish p0 s'"

section \<open>Invariants\<close>

text \<open>Every transaction was made under exactly one idempotency key.\<close>

definition keys_exact :: "db \<Rightarrow> bool" where
  "keys_exact d \<longleftrightarrow>
     (\<forall>k k' r r'. idempotency_keys d k = Some r \<longrightarrow> idempotency_keys d k' = Some r' \<longrightarrow>
        ir_transaction_id r = ir_transaction_id r' \<longrightarrow> k = k')
     \<and> (\<forall>t \<in> set (transactions d). \<exists>k r. idempotency_keys d k = Some r
          \<and> ir_transaction_id r = Some (tr_id t))"

definition system_inv :: "db \<Rightarrow> bool" where
  "system_inv d \<longleftrightarrow> ledger_inv d \<and> outbox_inv d \<and> keys_exact d"

lemma keys_exact_same: "same_ledger d d' \<Longrightarrow> keys_exact d \<Longrightarrow> keys_exact d'"
  by (simp add: keys_exact_def same_ledger_def)

lemma keys_exact_transfer:
  assumes en: "transfer_enabled E cmd claim currency rd rc bd bc d" and kw: "keys_wf d"
    and ke: "keys_exact d"
  shows "keys_exact (after_transfer E cmd claim status body currency rd rc bd bc d)"
proof -
  let ?d' = "after_transfer E cmd claim status body currency rd rc bd bc d"
  from en have free: "idempotency_keys d (claim_of claim) = None"
    and new: "\<not> transaction_exists d (new_uuid E 0)" by (simp_all add: transfer_enabled_def)
  have old: "ir_transaction_id r \<noteq> Some (new_uuid E 0)" if "idempotency_keys d k = Some r" for k r
    using kw new that unfolding keys_wf_def by fastforce
  have resp: "ir_transaction_id (response_row E claim status body (new_uuid E 0)) = Some (new_uuid E 0)"
    by (simp add: response_row_def)
  have "\<forall>k k' r r'. idempotency_keys ?d' k = Some r \<longrightarrow> idempotency_keys ?d' k' = Some r' \<longrightarrow>
        ir_transaction_id r = ir_transaction_id r' \<longrightarrow> k = k'"
    using ke old resp unfolding keys_exact_def by (auto simp: row_simps dest: sym)
  moreover have "\<forall>t \<in> set (transactions ?d'). \<exists>k r. idempotency_keys ?d' k = Some r
          \<and> ir_transaction_id r = Some (tr_id t)"
  proof
    fix t assume t: "t \<in> set (transactions ?d')"
    show "\<exists>k r. idempotency_keys ?d' k = Some r \<and> ir_transaction_id r = Some (tr_id t)"
    proof (cases "t \<in> set (transactions d)")
      case True
      with ke obtain k r where kr: "idempotency_keys d k = Some r" "ir_transaction_id r = Some (tr_id t)"
        unfolding keys_exact_def by blast
      with free have "k \<noteq> claim_of claim" by auto
      with kr show ?thesis by (intro exI [of _ k] exI [of _ r]) (simp add: row_simps)
    next
      case False
      with t have "tr_id t = new_uuid E 0" by (simp add: row_simps)
      with resp show ?thesis
        by (intro exI [of _ "claim_of claim"]
            exI [of _ "response_row E claim status body (new_uuid E 0)"]) (simp add: row_simps)
    qed
  qed
  ultimately show ?thesis unfolding keys_exact_def by blast
qed

section \<open>What a step never takes back\<close>

text \<open>
  History only grows: rows of the ledger are never changed or removed, the envelope of an
  event is fixed when the event is written, a stored response stays, and what identifies
  an account stays.
\<close>

definition account_static :: "account_row \<Rightarrow> string \<times> account_kind \<times> string \<times> bool \<times> time" where
  "account_static r = (ar_name r, ar_kind r, ar_currency r, ar_allow_negative_balance r, ar_created_at r)"

definition envelopes :: "db \<Rightarrow> Envelope list" where
  "envelopes d = map (Event_Envelope \<circ> scanEvent) (outbox_events d)"

definition extends :: "db \<Rightarrow> db \<Rightarrow> bool" where
  "extends d d' \<longleftrightarrow>
     prefix (transactions d) (transactions d') \<and> prefix (ledger_entries d) (ledger_entries d')
     \<and> prefix (envelopes d) (envelopes d') \<and> prefix (outbox_deliveries d) (outbox_deliveries d')
     \<and> idempotency_keys d \<subseteq>\<^sub>m idempotency_keys d'
     \<and> (\<forall>a r. accounts d a = Some r \<longrightarrow>
          (\<exists>r'. accounts d' a = Some r' \<and> account_static r' = account_static r))"

lemma extends_refl [simp]: "extends d d"
  by (simp add: extends_def)

lemma extends_trans: "extends a b \<Longrightarrow> extends b c \<Longrightarrow> extends a c"
  unfolding extends_def by (metis prefix_order.trans map_le_trans)

lemma extends_transfer:
  assumes en: "transfer_enabled E cmd claim currency rd rc bd bc d"
  shows "extends d (after_transfer E cmd claim status body currency rd rc bd bc d)"
proof -
  from en have "idempotency_keys d (claim_of claim) = None"
    "accounts d (cmd_DebitAccountID cmd) = Some rd" "accounts d (cmd_CreditAccountID cmd) = Some rc"
    by (simp_all add: transfer_enabled_def)
  then show ?thesis
    by (auto simp: extends_def row_simps envelopes_def map_le_def account_static_def)
qed

lemma extends_insert_account:
  "insert_account aid r d = Inr d' \<Longrightarrow> extends d d'"
  by (auto simp: extends_def insert_account_def envelopes_def split: if_splits)

lemma extends_settled: "extends d (settled E e perr trigger d)"
  by (simp add: extends_def envelopes_def envelopes_settled del: settled_sel(7))

lemma extends_settle_all: "extends d (snd (settle_all E publish es p d))"
proof (induction es arbitrary: p d)
  case (Cons e es)
  obtain perr p1 where pub: "publish (Event_Envelope e) p = (perr, p1)"
    by (cases "publish (Event_Envelope e) p")
  from extends_trans [OF extends_settled Cons.IH] pub show ?case by simp
qed simp

lemma extends_burnt: "burnt d d' \<Longrightarrow> extends d d'"
  by (auto simp: burnt_def extends_def envelopes_def)

lemma extends_dispatch:
  assumes "DispatchBatch E limit publish p d = (r, p', d')"
  shows "extends d d'"
  using assms
proof (cases rule: DispatchBatch_cases)
  case dispatched
  then show ?thesis using extends_settle_all by (metis snd_conv)
next
  case lost
  then show ?thesis using extends_settle_all by (metis snd_conv)
qed (auto intro: extends_burnt)

lemma extends_replay:
  assumes "ReplayEvent E eid publish p d = (r, p', d')"
  shows "extends d d'"
  using assms
proof (cases rule: ReplayEvent_cases)
  case (published e perr)
  from published(3) show ?thesis
    by (cases rule: finish_replay_cases) (auto intro: extends_burnt extends_settled)
qed simp

section \<open>Requests in terms of their effect\<close>

lemma Service_CreateAccount_cases:
  assumes "Service_CreateAccount (Store_repository E) new_id cmd d = (r, d')"
  obtains (unchanged) "d' = d" | (inserted) row where "insert_account new_id row d = Inr d'"
      "ar_balance row = 0"
proof (cases "CreateAccountCommand_Validate cmd")
  case (Some e)
  with assms show thesis by (intro unchanged) (simp add: Service_CreateAccount_def)
next
  case None
  obtain r1 d1 where run: "Store_CreateAccount E (new_account new_id cmd) d = (r1, d1)"
    by (cases "Store_CreateAccount E (new_account new_id cmd) d")
  with None assms have d': "d' = d1"
    by (auto simp: Service_CreateAccount_def Store_repository_def split: sum.splits)
  have id0: "acc_ID (new_account new_id cmd) = new_id" "acc_Balance (new_account new_id cmd) = 0"
    by (simp_all add: new_account_def)
  from run show thesis
    by (cases rule: Store_CreateAccount_cases)
      (use id0 d' account_row_of_balance [of E "new_account new_id cmd"] unchanged inserted in auto)
qed

lemma Service_Transfer_eq:
  "Service_Transfer (Store_repository E) cmd claim render d =
     (case TransferCommand_Validate cmd of
        Some err \<Rightarrow> (Inl err, d) | None \<Rightarrow> Store_Transfer E cmd claim render d)"
  by (subst store.service_transfer_eq) (simp add: Store_repository_def split: option.split)

lemma Service_Transfer_cases:
  assumes "Service_Transfer (Store_repository E) cmd claim render d = (r, d')"
  obtains (unchanged) "d' = d"
    | (moved) status body currency rd rc bd bc where
      "transfer_enabled E cmd claim currency rd rc bd bc d"
      "d' = after_transfer E cmd claim status body currency rd rc bd bc d"
      "TransferCommand_Validate cmd = None"
proof (cases "TransferCommand_Validate cmd")
  case (Some e)
  with assms show thesis by (intro unchanged) (simp add: Service_Transfer_eq)
next
  case None
  then have neq: "cmd_DebitAccountID cmd \<noteq> cmd_CreditAccountID cmd"
    by (simp add: TransferCommand_Validate_None)
  from assms None have run: "Store_Transfer E cmd claim render d = (r, d')"
    by (simp add: Service_Transfer_eq)
  have eff: thesis if "transfer_effect E cmd claim render status body d d'" for status body
    using that None moved unfolding transfer_effect_def by blast
  from run neq show thesis
    by (cases rule: Store_Transfer_cases) (use unchanged eff in blast)+
qed

section \<open>Every step keeps the invariants and extends the history\<close>

lemma system_inv_empty: "system_inv empty_db"
  by (simp add: system_inv_def ledger_inv_empty outbox_inv_empty keys_exact_def)
    (simp add: empty_db_def)

lemma system_step_extends:
  assumes "system_step publish (d, p) (d', p')"
  shows "extends d d'"
  using assms
proof (cases rule: system_step_E)
  case (create E new_id cmd r)
  from create(2) show ?thesis
    by (cases rule: Service_CreateAccount_cases) (auto intro: extends_insert_account)
next
  case (transfer E cmd claim render r)
  from transfer(2) show ?thesis
    by (cases rule: Service_Transfer_cases) (auto intro: extends_transfer)
qed (auto intro: extends_dispatch extends_replay)

lemma system_step_inv:
  assumes step: "system_step publish (d, p) (d', p')" and inv: "system_inv d"
  shows "system_inv d'"
proof -
  from inv have li: "ledger_inv d" and oi: "outbox_inv d" and ke: "keys_exact d"
    by (simp_all add: system_inv_def)
  have outbox: "system_inv d'" if "outbox_inv d'" "same_ledger d d'"
    using that li ke by (simp add: system_inv_def ledger_inv_same keys_exact_same)
  from step show ?thesis
  proof (cases rule: system_step_E)
    case (create E new_id cmd r)
    from create(2) show ?thesis
    proof (cases rule: Service_CreateAccount_cases)
      case (inserted row)
      then have "idempotency_keys d' = idempotency_keys d" "transactions d' = transactions d"
        by (auto simp: insert_account_def split: if_splits)
      with inserted li oi ke show ?thesis
        by (auto simp: system_inv_def keys_exact_def
            intro: ledger_inv_insert_account outbox_inv_insert_account)
    qed (use inv in simp)
  next
    case (transfer E cmd claim render r)
    from store.service_transfer_inv [OF transfer(2) li] have "ledger_inv d'" .
    moreover from transfer(2) have "outbox_inv d' \<and> keys_exact d'"
      by (cases rule: Service_Transfer_cases)
        (use oi ke ledger_invD(6) [OF li] in \<open>auto intro: outbox_inv_transfer keys_exact_transfer\<close>)
    ultimately show ?thesis by (simp add: system_inv_def)
  next
    case (dispatch E limit r)
    with any_publisher.dispatch_inv [OF dispatch(1,2) oi delivered_UNIV] show ?thesis
      by (intro outbox)
  next
    case (replay E eid r)
    with any_publisher.replay_inv [OF replay oi delivered_UNIV] show ?thesis
      by (intro outbox)
  qed
qed

lemma reachable_system_inv: "reachable publish p0 s \<Longrightarrow> system_inv (fst s)"
  by (induction rule: reachable.induct)
    (auto simp: system_inv_empty intro: system_step_inv)

section \<open>Deliveries along a step\<close>

lemma delivered_insert_account:
  "insert_account aid r d = Inr d' \<Longrightarrow> delivered accepted d p \<Longrightarrow> delivered accepted d' p"
  by (auto simp: insert_account_def delivered_def split: if_splits)

lemma delivered_transfer:
  "delivered accepted d p \<Longrightarrow>
     delivered accepted (after_transfer E cmd claim status body currency rd rc bd bc d) p"
  by (auto simp: delivered_def row_simps transfer_event_def)

context publisher_contract
begin

lemma delivered_system_step:
  assumes step: "system_step publish (d, p) (d', p')" and inv: "outbox_inv d"
    and dl: "delivered accepted d p"
  shows "delivered accepted d' p'"
  using step
proof (cases rule: system_step_E)
  case (create E new_id cmd r)
  from create(2) show ?thesis
    by (cases rule: Service_CreateAccount_cases) (use create(1) dl in \<open>auto intro: delivered_insert_account\<close>)
next
  case (transfer E cmd claim render r)
  from transfer(2) show ?thesis
    by (cases rule: Service_Transfer_cases) (use transfer(1) dl in \<open>auto intro: delivered_transfer\<close>)
next
  case (dispatch E limit r)
  show ?thesis by (rule dispatch_inv(2) [OF dispatch(1,2) inv dl])
next
  case (replay E eid r)
  show ?thesis by (rule replay_inv(2) [OF replay inv dl])
qed

lemma reachable_delivered:
  assumes "reachable publish p0 s"
  shows "system_inv (fst s) \<and> delivered accepted (fst s) (snd s)"
  using assms
proof induction
  case start
  show ?case by (simp add: system_inv_empty delivered_def) (simp add: empty_db_def)
next
  case (step s s')
  obtain d p d' p' where s: "s = (d, p)" "s' = (d', p')" by (cases s; cases s')
  from step s have st: "system_step publish (d, p) (d', p')" and inv: "system_inv d"
    and dl: "delivered accepted d p" by simp_all
  from inv have "outbox_inv d" by (simp add: system_inv_def)
  from delivered_system_step [OF st this dl] system_step_inv [OF st inv] s show ?case by simp
qed

end

end
