(* ===== verification/Demo.thy ===== *)
theory Demo
  imports Service
begin

text \<open>
  Concrete inputs for the witnesses: an environment in which every call succeeds, a
  database with two funded accounts, and a transfer between them.
\<close>

definition demo_texts :: texts where
  "demo_texts = \<lparr>uuid_String = (\<lambda>u. show_nat (unat u)),
     PgError_Error = (\<lambda>code constraint. ''ERROR: '' @ constraint @ '' (SQLSTATE '' @ code @ '')''),
     strconv_Quote = (\<lambda>s. CHR 0x22 # s @ [CHR 0x22])\<rparr>"

text \<open>The ids of a call start at \<open>base\<close>; the clock is \<open>t\<close>.\<close>

definition demo_env :: "uuid \<Rightarrow> time \<Rightarrow> env" where
  "demo_env base t = \<lparr>env_texts = demo_texts, now = t, new_uuid = (\<lambda>n. base + of_nat n),
     fails = (\<lambda>s. None), commit_applied = False, text_ok = (\<lambda>s. CHR 0x00 \<notin> set s),
     json_ok = (\<lambda>s. s \<noteq> []), row_locked = (\<lambda>u. False), heap_order = (\<lambda>rows. rows)\<rparr>"

text \<open>The same environment with a fault: the commit of a transfer reports a lost connection.\<close>

definition lost_env :: "uuid \<Rightarrow> time \<Rightarrow> env" where
  "lost_env base t = (demo_env base t)
     \<lparr>fails := (\<lambda>s. if s = CommitTransfer then Some (DriverError ''unexpected EOF'') else None),
      commit_applied := True\<rparr>"

definition demo_account :: "string \<Rightarrow> bool \<Rightarrow> CreateAccountCommand" where
  "demo_account name neg = \<lparr>cac_Name = name, cac_Kind = ''asset'', cac_Currency = ''BRL'',
     cac_AllowNegativeBalance = neg\<rparr>"

definition demo_cmd :: "uuid \<Rightarrow> uuid \<Rightarrow> int64 \<Rightarrow> TransferCommand" where
  "demo_cmd debit credit amount = \<lparr>cmd_DebitAccountID = debit, cmd_CreditAccountID = credit,
     cmd_Amount = amount, cmd_Currency = ''BRL'', cmd_Description = ''rent'', cmd_ExternalRef = None\<rparr>"

definition demo_claim :: "string \<Rightarrow> string \<Rightarrow> Claim" where
  "demo_claim key fp = \<lparr>claim_Key = key, claim_Endpoint = ''POST /transactions'', claim_Fingerprint = fp\<rparr>"

definition demo_render :: RenderFunc where
  "demo_render t = Inr (201, show_nat (unat (txn_ID t)))"

text \<open>A system account 1 that may go negative, a customer account 2, and nothing else.\<close>

definition demo_row :: "string \<Rightarrow> bool \<Rightarrow> int64 \<Rightarrow> account_row" where
  "demo_row name neg balance = \<lparr>ar_name = name, ar_kind = Asset, ar_currency = ''BRL'',
     ar_balance = balance, ar_allow_negative_balance = neg, ar_created_at = 0, ar_updated_at = 0\<rparr>"

definition demo_db :: db where
  "demo_db = empty_db\<lparr>accounts := [1 \<mapsto> demo_row ''external'' True 0, 2 \<mapsto> demo_row ''alice'' False 0]\<rparr>"

lemmas demo_defs = demo_texts_def demo_env_def lost_env_def demo_cmd_def demo_claim_def
  demo_render_def demo_row_def demo_db_def demo_account_def

lemma demo_ledger_inv: "ledger_inv demo_db"
  by (simp add: ledger_inv_def inv_defs demo_db_def demo_row_def empty_db_def refs_of_def
      account_total_def)

definition demo_after :: db where
  "demo_after = snd (Store_Transfer (demo_env 10 5) (demo_cmd 2 1 300) (demo_claim ''k1'' ''f1'')
     demo_render demo_db)"

end
