(* ===== verification/Retries.thy ===== *)
theory Retries
  imports System Demo
begin

text \<open>
  Clients retry. This theory follows a claim through repeated requests and later steps of
  the system: a stored response is what every later request under the same key gets.
\<close>

section \<open>A stored response stays\<close>

definition answered :: "db \<Rightarrow> Claim \<Rightarrow> int \<Rightarrow> string \<Rightarrow> bool" where
  "answered d claim status body \<longleftrightarrow>
     (\<exists>row. idempotency_keys d (claim_of claim) = Some row
        \<and> ir_request_hash row = claim_Fingerprint claim
        \<and> ir_response_status row = Some status \<and> ir_response_body row = Some body)"

lemma answered_extends: "extends d d' \<Longrightarrow> answered d claim status body \<Longrightarrow> answered d' claim status body"
  unfolding answered_def extends_def map_le_def by (metis domI)

lemma answered_unique: "answered d claim s b \<Longrightarrow> answered d claim s' b' \<Longrightarrow> s' = s \<and> b' = b"
  by (auto simp: answered_def)

lemma answered_after_transfer:
  "answered (after_transfer E cmd claim status body currency rd rc bd bc d) claim status body"
  by (simp add: answered_def row_simps response_row_def claim_row_def)

lemma answered_steps:
  assumes "(system_step publish)\<^sup>*\<^sup>* (d, p) (d', p')" and "answered d claim status body"
  shows "answered d' claim status body"
  using assms
proof (induction rule: rtranclp_induct2)
  case (step d1 p1 d2 p2)
  from answered_extends [OF system_step_extends [OF step(2)] step(3) [OF step(4)]] show ?case .
qed

section \<open>What one request does to the claim\<close>

lemma Service_Transfer_Inr:
  assumes run: "Service_Transfer (Store_repository E) cmd claim render d = (Inr res, d')"
  obtains (fresh) currency rd rc bd bc where "idempotency_keys d (claim_of claim) = None"
      "res = \<lparr>res_Status = res_Status res, res_Body = res_Body res, res_Replayed = False,
              res_Transaction = Some (transfer_txn E cmd)\<rparr>"
      "render (transfer_txn E cmd) = Inr (res_Status res, res_Body res)"
      "transfer_enabled E cmd claim currency rd rc bd bc d"
      "d' = after_transfer E cmd claim (res_Status res) (res_Body res) currency rd rc bd bc d"
    | (replay) row where "idempotency_keys d (claim_of claim) = Some row" "d' = d"
      "ir_request_hash row = claim_Fingerprint claim" "ir_response_status row = Some (res_Status res)"
      "res = \<lparr>res_Status = res_Status res,
              res_Body = (case ir_response_body row of None \<Rightarrow> [] | Some b \<Rightarrow> b),
              res_Replayed = True, res_Transaction = None\<rparr>"
proof (cases "TransferCommand_Validate cmd")
  case (Some e)
  with run show thesis by (simp add: Service_Transfer_eq)
next
  case None
  then have neq: "cmd_DebitAccountID cmd \<noteq> cmd_CreditAccountID cmd"
    by (simp add: TransferCommand_Validate_None)
  from run None have "Store_Transfer E cmd claim render d = (Inr res, d')"
    by (simp add: Service_Transfer_eq)
  from this neq show thesis
  proof (cases rule: Store_Transfer_cases)
    case (fresh status body)
    then have res: "res_Status res = status" "res_Body res = body" "res_Replayed res = False"
      "res_Transaction res = Some (transfer_txn E cmd)" by simp_all
    from fresh(3) obtain currency rd rc bd bc where
      "render (transfer_txn E cmd) = Inr (status, body)"
      "transfer_enabled E cmd claim currency rd rc bd bc d"
      "d' = after_transfer E cmd claim status body currency rd rc bd bc d"
      unfolding transfer_effect_def by blast
    with fresh(1) res show thesis by (intro that(1)) simp_all
  next
    case (replay row)
    from replay(3) [symmetric] replay(1) have
      "ir_request_hash row = claim_Fingerprint claim" "ir_response_status row = Some (res_Status res)"
      "res = \<lparr>res_Status = res_Status res,
              res_Body = (case ir_response_body row of None \<Rightarrow> [] | Some b \<Rightarrow> b),
              res_Replayed = True, res_Transaction = None\<rparr>"
      by (auto simp: replayStoredResponse_Inr)
    with replay(1,2) show thesis by (intro that(2))
  qed simp_all
qed

lemma Service_Transfer_Inl:
  assumes run: "Service_Transfer (Store_repository E) cmd claim render d = (Inl e, d')"
  obtains (unchanged) "d' = d"
    | (lost) status body currency rd rc bd bc where "fails E CommitTransfer \<noteq> None" "commit_applied E"
      "transfer_enabled E cmd claim currency rd rc bd bc d"
      "d' = after_transfer E cmd claim status body currency rd rc bd bc d"
proof (cases "TransferCommand_Validate cmd")
  case (Some f)
  with run show thesis by (intro unchanged) (simp add: Service_Transfer_eq)
next
  case None
  then have neq: "cmd_DebitAccountID cmd \<noteq> cmd_CreditAccountID cmd"
    by (simp add: TransferCommand_Validate_None)
  from run None have "Store_Transfer E cmd claim render d = (Inl e, d')"
    by (simp add: Service_Transfer_eq)
  from this neq show thesis
    by (cases rule: Store_Transfer_cases)
      (use unchanged lost in \<open>auto simp: transfer_effect_def\<close>)
qed

lemma Service_Transfer_replays:
  assumes nf: "no_faults E" and rt: "request_text_ok E cmd claim"
    and valid: "TransferCommand_Validate cmd = None" and ans: "answered d claim status body"
  shows "Service_Transfer (Store_repository E) cmd claim render d =
    (Inr \<lparr>res_Status = status, res_Body = body, res_Replayed = True, res_Transaction = None\<rparr>, d)"
proof -
  from ans obtain row where row: "idempotency_keys d (claim_of claim) = Some row"
    "ir_request_hash row = claim_Fingerprint claim" "ir_response_status row = Some status"
    "ir_response_body row = Some body" unfolding answered_def by blast
  then have "claimKey E (tx_begin d) claim = Inr (False, tx_begin d)"
    by (intro claimKey_taken [OF nf rt]) simp
  with nf valid row show ?thesis
    by (simp add: Service_Transfer_eq Store_Transfer_def replayStoredResponse_def claim_of_def)
qed

section \<open>A series of attempts\<close>

text \<open>The same request sent once per environment, whatever came back before.\<close>

fun attempts :: "env list \<Rightarrow> TransferCommand \<Rightarrow> Claim \<Rightarrow> RenderFunc \<Rightarrow> db
    \<Rightarrow> (go_error + Result) list \<times> db" where
  "attempts [] cmd claim render d = ([], d)"
| "attempts (E # Es) cmd claim render d =
     (case Service_Transfer (Store_repository E) cmd claim render d of
        (r, d1) \<Rightarrow> (case attempts Es cmd claim render d1 of (rs, d') \<Rightarrow> (r # rs, d')))"

lemma attempts_answered:
  assumes "answered d claim status body"
  shows "snd (attempts Es cmd claim render d) = d
    \<and> (\<forall>res. Inr res \<in> set (fst (attempts Es cmd claim render d)) \<longrightarrow>
         res_Status res = status \<and> res_Body res = body)"
proof (induction Es)
  case (Cons E Es)
  from assms obtain row where row: "idempotency_keys d (claim_of claim) = Some row"
    "ir_response_status row = Some status" "ir_response_body row = Some body"
    unfolding answered_def by blast
  obtain r d1 where run: "Service_Transfer (Store_repository E) cmd claim render d = (r, d1)"
    by (cases "Service_Transfer (Store_repository E) cmd claim render d")
  have "d1 = d \<and> (\<forall>res. r = Inr res \<longrightarrow> res_Status res = status \<and> res_Body res = body)"
  proof (cases r)
    case (Inl e)
    from run [unfolded Inl] Inl row(1) show ?thesis
      by (cases rule: Service_Transfer_Inl) (auto simp: transfer_enabled_def)
  next
    case (Inr res)
    from run [unfolded Inr] show ?thesis
    proof (cases rule: Service_Transfer_Inr)
      case (replay row')
      have "res_Body res = body" by (subst replay(5)) (use replay(1) row in simp)
      with replay row Inr show ?thesis by auto
    qed (use row in simp)
  qed
  with Cons run show ?case by (auto split: prod.splits)
qed simp

lemma transfer_new_txn:
  "length (transactions (after_transfer E cmd claim status body currency rd rc bd bc d)) =
     Suc (length (transactions d))"
  by (simp add: row_simps)

lemma attempts_free:
  assumes "idempotency_keys d (claim_of claim) = None"
    and "attempts Es cmd claim render d = (rs, d')"
  shows "(d' = d \<and> (\<forall>res. Inr res \<notin> set rs))
    \<or> (length (transactions d') = Suc (length (transactions d))
       \<and> (\<exists>status body. answered d' claim status body
            \<and> (\<forall>res. Inr res \<in> set rs \<longrightarrow> res_Status res = status \<and> res_Body res = body)))"
  using assms
proof (induction Es arbitrary: rs)
  case (Cons E Es)
  obtain r d1 where run: "Service_Transfer (Store_repository E) cmd claim render d = (r, d1)"
    by (cases "Service_Transfer (Store_repository E) cmd claim render d")
  obtain rs1 where rest: "attempts Es cmd claim render d1 = (rs1, d')" and rs: "rs = r # rs1"
    using Cons.prems(2) run by (auto split: prod.splits)
  have moved: ?case if ans: "answered d1 claim status body"
    and new: "length (transactions d1) = Suc (length (transactions d))"
    and first: "\<And>res. r = Inr res \<Longrightarrow> res_Status res = status \<and> res_Body res = body" for status body
  proof -
    from attempts_answered [OF ans, of Es cmd render] rest
    have "d' = d1" "\<forall>res. Inr res \<in> set rs1 \<longrightarrow> res_Status res = status \<and> res_Body res = body" by auto
    with ans new first rs show ?thesis by (intro disjI2 conjI exI [of _ status] exI [of _ body]) auto
  qed
  show ?case
  proof (cases r)
    case (Inl e)
    from run [unfolded Inl] show ?thesis
    proof (cases rule: Service_Transfer_Inl)
      case unchanged
      with Cons.IH [OF Cons.prems(1), of rs1] rest rs Inl show ?thesis by auto
    next
      case (lost status body currency rd rc bd bc)
      show ?thesis
        by (rule moved [of status body])
          (use lost Inl in \<open>simp_all add: answered_after_transfer transfer_new_txn\<close>)
    qed
  next
    case (Inr res)
    from run [unfolded Inr] show ?thesis
    proof (cases rule: Service_Transfer_Inr)
      case (fresh currency rd rc bd bc)
      show ?thesis
        by (rule moved [of "res_Status res" "res_Body res"])
          (use fresh(5) Inr in \<open>simp_all add: answered_after_transfer transfer_new_txn\<close>)
    qed (use Cons.prems in simp)
  qed
qed simp

end
