(* ===== verification/Ledger_Props.thy ===== *)
theory Ledger_Props
  imports Retries
begin

text \<open>
  The properties of the ledger: what every reachable state satisfies, what a transfer does
  to the tables, what a repeated request returns, and what a refused one leaves behind.
  Each property is followed by a concrete instance.
\<close>

section \<open>A concrete run\<close>

definition demo_run1 :: "(go_error + Result) \<times> db" where
  "demo_run1 = Service_Transfer (Store_repository (demo_env 10 5)) (demo_cmd 2 1 300)
     (demo_claim ''k1'' ''f1'') demo_render demo_db"

definition demo_res1 :: Result where
  "demo_res1 = \<lparr>res_Status = 201, res_Body = ''10'', res_Replayed = False,
     res_Transaction = Some (transfer_txn (demo_env 10 5) (demo_cmd 2 1 300))\<rparr>"

definition demo_db1 :: db where "demo_db1 = snd demo_run1"

lemma demo_run1_fst: "fst demo_run1 = Inr demo_res1"
  by code_simp

lemma demo_run1_eq:
  "Service_Transfer (Store_repository (demo_env 10 5)) (demo_cmd 2 1 300)
     (demo_claim ''k1'' ''f1'') demo_render demo_db = (Inr demo_res1, demo_db1)"
  using demo_run1_fst by (simp add: demo_db1_def demo_run1_def prod_eq_iff)

lemma demo_no_faults [simp]: "no_faults (demo_env b t)"
  by (simp add: no_faults_def demo_env_def)

lemma demo_scans_all [simp]: "scans_all (demo_env b t)"
  by (simp add: scans_all_def demo_env_def)

lemma demo_text_ok: "request_text_ok (demo_env b t) (demo_cmd x y a) (demo_claim ''k1'' fp)"
  by (simp add: request_text_ok_def demo_env_def demo_cmd_def demo_claim_def)

text \<open>A reachable state: two accounts are opened, money moves, the event is published.\<close>

definition demo_s1 :: db where
  "demo_s1 = snd (Service_CreateAccount (Store_repository (demo_env 0 0)) 1
     (demo_account ''external'' True) empty_db)"

definition demo_s2 :: db where
  "demo_s2 = snd (Service_CreateAccount (Store_repository (demo_env 0 0)) 2
     (demo_account ''alice'' False) demo_s1)"

definition demo_s3 :: db where
  "demo_s3 = snd (Service_Transfer (Store_repository (demo_env 10 5)) (demo_cmd 2 1 300)
     (demo_claim ''k1'' ''f1'') demo_render demo_s2)"

definition demo_s4 :: "db \<times> Envelope list" where
  "demo_s4 = (case DispatchBatch (demo_env 20 9) 100 LogPublisher_Publish [] demo_s3 of
     (r, p', d') \<Rightarrow> (d', p'))"

lemma demo_reachable3: "reachable LogPublisher_Publish [] (demo_s3, [])"
proof -
  have "reachable LogPublisher_Publish [] (demo_s1, [])"
    by (rule reachable.step [OF reachable.start]) (auto simp: demo_s1_def intro: create prod.collapse [symmetric])
  then have "reachable LogPublisher_Publish [] (demo_s2, [])"
    by (rule reachable.step) (auto simp: demo_s2_def intro: create prod.collapse [symmetric])
  then show ?thesis
    by (rule reachable.step) (auto simp: demo_s3_def intro: transfer prod.collapse [symmetric])
qed

lemma demo_reachable: "reachable LogPublisher_Publish [] (fst demo_s4, snd demo_s4)"
  by (rule reachable.step [OF demo_reachable3])
    (auto simp: demo_s4_def intro!: dispatch split: prod.splits)

section \<open>Reachable states\<close>

text \<open>
  C1. In every state the system can reach, whatever requests arrive in whatever order and
  whichever database calls fail, the ledger tables are sound: references resolve, every
  transaction has exactly one debit and one credit leg that cancel, each cached balance is
  the exact sum of the account's entries, no balance is below its floor, and every stored
  idempotency key carries its response.
\<close>

theorem reachable_ledger_inv:
  assumes "reachable publish p0 (d, p)"
  shows "ledger_inv d"
  using reachable_system_inv [OF assms] by (simp add: system_inv_def)

theorem reachable_ledger_inv_witness:
  "ledger_inv (fst demo_s4) \<and> length (ledger_entries (fst demo_s4)) = 2"
  by (rule conjI [OF reachable_ledger_inv [OF demo_reachable]]) code_simp

text \<open>
  C2. Money is conserved: in every reachable state the balances of all accounts sum to
  zero, computed without wrap-around, and so do all ledger entries.
\<close>

theorem reachable_conservation:
  assumes "reachable publish p0 (d, p)"
  shows "(\<Sum>a \<in> dom (accounts d). sint (ar_balance (the (accounts d a)))) = 0
       \<and> (\<Sum>e \<leftarrow> ledger_entries d. sint (er_signed_amount e)) = 0"
  using reachable_system_inv [OF assms] balances_sum_zero entries_sum_zero
  by (simp add: system_inv_def ledger_invD)

theorem reachable_conservation_witness:
  "(\<Sum>e \<leftarrow> ledger_entries (fst demo_s4). sint (er_signed_amount e)) = 0
   \<and> map (\<lambda>e. sint (er_signed_amount e)) (ledger_entries (fst demo_s4)) = [300, - 300]"
  by (rule conjI [OF conjunct2 [OF reachable_conservation [OF demo_reachable]]]) code_simp

text \<open>
  C14. Each transaction of a reachable state was made under exactly one idempotency key:
  no request moved money without a key and no key moved money twice.
\<close>

theorem reachable_one_key_per_transaction:
  assumes "reachable publish p0 (d, p)" and "t \<in> set (transactions d)"
  shows "\<exists>!k. \<exists>r. idempotency_keys d k = Some r \<and> ir_transaction_id r = Some (tr_id t)"
proof -
  from reachable_system_inv [OF assms(1)] have "keys_exact d" by (simp add: system_inv_def)
  with assms(2) show ?thesis unfolding keys_exact_def by (metis (no_types, lifting))
qed

theorem reachable_one_key_per_transaction_witness:
  "\<exists>!k. \<exists>r. idempotency_keys (fst demo_s4) k = Some r
     \<and> ir_transaction_id r = Some (tr_id (hd (transactions (fst demo_s4))))"
  by (rule reachable_one_key_per_transaction [OF demo_reachable]) code_simp

text \<open>
  C16. No step rewrites history: transactions, entries, event envelopes and deliveries are
  only appended, stored responses never change, and an account keeps its name, kind,
  currency and floor.
\<close>

theorem step_extends_history:
  assumes "system_step publish (d, p) (d', p')"
  shows "prefix (transactions d) (transactions d') \<and> prefix (ledger_entries d) (ledger_entries d')
    \<and> prefix (envelopes d) (envelopes d') \<and> prefix (outbox_deliveries d) (outbox_deliveries d')
    \<and> idempotency_keys d \<subseteq>\<^sub>m idempotency_keys d'
    \<and> (\<forall>a r. accounts d a = Some r \<longrightarrow>
          (\<exists>r'. accounts d' a = Some r' \<and> account_static r' = account_static r))"
  using system_step_extends [OF assms] by (simp add: extends_def)

theorem step_extends_history_witness:
  "prefix (transactions demo_db) (transactions demo_db1) \<and> length (transactions demo_db1) = 1"
  by (rule conjI [OF conjunct1 [OF step_extends_history
        [OF transfer [OF demo_run1_eq, of LogPublisher_Publish "[]"]]]]) code_simp

section \<open>One transfer\<close>

text \<open>
  C13. A transfer that answers without replaying changes exactly this: the debited account
  gains the amount and the credited one loses it, with nothing else of either row but the
  update time; one transaction row, a debit and a credit entry, one pending event and the
  answered key are added; the answer is the rendering of the transaction.
\<close>

theorem transfer_exact_effect:
  assumes "Service_Transfer (Store_repository E) cmd claim render d = (Inr res, d')"
    and "\<not> res_Replayed res"
  shows "\<exists>rd rc bd bc.
      accounts d (cmd_DebitAccountID cmd) = Some rd \<and> accounts d (cmd_CreditAccountID cmd) = Some rc
    \<and> sint bd = sint (ar_balance rd) + sint (cmd_Amount cmd)
    \<and> sint bc = sint (ar_balance rc) - sint (cmd_Amount cmd)
    \<and> accounts d' = (accounts d)
        (cmd_DebitAccountID cmd \<mapsto> rd\<lparr>ar_balance := bd, ar_updated_at := now E\<rparr>,
         cmd_CreditAccountID cmd \<mapsto> rc\<lparr>ar_balance := bc, ar_updated_at := now E\<rparr>)
    \<and> transactions d' = transactions d @ [transfer_row E cmd (cmd_Currency cmd)]
    \<and> ledger_entries d' = ledger_entries d @
        [leg_row E cmd (cmd_Currency cmd) 1 (cmd_DebitAccountID cmd) Debit_leg,
         leg_row E cmd (cmd_Currency cmd) 2 (cmd_CreditAccountID cmd) Credit_leg]
    \<and> outbox_events d' = outbox_events d @ [transfer_event E cmd]
    \<and> outbox_deliveries d' = outbox_deliveries d
    \<and> idempotency_keys d' = (idempotency_keys d)(claim_of claim \<mapsto>
        response_row E claim (res_Status res) (res_Body res) (new_uuid E 0))
    \<and> res_Transaction res = Some (transfer_txn E cmd)
    \<and> render (transfer_txn E cmd) = Inr (res_Status res, res_Body res)"
  using assms(1)
proof (cases rule: Service_Transfer_Inr)
  case (fresh currency rd rc bd bc)
  have valid: "TransferCommand_Validate cmd = None"
    using assms(1) by (simp add: Service_Transfer_eq split: option.splits)
  have "char3_param E (cmd_Currency cmd) = Inr currency"
    using fresh(4) by (simp add: transfer_enabled_def)
  with valid have cur: "currency = cmd_Currency cmd"
    by (auto simp: TransferCommand_Validate_None dest: char3_param_valid_unchanged)
  from fresh(2) have "res_Transaction res = Some (transfer_txn E cmd)" by (metis Result.select_convs(4))
  with fresh(3-5) cur show ?thesis
    by (intro exI [of _ rd] exI [of _ rc] exI [of _ bd] exI [of _ bc])
      (simp add: row_simps transfer_enabled_def)
next
  case (replay row)
  with assms(2) show ?thesis by (metis Result.select_convs(3))
qed

theorem transfer_exact_effect_witness:
  "\<exists>rd rc bd bc. accounts demo_db 2 = Some rd \<and> accounts demo_db 1 = Some rc
     \<and> sint bd = sint (ar_balance rd) + 300 \<and> sint bc = sint (ar_balance rc) - 300
     \<and> accounts demo_db1 = (accounts demo_db)
        (2 \<mapsto> rd\<lparr>ar_balance := bd, ar_updated_at := 5\<rparr>, 1 \<mapsto> rc\<lparr>ar_balance := bc, ar_updated_at := 5\<rparr>)"
  using transfer_exact_effect [OF demo_run1_eq]
  by (auto simp: demo_res1_def demo_cmd_def demo_env_def)

text \<open>
  C8. A transfer that returns an error changed nothing, with one exception the database
  cannot exclude: the commit call failed in the driver after the server had committed,
  and then the whole transfer is there under its key.
\<close>

theorem transfer_atomic:
  assumes "Service_Transfer (Store_repository E) cmd claim render d = (Inl e, d')"
  shows "d' = d
    \<or> (fails E CommitTransfer \<noteq> None \<and> commit_applied E
        \<and> length (transactions d') = Suc (length (transactions d))
        \<and> (\<exists>status body. answered d' claim status body))"
  using assms
proof (cases rule: Service_Transfer_Inl)
  case (lost status body currency rd rc bd bc)
  from answered_after_transfer have "\<exists>status body. answered d' claim status body"
    unfolding lost(4) by blast
  with lost show ?thesis by (simp add: transfer_new_txn)
qed simp

definition demo_lost :: "(go_error + Result) \<times> db" where
  "demo_lost = Service_Transfer (Store_repository (lost_env 10 5)) (demo_cmd 2 1 300)
     (demo_claim ''k1'' ''f1'') demo_render demo_db"

theorem transfer_atomic_witness:
  "snd demo_lost = demo_db
    \<or> (fails (lost_env 10 5) CommitTransfer \<noteq> None \<and> commit_applied (lost_env 10 5)
        \<and> length (transactions (snd demo_lost)) = Suc (length (transactions demo_db))
        \<and> (\<exists>status body. answered (snd demo_lost) (demo_claim ''k1'' ''f1'') status body))"
proof (rule transfer_atomic)
  have "fst demo_lost = Inl (DriverError ''unexpected EOF'')" by code_simp
  then show "Service_Transfer (Store_repository (lost_env 10 5)) (demo_cmd 2 1 300)
     (demo_claim ''k1'' ''f1'') demo_render demo_db = (Inl (DriverError ''unexpected EOF''), snd demo_lost)"
    by (simp add: demo_lost_def prod_eq_iff)
qed

text \<open>
  C3. Retrying is safe under every fault: however often a request with a fresh key is
  repeated, and whatever each attempt returns, at most one transaction is written; if any
  attempt is answered, exactly one was, and all answers carry the same status and body.
\<close>

theorem retries_exactly_once:
  assumes "idempotency_keys d (claim_of claim) = None"
    and "attempts Es cmd claim render d = (rs, d')"
  shows "length (transactions d') \<le> Suc (length (transactions d))
    \<and> (\<forall>res. Inr res \<in> set rs \<longrightarrow> length (transactions d') = Suc (length (transactions d)))
    \<and> (\<forall>res res'. Inr res \<in> set rs \<longrightarrow> Inr res' \<in> set rs \<longrightarrow>
         res_Status res = res_Status res' \<and> res_Body res = res_Body res')"
  using attempts_free [OF assms] by auto

text \<open>The commit of the first attempt is lost; the second gets the stored answer.\<close>

theorem retries_exactly_once_witness:
  "fst (attempts [lost_env 10 5, demo_env 20 6] (demo_cmd 2 1 300) (demo_claim ''k1'' ''f1'')
       demo_render demo_db) =
     [Inl (DriverError ''unexpected EOF''),
      Inr \<lparr>res_Status = 201, res_Body = ''10'', res_Replayed = True, res_Transaction = None\<rparr>]
   \<and> length (transactions (snd (attempts [lost_env 10 5, demo_env 20 6] (demo_cmd 2 1 300)
       (demo_claim ''k1'' ''f1'') demo_render demo_db))) = 1"
proof -
  let ?a = "attempts [lost_env 10 5, demo_env 20 6] (demo_cmd 2 1 300) (demo_claim ''k1'' ''f1'')
       demo_render demo_db"
  have rs: "fst ?a = [Inl (DriverError ''unexpected EOF''),
      Inr \<lparr>res_Status = 201, res_Body = ''10'', res_Replayed = True, res_Transaction = None\<rparr>]"
    by code_simp
  have "idempotency_keys demo_db (claim_of (demo_claim ''k1'' ''f1'')) = None"
    by (simp add: demo_db_def empty_db_def)
  from retries_exactly_once [OF this prod.collapse [symmetric]]
  have "\<forall>res. Inr res \<in> set (fst ?a) \<longrightarrow>
      length (transactions (snd ?a)) = Suc (length (transactions demo_db))" by blast
  then have "length (transactions (snd ?a)) = Suc (length (transactions demo_db))"
    unfolding rs by simp
  with rs show ?thesis by (simp add: demo_db_def empty_db_def)
qed

text \<open>
  An answer is for good: once a request was answered, the same claim gets the same
  status and body, marked as replayed and with nothing changed, after any further steps of
  the system and whatever the repeated command's other fields are.
\<close>

theorem answer_is_replayed_forever:
  assumes "Service_Transfer (Store_repository E) cmd claim render d = (Inr res, d')"
    and "\<not> res_Replayed res"
    and "(system_step publish)\<^sup>*\<^sup>* (d', p) (d'', p'')"
    and "no_faults E2" and "request_text_ok E2 cmd2 claim" and "TransferCommand_Validate cmd2 = None"
  shows "Service_Transfer (Store_repository E2) cmd2 claim render2 d'' =
    (Inr \<lparr>res_Status = res_Status res, res_Body = res_Body res, res_Replayed = True,
          res_Transaction = None\<rparr>, d'')"
proof -
  from assms(1) have "answered d' claim (res_Status res) (res_Body res)"
  proof (cases rule: Service_Transfer_Inr)
    case (replay row)
    with assms(2) show ?thesis by (metis Result.select_convs(3))
  qed (simp add: answered_after_transfer)
  from Service_Transfer_replays [OF assms(4-6) answered_steps [OF assms(3) this]]
  show ?thesis .
qed

theorem answer_is_replayed_forever_witness:
  "Service_Transfer (Store_repository (demo_env 30 9)) (demo_cmd 2 1 300) (demo_claim ''k1'' ''f1'')
     demo_render demo_db1 =
   (Inr \<lparr>res_Status = res_Status demo_res1, res_Body = res_Body demo_res1, res_Replayed = True,
         res_Transaction = None\<rparr>, demo_db1)"
proof (rule answer_is_replayed_forever [OF demo_run1_eq _ rtranclp.rtrancl_refl])
  show "\<not> res_Replayed demo_res1" by (simp add: demo_res1_def)
  show "TransferCommand_Validate (demo_cmd 2 1 300) = None" by code_simp
qed (simp_all add: demo_text_ok)

text \<open>
  C15. A key that was answered for one request is refused for another: with a different
  fingerprint the request fails with \<open>ErrIdempotencyKeyReuse\<close> and changes nothing.
\<close>

theorem key_reuse_refused:
  assumes "ledger_inv d" and "no_faults E" and "request_text_ok E cmd claim"
    and "TransferCommand_Validate cmd = None"
    and "idempotency_keys d (claim_of claim) = Some row"
    and "ir_request_hash row \<noteq> claim_Fingerprint claim"
  shows "\<exists>e. Service_Transfer (Store_repository E) cmd claim render d = (Inl e, d)
    \<and> errors_Is e ErrIdempotencyKeyReuse"
proof (rule Store_Transfer_taken [OF assms(2,3) ledger_invD(6) [OF assms(1)] assms(5), of render])
  fix r assume "Store_Transfer E cmd claim render d = (r, d)"
    and "conforms (if ir_request_hash row \<noteq> claim_Fingerprint claim then Rejected ErrIdempotencyKeyReuse
       else Repeated (the (ir_response_status row)) (the (ir_response_body row))) r"
  with assms(4,6) show ?thesis by (auto simp: Service_Transfer_eq conforms_def)
qed

theorem key_reuse_refused_witness:
  "\<exists>e. Service_Transfer (Store_repository (demo_env 30 9)) (demo_cmd 2 1 301)
     (demo_claim ''k1'' ''f2'') demo_render demo_db1 = (Inl e, demo_db1)
     \<and> errors_Is e ErrIdempotencyKeyReuse"
proof (rule key_reuse_refused)
  have "transactions demo_db1 \<noteq> []" by code_simp
  show "ledger_inv demo_db1"
    using store.service_transfer_inv [OF demo_run1_eq demo_ledger_inv] .
  show "TransferCommand_Validate (demo_cmd 2 1 301) = None" by code_simp
  show "idempotency_keys demo_db1 (claim_of (demo_claim ''k1'' ''f2'')) =
      Some (the (idempotency_keys demo_db1 (claim_of (demo_claim ''k1'' ''f2''))))"
    by code_simp
  show "ir_request_hash (the (idempotency_keys demo_db1 (claim_of (demo_claim ''k1'' ''f2'')))) \<noteq>
      claim_Fingerprint (demo_claim ''k1'' ''f2'')"
    by code_simp
qed (simp_all add: demo_text_ok)

text \<open>
  C7. The store implements the abstract ledger: with no failing database call, ids that
  are new and balances that stay in range, a valid request gets the verdict the abstract
  transfer gives (answered, repeated, or refused for the named reason) and the tables
  afterwards abstract to the abstract ledger's next state.
\<close>

theorem transfer_refines_spec:
  assumes "ledger_inv d" and "undisturbed E cmd claim d" and "TransferCommand_Validate cmd = None"
    and "render (transfer_txn E cmd) = Inr (status, body)" and "json_ok E body"
  shows "conforms (fst (spec_transfer cmd claim status body (abs_db d)))
           (fst (Service_Transfer (Store_repository E) cmd claim render d))
       \<and> abs_db (snd (Service_Transfer (Store_repository E) cmd claim render d)) =
           snd (spec_transfer cmd claim status body (abs_db d))"
  using transfer_refines [of d E cmd claim render status body] assms
  by (simp add: Service_Transfer_eq)

text \<open>Account 2 is empty and may not go below zero, so crediting it is refused.\<close>

theorem transfer_refines_spec_witness:
  "conforms (Rejected ErrInsufficientFunds)
     (fst (Service_Transfer (Store_repository (demo_env 10 5)) (demo_cmd 1 2 300)
       (demo_claim ''k1'' ''f1'') demo_render demo_db))"
proof -
  have "fst (spec_transfer (demo_cmd 1 2 300) (demo_claim ''k1'' ''f1'') 201 ''10'' (abs_db demo_db)) =
      Rejected ErrInsufficientFunds" by code_simp
  moreover have "undisturbed (demo_env 10 5) (demo_cmd 1 2 300) (demo_claim ''k1'' ''f1'') demo_db"
    by (simp add: undisturbed_def demo_text_ok fresh_ids_def no_overflow_def)
      (simp add: demo_defs empty_db_def transaction_exists_def)
  moreover have "TransferCommand_Validate (demo_cmd 1 2 300) = None" by code_simp
  moreover have "demo_render (transfer_txn (demo_env 10 5) (demo_cmd 1 2 300)) = Inr (201, ''10'')"
    by code_simp
  moreover have "json_ok (demo_env 10 5) ''10''" by (simp add: demo_env_def)
  ultimately show ?thesis
    using transfer_refines_spec [OF demo_ledger_inv, of "demo_env 10 5" "demo_cmd 1 2 300"
        "demo_claim ''k1'' ''f1''" demo_render 201 "''10''"] by simp
qed



end
