(* ===== verification/Domain_Props.thy ===== *)
theory Domain_Props
  imports Ledger_Props
begin

text \<open>
  Properties of reading back, of account creation, of the order of locks, and of the pure
  rules of the domain layer.
\<close>

section \<open>Reading back\<close>

lemma order_two_legs:
  assumes "er_direction a = Debit_leg" and "er_direction b = Credit_leg"
  shows "order_entries [a, b] = [b, a]"
  using assms by (simp add: order_entries_def less_eq_entry_direction_def)

lemma scan_leg_row:
  "scanEntry (leg_row E cmd cur n a dir) =
     \<lparr>ent_ID = new_uuid E n, ent_TransactionID = new_uuid E 0, ent_AccountID = a,
      ent_Direction = direction_label dir, ent_Amount = cmd_Amount cmd, ent_Currency = cur,
      ent_CreatedAt = now E\<rparr>"
  by (simp add: scanEntry_def leg_row_def)

text \<open>
  A transfer reads back as it was written, field by field, but its legs come back in
  the opposite order: the create response lists the debit first, the stored transaction is
  returned with the credit first, because \<open>ORDER BY direction DESC\<close> follows the
  declaration order of the enum.
\<close>

theorem transaction_reads_back_reversed:
  assumes "Service_Transfer (Store_repository E) cmd claim render d = (Inr res, d')"
    and "res_Transaction res = Some t" and "ledger_inv d" and "no_faults E2"
  shows "Service_GetTransaction (Store_repository E2) (txn_ID t) d' =
    Inr (t\<lparr>txn_Entries := rev (txn_Entries t)\<rparr>)"
  using assms(1)
proof (cases rule: Service_Transfer_Inr)
  case (fresh currency rd rc bd bc)
  from fresh(2) assms(2) have t: "t = transfer_txn E cmd" by (metis Result.select_convs(4) option.inject)
  have valid: "TransferCommand_Validate cmd = None"
    using assms(1) by (simp add: Service_Transfer_eq split: option.splits)
  have en: "char3_param E (cmd_Currency cmd) = Inr currency" "\<not> transaction_exists d (new_uuid E 0)"
    using fresh(4) by (simp_all add: transfer_enabled_def)
  with valid have cur: "currency = cmd_Currency cmd"
    by (auto simp: TransferCommand_Validate_None dest: char3_param_valid_unchanged)
  have new: "find (\<lambda>r. tr_id r = new_uuid E 0) (transactions d) = None"
    using en(2) by (force simp: transaction_exists_def find_None_iff image_iff)
  have legs: "legs_of d (new_uuid E 0) = []" by (rule no_legs [OF ledger_invD(2) [OF assms(3)] en(2)])
  have id: "txn_ID t = new_uuid E 0" by (simp add: t transfer_txn_def)
  have "find (\<lambda>r. tr_id r = new_uuid E 0) (transactions d') = Some (transfer_row E cmd currency)"
    unfolding fresh(5) by (simp add: row_simps find_append new)
  moreover have "order_entries (legs_of d' (new_uuid E 0)) =
      [leg_row E cmd currency 2 (cmd_CreditAccountID cmd) Credit_leg,
       leg_row E cmd currency 1 (cmd_DebitAccountID cmd) Debit_leg]"
    unfolding fresh(5) by (simp add: legs_of_after_transfer legs order_two_legs)
  ultimately show ?thesis
    using assms(4)
    by (simp add: Service_GetTransaction_def Store_repository_def Store_GetTransaction_def id
        scan_leg_row scanTransaction_def cur)
      (simp add: t transfer_txn_def leg_entry_def transfer_row_def Debit_def Credit_def cur)
next
  case (replay row)
  with assms(2) show ?thesis by (metis Result.select_convs(4) option.distinct(1))
qed

theorem transaction_reads_back_reversed_witness:
  "Service_GetTransaction (Store_repository (demo_env 30 9)) 10 demo_db1 =
     Inr ((transfer_txn (demo_env 10 5) (demo_cmd 2 1 300))
       \<lparr>txn_Entries := rev (txn_Entries (transfer_txn (demo_env 10 5) (demo_cmd 2 1 300)))\<rparr>)"
proof -
  have "txn_ID (transfer_txn (demo_env 10 5) (demo_cmd 2 1 300)) = 10"
    by (simp add: transfer_txn_def demo_env_def)
  moreover have "res_Transaction demo_res1 = Some (transfer_txn (demo_env 10 5) (demo_cmd 2 1 300))"
    by (simp add: demo_res1_def)
  ultimately show ?thesis
    using transaction_reads_back_reversed [OF demo_run1_eq _ demo_ledger_inv demo_no_faults] by metis
qed

text \<open>
  An account that was created reads back with the name, kind, currency and floor it
  was asked for, a zero balance and equal creation and update times.
\<close>

theorem account_reads_back:
  assumes "Service_CreateAccount (Store_repository E) new_id cmd d = (Inr a, d')" and "no_faults E2"
  shows "Service_GetAccount (Store_repository E2) new_id d' = Inr a
    \<and> acc_Name a = cac_Name cmd \<and> acc_Kind a = cac_Kind cmd \<and> acc_Currency a = cac_Currency cmd
    \<and> acc_AllowNegativeBalance a = cac_AllowNegativeBalance cmd \<and> acc_Balance a = 0
    \<and> acc_CreatedAt a = acc_UpdatedAt a"
proof -
  from assms(1) have valid: "CreateAccountCommand_Validate cmd = None"
    and run: "Store_CreateAccount E (new_account new_id cmd) d = (Inr a, d')"
    by (auto simp: Service_CreateAccount_def Store_repository_def split: option.splits prod.splits sum.splits)
  from run obtain row where row: "account_row_of E (new_account new_id cmd) = Inr row"
    and ins: "insert_account (acc_ID (new_account new_id cmd)) row d = Inr d'"
    and a: "a = (new_account new_id cmd)\<lparr>acc_CreatedAt := now E, acc_UpdatedAt := now E\<rparr>"
    by (cases rule: Store_CreateAccount_cases) auto
  from ins have d': "accounts d' new_id = Some row"
    by (auto simp: insert_account_def new_account_def split: if_splits)
  from row valid have "row = \<lparr>ar_name = cac_Name cmd, ar_kind = the (kind_of_label (cac_Kind cmd)),
      ar_currency = cac_Currency cmd, ar_balance = 0,
      ar_allow_negative_balance = cac_AllowNegativeBalance cmd,
      ar_created_at = now E, ar_updated_at = now E\<rparr>"
    by (auto simp: account_row_of_def new_account_def CreateAccountCommand_Validate_None
        split: sum.splits option.splits dest: char3_param_valid_unchanged)
  moreover have "kind_label (the (kind_of_label (cac_Kind cmd))) = cac_Kind cmd"
    using row by (auto simp: account_row_of_def new_account_def dest: kind_of_label_SomeD
        split: sum.splits option.splits)
  ultimately have "scanAccount new_id row = a" by (simp add: scanAccount_def a new_account_def)
  with d' assms(2) show ?thesis
    by (simp add: Service_GetAccount_def Store_repository_def Store_GetAccount_def)
      (simp add: a new_account_def)
qed

theorem account_reads_back_witness:
  "\<exists>a. Service_GetAccount (Store_repository (demo_env 0 3)) 1 demo_s1 = Inr a \<and> acc_Name a = ''external''"
proof -
  let ?r = "Service_CreateAccount (Store_repository (demo_env 0 0)) 1 (demo_account ''external'' True) empty_db"
  have "isl (fst ?r) = False" by code_simp
  then obtain a where "fst ?r = Inr a" by (cases "fst ?r") simp_all
  then have "?r = (Inr a, demo_s1)" by (simp add: demo_s1_def prod_eq_iff)
  from account_reads_back [OF this demo_no_faults, of 0 3] show ?thesis
    by (auto simp: demo_account_def)
qed

section \<open>Locks\<close>

text \<open>
  The rows of a transfer are locked in ascending order of their ids, each once, and in
  the same order whichever account is debited, so that opposite transfers between two
  accounts ask for their locks in the same order.
\<close>

lemma locks_ordered:
  "sorted (lock_order [a, b]) \<and> distinct (lock_order [a, b]) \<and> set (lock_order [a, b]) = {a, b}
   \<and> lock_order [a, b] = lock_order [b, a]"
proof -
  have "lock_order [a, b] = lock_order [b, a]"
    by (intro sorted_distinct_set_unique) auto
  then show ?thesis by auto
qed

section \<open>Pure rules\<close>

text \<open>
  C36. A currency is accepted exactly when it is three bytes, each an upper-case ASCII
  letter: the rune loop over UTF-8 accepts nothing else, overlong or multi-byte encodings
  included.
\<close>

theorem valid_currency_ascii:
  "ValidCurrency s \<longleftrightarrow> (\<exists>a b c. s = [a, b, c] \<and> (\<forall>x \<in> {a, b, c}. of_char x \<in> {65 .. 90 :: nat}))"
proof -
  have "length s = 3 \<longleftrightarrow> (\<exists>a b c. s = [a, b, c])"
    by (auto simp: numeral_3_eq_3 length_Suc_conv)
  then show ?thesis by (auto simp: ValidCurrency_iff byte_def)
qed

theorem valid_currency_ascii_witness:
  "ValidCurrency ''BRL'' \<and> \<not> ValidCurrency ''brl''"
proof -
  have "ValidCurrency ''BRL''"
    by (subst valid_currency_ascii) simp
  moreover have "\<not> ValidCurrency ''brl''"
    by (subst valid_currency_ascii) simp
  ultimately show ?thesis ..
qed

text \<open>
  \<open>Balanced\<close> adds in 64 bits. It never rejects entries whose exact sum is zero, and it
  accepts others only when the exact sum reaches a multiple of \<open>2 ^ 64\<close>, which the two legs
  of a transfer cannot.
\<close>

theorem balanced_exact:
  assumes "\<bar>exact_sum (txn_Entries t)\<bar> < 2 ^ 64"
  shows "Balanced t \<longleftrightarrow> exact_sum (txn_Entries t) = 0"
  using word_of_int_zero_small [OF assms]
  by (simp add: Balanced_sum sum_SignedAmount_of_exact)

theorem balanced_exact_witness:
  "Balanced (transfer_txn (demo_env 10 5) (demo_cmd 2 1 300)) \<longleftrightarrow>
     exact_sum (txn_Entries (transfer_txn (demo_env 10 5) (demo_cmd 2 1 300))) = 0"
  by (rule balanced_exact)
    (simp add: exact_sum_def transfer_txn_def leg_entry_def SignedAmount_def demo_cmd_def)

end
