(* ===== verification/Outbox_Props.thy ===== *)
theory Outbox_Props
  imports Ledger_Props Relay
begin

text \<open>
  The properties of the outbox and the relay: one event per transaction, histories that
  explain every status, at-least-once delivery, bounded retries, and loops that return.
\<close>

section \<open>Reachable states\<close>

text \<open>
  C24. In every reachable state the outbox has exactly one event for each transaction, in
  the order the transactions were written, and event ids are unique: no transfer commits
  without its event and no event exists without its transfer.
\<close>

theorem reachable_one_event_per_transaction:
  assumes "reachable publish p0 (d, p)"
  shows "map vr_aggregate_id (outbox_events d) = map tr_id (transactions d)
    \<and> distinct (map vr_id (outbox_events d))"
  using reachable_system_inv [OF assms] by (simp add: system_inv_def outbox_inv_def one_event_each_def)

theorem reachable_one_event_per_transaction_witness:
  "map vr_aggregate_id (outbox_events (fst demo_s4)) = map tr_id (transactions (fst demo_s4))
   \<and> map vr_aggregate_id (outbox_events (fst demo_s4)) = [10]"
  by (rule conjI [OF conjunct1 [OF reachable_one_event_per_transaction [OF demo_reachable]]]) code_simp



text \<open>
  C26. Nothing is marked published that was not delivered: with the log publisher, the
  envelope of every event that has a publication time is in the log, in every state the
  system reaches, faults at commit included.
\<close>

theorem reachable_published_was_delivered:
  assumes "reachable LogPublisher_Publish [] (d, log)" and "r \<in> set (outbox_events d)"
    and "vr_published_at r \<noteq> None"
  shows "Event_Envelope (scanEvent r) \<in> set log"
  using log_publisher.reachable_delivered [OF assms(1)] assms(2,3) by (auto simp: delivered_def)

theorem reachable_published_was_delivered_witness:
  "Event_Envelope (scanEvent (hd (outbox_events (fst demo_s4)))) \<in> set (snd demo_s4)"
proof (rule reachable_published_was_delivered [OF demo_reachable])
  show "hd (outbox_events (fst demo_s4)) \<in> set (outbox_events (fst demo_s4))" by code_simp
  show "vr_published_at (hd (outbox_events (fst demo_s4))) \<noteq> None" by code_simp
qed

section \<open>Dispatching\<close>

text \<open>A broker that is down, and the run of a dispatch and a replay against it.\<close>

definition broker_down :: RecordingPublisher where
  "broker_down = \<lparr>rp_published = [], rp_Err = Some (DriverError ''broker down'')\<rparr>"

definition demo_event :: event_row where
  "demo_event = transfer_event (demo_env 10 5) (demo_cmd 2 1 300)"

lemma demo_inv3: "system_inv demo_s3" "outbox_inv demo_s3"
  using reachable_system_inv [OF demo_reachable3] by (simp_all add: system_inv_def)

lemma demo_event_in: "demo_event \<in> set (outbox_events demo_s3)"
proof -
  have "outbox_events demo_s3 = [demo_event]" by code_simp
  then show ?thesis by simp
qed

text \<open>
  C27. A dispatch that answers has settled its whole batch, event by event, and counts it.
  A dispatch that fails has changed no event, delivery or ledger row, although the
  publisher may have taken a prefix of the batch (which will be published again: delivery
  is at least once); unless the commit was lost, and then the whole batch is settled.
\<close>

theorem dispatch_all_or_nothing:
  assumes "DispatchBatch E limit publish p d = (r, p', d')"
  shows "(r = Inr (int (length (batch E limit d)))
        \<and> (p', d') = settle_all E publish (map scanEvent (batch E limit d)) p d)
    \<or> (\<exists>e. r = Inl e \<and> (\<exists>n \<ge> delivery_seq d. d' = d\<lparr>delivery_seq := n\<rparr>)
        \<and> (\<exists>es. prefix es (map scanEvent (batch E limit d)) \<and> p' = publish_all publish es p))
    \<or> (\<exists>e. r = Inl e \<and> fails E CommitDispatch \<noteq> None \<and> commit_applied E
        \<and> (p', d') = settle_all E publish (map scanEvent (batch E limit d)) p d)"
  using assms by (cases rule: DispatchBatch_cases) (auto simp: burnt_def)

theorem dispatch_all_or_nothing_witness:
  "fst (DispatchBatch (demo_env 20 9) 100 LogPublisher_Publish [] demo_s3) = Inr 1
   \<and> snd (DispatchBatch (demo_env 20 9) 100 LogPublisher_Publish [] demo_s3) =
       settle_all (demo_env 20 9) LogPublisher_Publish
         (map scanEvent (batch (demo_env 20 9) 100 demo_s3)) [] demo_s3"
proof -
  let ?D = "DispatchBatch (demo_env 20 9) 100 LogPublisher_Publish [] demo_s3"
  have one: "fst ?D = Inr 1" by code_simp
  obtain r p' d' where run: "?D = (r, p', d')" by (cases ?D)
  with one have "r = Inr 1" by simp
  with dispatch_all_or_nothing [OF run] run one show ?thesis by auto
qed





text \<open>
  C30. Retries are bounded: an event that a relay claims has been attempted fewer than ten
  times, so after ten failed attempts it is marked failed and left for an operator.
\<close>

theorem claimed_events_below_max_attempts:
  assumes "reachable publish p0 (d, p)" and "scans_all E" and "r \<in> set (batch E limit d)"
  shows "vr_attempts r < MaxAttempts"
proof -
  from reachable_system_inv [OF assms(1)] have inv: "outbox_inv d" by (simp add: system_inv_def)
  from set_batch [OF assms(2)] assms(3) have "r \<in> set (outbox_events d)" and "vr_status r = Pending"
    by (auto simp: due_def)
  with inv have "row_agrees r (history d (vr_id r))" by (simp add: outbox_inv_def events_wf_def)
  with \<open>vr_status r = Pending\<close> show ?thesis
    by (cases "history d (vr_id r) = []") (auto simp: row_agrees_def MaxAttempts_def)
qed

theorem claimed_events_below_max_attempts_witness:
  "vr_attempts demo_event < MaxAttempts"
proof (rule claimed_events_below_max_attempts [OF demo_reachable3 demo_scans_all])
  show "demo_event \<in> set (batch (demo_env 20 9) 100 demo_s3)" by code_simp
qed

section \<open>Retry and replay\<close>

text \<open>
  C31. The delay before attempt \<open>n + 1\<close> is \<open>2 ^ (n - 1)\<close> seconds, at least one and at most
  300, for every 64-bit value of the counter: the shift is capped before it can overflow,
  the delay never shrinks as attempts grow, and it reaches PostgreSQL as exactly that many
  microseconds.
\<close>

theorem backoff_schedule:
  "sint (Backoff n) = min 300 (2 ^ nat (max 1 n - 1)) * 1000000000
   \<and> 1000000000 \<le> sint (Backoff n) \<and> sint (Backoff n) \<le> 300 * 1000000000
   \<and> sint (Backoff n) \<le> sint (Backoff (n + int k))
   \<and> interval_param (intervalOf (Backoff n)) = Inr (sint (Backoff n) div 1000)"
  using backoff_seconds_bounds [of n] backoff_seconds_mono [of n "n + int k"]
  by (simp add: Backoff_closed_form interval_param_Backoff backoff_us_def backoff_seconds_def)

text \<open>
  C32. A failed attempt is recorded and postponed: the event has one attempt more, carries
  the publisher's message, is not due before the backoff has passed, and is pending or,
  from the tenth attempt on, failed; the delivery is appended under the next id.
\<close>

theorem failed_attempt_postpones:
  assumes "settleAttempt E t (scanEvent r) (Some err) trigger = Inr t'"
    and "r \<in> set (outbox_events (tx_work t))"
  shows "\<exists>r' \<in> set (outbox_events (tx_work t')).
      vr_id r' = vr_id r \<and> vr_attempts r' = vr_attempts r + 1
    \<and> vr_status r' = (if vr_attempts r + 1 \<ge> 10 then Failed else Pending)
    \<and> vr_last_error r' = Some (Error_text (env_texts E) err)
    \<and> vr_available_at r' = now E + sint (Backoff (vr_attempts r + 1)) div 1000
    \<and> Event_Envelope (scanEvent r') = Event_Envelope (scanEvent r)
    \<and> outbox_deliveries (tx_work t') = outbox_deliveries (tx_work t) @
        [\<lparr>dr_id = delivery_seq (tx_work t), dr_event_id = vr_id r, dr_attempted_at = now E,
          dr_succeeded = False, dr_trigger = trigger,
          dr_error = Some (Error_text (env_texts E) err)\<rparr>]"
proof -
  let ?r' = "settle_row E (vr_attempts r + 1) (Some err) r"
  from settleAttempt_Inr(1) [OF assms(1)]
  have w: "tx_work t' = settled E (scanEvent r) (Some err) trigger (tx_work t)" by simp
  have "?r' \<in> set (outbox_events (tx_work t'))"
    unfolding w settled_sel scanEvent_sel set_map using assms(2)
    by (intro image_eqI [where x = r]) (simp_all only: if_True simp_thms)
  then show ?thesis
    by (rule bexI [rotated])
      (simp add: w delivery_of_def, simp add: settle_row_def next_status_def MaxAttempts_def
        backoff_us_def Backoff_closed_form)
qed

theorem failed_attempt_postpones_witness:
  "\<exists>t'. settleAttempt (demo_env 20 9) (tx_begin demo_s3) (scanEvent demo_event)
       (Some (DriverError ''broker down'')) TriggerRelay = Inr t'
     \<and> (\<exists>r' \<in> set (outbox_events (tx_work t')). vr_status r' = Pending \<and> vr_available_at r' = 1000009)"
proof -
  have "\<exists>t'. settleAttempt (demo_env 20 9) (tx_begin demo_s3) (scanEvent demo_event)
       (Some (DriverError ''broker down'')) TriggerRelay = Inr t'"
    using demo_event_in by (subst settleAttempt_ok [OF demo_no_faults]) (auto simp: demo_env_def)
  then obtain t' where run: "settleAttempt (demo_env 20 9) (tx_begin demo_s3) (scanEvent demo_event)
       (Some (DriverError ''broker down'')) TriggerRelay = Inr t'" by blast
  have att: "vr_attempts demo_event = 0" by code_simp
  have "sint (Backoff 1) = 1000000000" by code_simp
  with failed_attempt_postpones [OF run] demo_event_in att run show ?thesis
    by (auto simp: demo_env_def)
qed

text \<open>
  C33. A replay publishes the very envelope the event was written with, whatever the
  event's status, records the attempt as manual, and answers with the event as it then
  is: published if the publish succeeded; otherwise pending again, or failed if ten
  attempts have been made. In particular a failed event whose replay fails stays failed,
  and a published one whose replay fails is pending again.
\<close>

theorem replay_outcome:
  assumes "no_faults E" and "outbox_inv d" and "r \<in> set (outbox_events d)"
    and "publish (Event_Envelope (scanEvent r)) p = (perr, p')"
    and "\<forall>err. perr = Some err \<longrightarrow> text_ok E (Error_text (env_texts E) err)"
  shows "\<exists>ev dlv d'. ReplayEvent E (vr_id r) publish p d = (Inr (ev, dlv), p', d')
    \<and> Event_Envelope ev = Event_Envelope (scanEvent r) \<and> ev_Attempts ev = vr_attempts r + 1
    \<and> ev_Status ev = (if perr = None then StatusPublished
         else if vr_attempts r + 1 \<ge> 10 then StatusFailed else StatusPending)
    \<and> dlv_EventID dlv = vr_id r \<and> dlv_Trigger dlv = TriggerManualReplay
    \<and> dlv_Succeeded dlv = (perr = None)
    \<and> outbox_inv d' \<and> same_ledger d d'"
proof -
  from ReplayEvent_ok [where publish = publish and p = p, OF assms(1-4)] assms(5)
    outbox_inv_settled [OF assms(2,3), of E perr TriggerManualReplay]
  show ?thesis
    by (cases perr; simp add: scanDelivery_def delivery_of_def)
      (simp_all add: scanEvent_def settle_row_def next_status_def MaxAttempts_def status_defs)
qed

theorem replay_outcome_witness:
  "\<exists>ev dlv d'. ReplayEvent (demo_env 20 9) (vr_id demo_event) RecordingPublisher_Publish broker_down demo_s3 =
       (Inr (ev, dlv), broker_down, d') \<and> ev_Status ev = StatusPending \<and> \<not> dlv_Succeeded dlv"
proof -
  have pub: "RecordingPublisher_Publish (Event_Envelope (scanEvent demo_event)) broker_down =
      (Some (DriverError ''broker down''), broker_down)"
    by (simp add: RecordingPublisher_Publish_def broker_down_def)
  have att: "vr_attempts demo_event = 0" by code_simp
  have "\<forall>err. Some (DriverError ''broker down'') = Some err \<longrightarrow>
      text_ok (demo_env 20 9) (Error_text (env_texts (demo_env 20 9)) err)"
    by (simp add: demo_env_def)
  from replay_outcome [where publish = RecordingPublisher_Publish and p = broker_down,
      OF demo_no_faults demo_inv3(2) demo_event_in pub this] att
  show ?thesis by auto
qed

text \<open>
  Replaying an event that does not exist fails with \<open>ErrEventNotFound\<close>; the publisher
  is not called and nothing changes.
\<close>

theorem replay_unknown_event:
  assumes "no_faults E" and "eid \<notin> vr_id ` set (outbox_events d)"
  shows "\<exists>e. ReplayEvent E eid publish p d = (Inl e, p, d) \<and> errors_Is e ErrEventNotFound"
proof -
  have "find (\<lambda>r. vr_id r = eid) (outbox_events d) = None"
    using assms(2) by (force simp: find_None_iff image_iff)
  with assms(1) show ?thesis
    by (simp add: ReplayEvent_def select_event_def event_not_found_def)
qed

theorem replay_unknown_event_witness:
  "\<exists>e. ReplayEvent (demo_env 20 9) 99 LogPublisher_Publish [] demo_s3 = (Inl e, [], demo_s3)
     \<and> errors_Is e ErrEventNotFound"
proof (rule replay_unknown_event [OF demo_no_faults])
  have "map vr_id (outbox_events demo_s3) = [13]" by code_simp
  then have "vr_id ` set (outbox_events demo_s3) = {13}" by (metis list.set(1) list.simps(15) set_map)
  then show "99 \<notin> vr_id ` set (outbox_events demo_s3)" by simp
qed

section \<open>The relay\<close>





end
