(* ===== verification/Utf8.thy ===== *)
theory Utf8
  imports Domain
begin

text \<open>
  \<open>unicode/utf8\<close> on strings: encoding a rune, decoding the first rune of a string, and
  the strings that are valid UTF-8.
\<close>

section \<open>Runes and UTF-8\<close>

abbreviation chr :: "nat \<Rightarrow> char" where
  "chr n \<equiv> char_of n"

definition scalar :: "nat \<Rightarrow> bool" where
  "scalar r \<longleftrightarrow> r < 1114112 \<and> \<not> (55296 \<le> r \<and> r < 57344)"

definition encode_rune :: "nat \<Rightarrow> string" where
  "encode_rune r =
     (if r < 128 then [chr r]
      else if r < 2048 then [chr (192 + r div 64), chr (128 + r mod 64)]
      else if r < 65536 then
        [chr (224 + r div 4096), chr (128 + r div 64 mod 64), chr (128 + r mod 64)]
      else [chr (240 + r div 262144), chr (128 + r div 4096 mod 64),
            chr (128 + r div 64 mod 64), chr (128 + r mod 64)])"

text \<open>The first rune of a string and the number of its bytes.\<close>

definition first_rune :: "string \<Rightarrow> nat \<times> nat" where
  "first_rune s = decode_rune (map byte (take 4 s))"

lemma byte_chr: "n < 256 \<Longrightarrow> byte (chr n) = n"
  by (simp add: byte_def)

lemma base64_3: "r = r div 4096 * 4096 + r div 64 mod 64 * 64 + r mod (64::nat)"
proof -
  have "r div 4096 = r div 64 div 64" by (simp add: div_mult2_eq [symmetric])
  moreover have "r = r div 64 * 64 + r mod 64" "r div 64 = r div 64 div 64 * 64 + r div 64 mod 64"
    by (rule div_mult_mod_eq [symmetric])+
  ultimately show ?thesis by linarith
qed

lemma base64_4:
  "r = r div 262144 * 262144 + r div 4096 mod 64 * 4096 + r div 64 mod 64 * 64 + r mod (64::nat)"
proof -
  have "r div 262144 = r div 4096 div 64" by (simp add: div_mult2_eq [symmetric])
  moreover have "r div 4096 = r div 4096 div 64 * 64 + r div 4096 mod 64"
    by (rule div_mult_mod_eq [symmetric])
  ultimately show ?thesis using base64_3 [of r] by linarith
qed

lemma decode_rune2:
  assumes "2 \<le> a" "a < 32" "c < 64"
  shows "decode_rune ((192 + a) # (128 + c) # bs) = (a * 64 + c, 2)"
  using assms by (simp add: cont_def)

lemma decode_rune3:
  assumes "a < 16" "b < 64" "c < 64" "a = 0 \<Longrightarrow> 32 \<le> b" "a = 13 \<Longrightarrow> b < 32"
  shows "decode_rune ((224 + a) # (128 + b) # (128 + c) # bs) = (a * 4096 + b * 64 + c, 3)"
proof -
  have "a = 0 \<longrightarrow> 160 \<le> 128 + b" "224 + a = 237 \<longrightarrow> 128 + b < 160" using assms by auto
  then show ?thesis using assms(1-3) by (simp add: cont_def)
qed

lemma decode_rune4:
  assumes "a < 5" "b < 64" "c < 64" "e < 64" "a = 0 \<Longrightarrow> 16 \<le> b" "a = 4 \<Longrightarrow> b < 16"
  shows "decode_rune ((240 + a) # (128 + b) # (128 + c) # (128 + e) # bs) =
    (a * 262144 + b * 4096 + c * 64 + e, 4)"
proof -
  have "a = 0 \<longrightarrow> 144 \<le> 128 + b" "240 + a = 244 \<longrightarrow> 128 + b < 144" using assms by auto
  then show ?thesis using assms(1-4) by (simp add: cont_def)
qed

lemma first_rune_encode:
  assumes "scalar r"
  shows "first_rune (encode_rune r @ s) = (r, length (encode_rune r))"
proof -
  consider "r < 128" | "128 \<le> r" "r < 2048" | "2048 \<le> r" "r < 65536" | "65536 \<le> r" "r < 1114112"
    using assms unfolding scalar_def by linarith
  then show ?thesis
  proof cases
    case 1
    then show ?thesis by (simp add: first_rune_def encode_rune_def byte_chr)
  next
    case 2
    define a c where "a = r div 64" and "c = r mod 64"
    have r: "r = a * 64 + c" unfolding a_def c_def by presburger
    have c: "c < 64" by (simp add: c_def)
    have a: "2 \<le> a" "a < 32" using 2 by (simp_all add: a_def)
    have "encode_rune r = [chr (192 + a), chr (128 + c)]"
      using 2 by (simp add: encode_rune_def a_def c_def)
    then show ?thesis
      using a c r
      by (simp add: first_rune_def byte_chr decode_rune2 [OF a c] del: decode_rune.simps)
  next
    case 3
    define a b c where "a = r div 4096" and "b = r div 64 mod 64" and "c = r mod 64"
    have r: "r = a * 4096 + b * 64 + c" unfolding a_def b_def c_def by (rule base64_3)
    have bounds: "b < 64" "c < 64" by (simp_all add: b_def c_def)
    have a: "a < 16" using 3 by (simp add: a_def)
    have low: "a = 0 \<Longrightarrow> 32 \<le> b" using 3 r bounds by linarith
    have surrogate: "a = 13 \<Longrightarrow> b < 32" using assms r bounds unfolding scalar_def by linarith
    have "encode_rune r = [chr (224 + a), chr (128 + b), chr (128 + c)]"
      using 3 by (simp add: encode_rune_def a_def b_def c_def)
    then show ?thesis
      using a bounds r
      by (simp add: first_rune_def byte_chr decode_rune3 [OF a bounds low surrogate]
          del: decode_rune.simps)
  next
    case 4
    define a b c e where "a = r div 262144" and "b = r div 4096 mod 64" and "c = r div 64 mod 64"
      and "e = r mod 64"
    have r: "r = a * 262144 + b * 4096 + c * 64 + e" unfolding a_def b_def c_def e_def
      by (rule base64_4)
    have bounds: "b < 64" "c < 64" "e < 64" by (simp_all add: b_def c_def e_def)
    have a: "a < 5" using 4 by (simp add: a_def)
    have low: "a = 0 \<Longrightarrow> 16 \<le> b" using 4 r bounds by linarith
    have high: "a = 4 \<Longrightarrow> b < 16" using 4 r bounds by linarith
    have "encode_rune r = [chr (240 + a), chr (128 + b), chr (128 + c), chr (128 + e)]"
      using 4 by (simp add: encode_rune_def a_def b_def c_def e_def)
    then show ?thesis
      using a bounds r
      by (simp add: first_rune_def byte_chr decode_rune4 [OF a bounds low high]
          del: decode_rune.simps)
  qed
qed

lemma scalar_error [simp]: "scalar rune_error"
  by (simp add: scalar_def)

lemma rune2_scalar: "194 \<le> b \<Longrightarrow> b < 224 \<Longrightarrow> scalar (fst (rune2 b bs))"
  by (induct b bs rule: rune2.induct) (auto simp: scalar_def cont_def)

lemma rune3_scalar: "224 \<le> b \<Longrightarrow> b < 240 \<Longrightarrow> scalar (fst (rune3 b bs))"
proof (induct b bs rule: rune3.induct)
  case (1 b c1 c2 bs)
  consider "b \<le> 236" | "b = 237" | "238 \<le> b" by linarith
  then show ?case using 1 by cases (auto simp: scalar_def cont_def)
qed simp_all

lemma rune4_scalar: "240 \<le> b \<Longrightarrow> b < 245 \<Longrightarrow> scalar (fst (rune4 b bs))"
  by (induct b bs rule: rune4.induct) (auto simp: scalar_def cont_def)

lemma decode_rune_scalar: "scalar (fst (decode_rune bs))"
  by (cases bs) (auto simp: rune2_scalar rune3_scalar rune4_scalar, simp_all add: scalar_def)

lemma first_rune_scalar: "scalar (fst (first_rune s))"
  by (simp add: first_rune_def decode_rune_scalar)

lemma first_rune_width: "s \<noteq> [] \<Longrightarrow> 0 < snd (first_rune s)"
  by (simp add: first_rune_def decode_rune_width)

lemma encode_rune_nonempty [simp]: "encode_rune r \<noteq> []"
  by (simp add: encode_rune_def)

lemma hd_encode_rune: "\<not> r < 128 \<Longrightarrow> scalar r \<Longrightarrow> \<not> byte (hd (encode_rune r)) < 128"
  by (auto simp: encode_rune_def scalar_def byte_def)

lemma encode_ascii: "byte c < 128 \<Longrightarrow> encode_rune (byte c) = [c]"
  by (simp add: encode_rune_def byte_def)

lemma byte_scalar: "byte c < 128 \<Longrightarrow> scalar (byte c)"
  by (simp add: scalar_def)

lemma runes_code [code]:
  "runes [] = []"
  "runes (b # bs) = fst (decode_rune (b # bs)) # runes (drop (snd (decode_rune (b # bs))) (b # bs))"
  by (simp_all add: runes.simps [of "b # bs"])

lemma runes_ascii: "list_all (\<lambda>b. b < 128) bs \<Longrightarrow> runes bs = bs"
proof (induction bs)
  case (Cons b bs)
  then show ?case by (simp add: runes.simps [of "b # bs"] decode_rune_ascii)
qed simp

section \<open>Valid strings\<close>

definition encode_runes :: "nat list \<Rightarrow> string" where
  "encode_runes rs = concat (map encode_rune rs)"

lemma encode_runes_simps [simp]:
  "encode_runes [] = []" "encode_runes (r # rs) = encode_rune r @ encode_runes rs"
  "encode_runes (rs @ rs') = encode_runes rs @ encode_runes rs'"
  by (simp_all add: encode_runes_def)

definition utf8 :: "string \<Rightarrow> bool" where
  "utf8 s \<longleftrightarrow> (\<exists>rs. list_all scalar rs \<and> s = encode_runes rs)"

lemma utf8_Nil [simp]: "utf8 []"
  unfolding utf8_def by (rule exI [of _ "[]"]) simp

lemma utf8_append: "utf8 s \<Longrightarrow> utf8 t \<Longrightarrow> utf8 (s @ t)"
  unfolding utf8_def using encode_runes_simps(3) list_all_append by metis

lemma utf8_rune: "scalar r \<Longrightarrow> utf8 (encode_rune r)"
  unfolding utf8_def by (rule exI [of _ "[r]"]) simp

lemma utf8_ascii: "byte c < 128 \<Longrightarrow> utf8 [c]"
  using utf8_rune [OF byte_scalar] by (metis encode_ascii)

lemma utf8_ascii_string: "list_all (\<lambda>c. byte c < 128) s \<Longrightarrow> utf8 s"
  by (induction s) (use utf8_append utf8_ascii in fastforce)+

lemma utf8_induct [consumes 1, case_names Nil rune]:
  assumes "utf8 s" and "P []"
    and "\<And>r s. scalar r \<Longrightarrow> utf8 s \<Longrightarrow> P s \<Longrightarrow> P (encode_rune r @ s)"
  shows "P s"
proof -
  from assms(1) obtain rs where rs: "list_all scalar rs" "s = encode_runes rs"
    by (auto simp: utf8_def)
  have "P (encode_runes rs)" using rs(1)
  proof (induction rs)
    case (Cons r rs)
    then have "utf8 (encode_runes rs)" by (auto simp: utf8_def)
    with Cons assms(3) show ?case by simp
  qed (use assms(2) in simp)
  with rs(2) show ?thesis by simp
qed

end
