(* ===== verification/Json_Lex.thy ===== *)
theory Json_Lex
  imports Json Utf8
begin

text \<open>
  The lexical level of \<open>encoding/json\<close>: numbers as the automaton of Go's scanner reads
  them, string literals with their escapes, and the tokens of a text. A literal the
  scanner rejects, or that the text cuts short, is the token \<open>TBad\<close>.
\<close>

section \<open>Numbers\<close>

text \<open>The states of Go's scanner inside a number: \<open>stateNeg\<close>, \<open>state0\<close>, \<open>state1\<close>, \<dots>\<close>

datatype num_state = NNeg | NZero | NInt | NDot | NFrac | NE | NESign | NExp

definition is_digit :: "char \<Rightarrow> bool" where
  "is_digit c \<longleftrightarrow> 48 \<le> byte c \<and> byte c \<le> 57"

definition is_exp :: "char \<Rightarrow> bool" where
  "is_exp c \<longleftrightarrow> c = CHR ''e'' \<or> c = CHR ''E''"

fun num_step :: "num_state \<Rightarrow> char \<Rightarrow> num_state option" where
  "num_step NNeg c = (if c = CHR ''0'' then Some NZero else if is_digit c then Some NInt else None)"
| "num_step NZero c =
     (if c = CHR ''.'' then Some NDot else if is_exp c then Some NE else None)"
| "num_step NInt c =
     (if is_digit c then Some NInt else if c = CHR ''.'' then Some NDot
      else if is_exp c then Some NE else None)"
| "num_step NDot c = (if is_digit c then Some NFrac else None)"
| "num_step NFrac c =
     (if is_digit c then Some NFrac else if is_exp c then Some NE else None)"
| "num_step NE c =
     (if c = CHR ''+'' \<or> c = CHR ''-'' then Some NESign else if is_digit c then Some NExp else None)"
| "num_step NESign c = (if is_digit c then Some NExp else None)"
| "num_step NExp c = (if is_digit c then Some NExp else None)"

definition num_accepts :: "num_state \<Rightarrow> bool" where
  "num_accepts q \<longleftrightarrow> q \<in> {NZero, NInt, NFrac, NExp}"

text \<open>The literal, and what is left of the text after it.\<close>

fun num_run :: "num_state \<Rightarrow> string \<Rightarrow> (string \<times> string) option" where
  "num_run q [] = (if num_accepts q then Some ([], []) else None)"
| "num_run q (c # s) =
     (case num_step q c of
        Some q' \<Rightarrow> map_option (apfst ((#) c)) (num_run q' s)
      | None \<Rightarrow> if num_accepts q then Some ([], c # s) else None)"

fun lex_number :: "string \<Rightarrow> (string \<times> string) option" where
  "lex_number [] = None"
| "lex_number (c # s) =
     (if c = CHR ''-'' then map_option (apfst ((#) c)) (num_run NNeg s)
      else if c = CHR ''0'' then map_option (apfst ((#) c)) (num_run NZero s)
      else if is_digit c then map_option (apfst ((#) c)) (num_run NInt s)
      else None)"

definition valid_number :: "string \<Rightarrow> bool" where
  "valid_number l \<longleftrightarrow> lex_number l = Some (l, [])"

text \<open>A character that continues no number.\<close>

definition stops :: "string \<Rightarrow> bool" where
  "stops t \<longleftrightarrow> (t = [] \<or> (\<forall>q. num_step q (hd t) = None))"

lemma num_run_sound:
  "num_run q s = Some (l, r) \<Longrightarrow> s = l @ r \<and> num_run q l = Some (l, [])"
  by (induction q s arbitrary: l rule: num_run.induct) (auto split: option.splits if_splits)

lemma num_run_extend:
  "num_run q l = Some (l, []) \<Longrightarrow> stops t \<Longrightarrow> num_run q (l @ t) = Some (l, t)"
proof (induction q l rule: num_run.induct)
  case (1 q)
  then show ?case by (cases t) (auto simp: stops_def split: if_splits)
next
  case (2 q c s)
  then show ?case by (auto split: option.splits if_splits)
qed

lemma lex_number_sound: "lex_number s = Some (l, r) \<Longrightarrow> s = l @ r \<and> valid_number l"
  by (cases s) (auto simp: valid_number_def dest: num_run_sound split: if_splits)

lemma lex_number_extend:
  "valid_number l \<Longrightarrow> stops t \<Longrightarrow> lex_number (l @ t) = Some (l, t)"
  by (cases l) (auto simp: valid_number_def num_run_extend split: if_splits)

lemma valid_number_nonempty: "valid_number l \<Longrightarrow> l \<noteq> []"
  by (auto simp: valid_number_def)

lemma lex_number_length: "lex_number s = Some (l, r) \<Longrightarrow> length r < length s"
  using lex_number_sound [of s l r] valid_number_nonempty [of l] by auto

section \<open>String literals\<close>

definition quote_char :: char where "quote_char = CHR 0x22"
definition backslash :: char where "backslash = CHR 0x5C"

definition hex_value :: "char \<Rightarrow> nat option" where
  "hex_value c =
     (if is_digit c then Some (byte c - 48)
      else if 97 \<le> byte c \<and> byte c \<le> 102 then Some (byte c - 87)
      else if 65 \<le> byte c \<and> byte c \<le> 70 then Some (byte c - 55) else None)"

text \<open>\<open>getu4\<close>, after the \<open>\u\<close>: the value of four hexadecimal digits.\<close>

fun hex4 :: "string \<Rightarrow> nat option" where
  "hex4 (a # b # c # d # _) =
     (case (hex_value a, hex_value b, hex_value c, hex_value d) of
        (Some w, Some x, Some y, Some z) \<Rightarrow> Some (w * 4096 + x * 256 + y * 16 + z)
      | _ \<Rightarrow> None)"
| "hex4 _ = None"

definition high_surrogate :: "nat \<Rightarrow> bool" where
  "high_surrogate r \<longleftrightarrow> 55296 \<le> r \<and> r < 56320"

definition low_surrogate :: "nat \<Rightarrow> bool" where
  "low_surrogate r \<longleftrightarrow> 56320 \<le> r \<and> r < 57344"

text \<open>
  A surrogate is replaced by U+FFFD unless it is the first half of a pair; the number is
  that of the characters read after the backslash.
\<close>

definition unicode_escape :: "nat \<Rightarrow> string \<Rightarrow> string \<times> nat" where
  "unicode_escape r s =
     (if high_surrogate r \<or> low_surrogate r then
        (case (if take 2 s = [backslash, CHR ''u''] then hex4 (drop 2 s) else None) of
           None \<Rightarrow> (encode_rune rune_error, 5)
         | Some r2 \<Rightarrow>
             if high_surrogate r \<and> low_surrogate r2
             then (encode_rune (65536 + (r - 55296) * 1024 + (r2 - 56320)), 11)
             else (encode_rune rune_error, 5))
      else (encode_rune r, 5))"

fun unescape :: "string \<Rightarrow> (string \<times> nat) option" where
  "unescape [] = None"
| "unescape (c # s) =
     (if c = quote_char \<or> c = backslash \<or> c = CHR ''/'' then Some ([c], 1)
      else if c = CHR ''b'' then Some ([CHR 0x08], 1)
      else if c = CHR ''f'' then Some ([CHR 0x0C], 1)
      else if c = CHR ''n'' then Some ([CHR 0x0A], 1)
      else if c = CHR ''r'' then Some ([CHR 0x0D], 1)
      else if c = CHR ''t'' then Some ([CHR 0x09], 1)
      else if c = CHR ''u'' then
        (case hex4 s of None \<Rightarrow> None | Some r \<Rightarrow> Some (unicode_escape r (drop 4 s)))
      else None)"

lemma unescape_width: "unescape s = Some (x, n) \<Longrightarrow> 0 < n"
  by (cases s) (auto simp: unicode_escape_def split: if_splits option.splits)

text \<open>The contents of a literal after its opening quote, and the text after the closing one.\<close>

function str_body :: "string \<Rightarrow> (string \<times> string) option" where
  "str_body s =
     (case s of
        [] \<Rightarrow> None
      | c # s' \<Rightarrow>
          if c = quote_char then Some ([], s')
          else if c = backslash then
            (case unescape s' of
               None \<Rightarrow> None
             | Some (x, n) \<Rightarrow> map_option (apfst ((@) x)) (str_body (drop n s')))
          else if byte c < 32 then None
          else if byte c < 128 then map_option (apfst ((#) c)) (str_body s')
          else map_option (apfst ((@) (encode_rune (fst (first_rune s)))))
                 (str_body (drop (snd (first_rune s)) s)))"
  by pat_completeness auto
termination
  by (relation "measure length")
    (auto dest: unescape_width simp: first_rune_width intro!: diff_less)

declare str_body.simps [simp del]

lemma backslash_quote [simp]: "backslash \<noteq> quote_char" "quote_char \<noteq> backslash"
  by (simp_all add: quote_char_def backslash_def)

lemma letter_no_quote [simp]:
  "CHR ''u'' \<noteq> quote_char" "CHR ''u'' \<noteq> backslash" "CHR ''b'' \<noteq> quote_char" "CHR ''b'' \<noteq> backslash"
  "CHR ''f'' \<noteq> quote_char" "CHR ''f'' \<noteq> backslash" "CHR ''n'' \<noteq> quote_char" "CHR ''n'' \<noteq> backslash"
  "CHR ''r'' \<noteq> quote_char" "CHR ''r'' \<noteq> backslash" "CHR ''t'' \<noteq> quote_char" "CHR ''t'' \<noteq> backslash"
  by (simp_all add: quote_char_def backslash_def)

lemmas quote_no_letter [simp] = letter_no_quote [symmetric]

lemma str_body_Nil [simp]: "str_body [] = None"
  by (simp add: str_body.simps)

lemma str_body_quote [simp]: "str_body (quote_char # s) = Some ([], s)"
  by (simp add: str_body.simps)

lemma str_body_escape [simp]:
  "str_body (backslash # s) =
     (case unescape s of None \<Rightarrow> None
      | Some (x, n) \<Rightarrow> map_option (apfst ((@) x)) (str_body (drop n s)))"
  by (subst str_body.simps) simp

lemma str_body_control: "byte c < 32 \<Longrightarrow> str_body (c # s) = None"
  by (subst str_body.simps) (auto simp: quote_char_def backslash_def byte_def)

lemma str_body_ascii:
  "c \<noteq> quote_char \<Longrightarrow> c \<noteq> backslash \<Longrightarrow> \<not> byte c < 32 \<Longrightarrow> byte c < 128 \<Longrightarrow>
   str_body (c # s) = map_option (apfst ((#) c)) (str_body s)"
  by (subst str_body.simps) simp

lemma str_body_rune:
  "\<not> byte c < 128 \<Longrightarrow>
   str_body (c # s) = map_option (apfst ((@) (encode_rune (fst (first_rune (c # s))))))
     (str_body (drop (snd (first_rune (c # s))) (c # s)))"
  by (subst str_body.simps) (auto simp: quote_char_def backslash_def byte_def)

lemma hex_value_bound: "hex_value c = Some n \<Longrightarrow> n < 16"
  by (auto simp: hex_value_def is_digit_def split: if_splits)

lemma hex4_bound: "hex4 s = Some r \<Longrightarrow> r < 65536"
proof (induction s rule: hex4.induct)
  case (1 a b c d s)
  then obtain w x y z where v: "hex_value a = Some w" "hex_value b = Some x"
      "hex_value c = Some y" "hex_value d = Some z"
    and r: "r = w * 4096 + x * 256 + y * 16 + z"
    by (auto split: option.splits)
  from v have "w < 16" "x < 16" "y < 16" "z < 16" by (auto dest: hex_value_bound)
  with r show ?case by linarith
qed simp_all

lemma unicode_escape_utf8: "r < 65536 \<Longrightarrow> utf8 (fst (unicode_escape r s))"
proof -
  assume r: "r < 65536"
  have "high_surrogate r \<Longrightarrow> low_surrogate r2 \<Longrightarrow>
      scalar (65536 + (r - 55296) * 1024 + (r2 - 56320))" for r2
    by (auto simp: high_surrogate_def low_surrogate_def scalar_def)
  moreover have "\<not> (high_surrogate r \<or> low_surrogate r) \<Longrightarrow> scalar r"
    using r by (auto simp: high_surrogate_def low_surrogate_def scalar_def)
  ultimately show ?thesis
    by (simp add: unicode_escape_def utf8_rune split: option.split)
qed

lemma unescape_utf8: "unescape s = Some (x, n) \<Longrightarrow> utf8 x"
  using unicode_escape_utf8 [OF hex4_bound]
  by (cases s)
    (auto simp: utf8_ascii byte_def quote_char_def backslash_def split: if_splits option.splits
      dest!: arg_cong [where f = fst])

lemma str_body_sound: "str_body s = Some (x, r) \<Longrightarrow> length r < length s \<and> utf8 x"
proof (induction s arbitrary: x rule: str_body.induct)
  case (1 s)
  show ?case
  proof (cases s)
    case Nil
    with 1(4) show ?thesis by (simp add: str_body.simps [of "[]"])
  next
    case (Cons c s')
    consider (quote) "c = quote_char" | (escape) "c \<noteq> quote_char" "c = backslash"
      | (control) "c \<noteq> quote_char" "c \<noteq> backslash" "byte c < 32"
      | (ascii) "c \<noteq> quote_char" "c \<noteq> backslash" "\<not> byte c < 32" "byte c < 128"
      | (rune) "c \<noteq> quote_char" "c \<noteq> backslash" "\<not> byte c < 32" "\<not> byte c < 128"
      by blast
    then show ?thesis
    proof cases
      case escape
      with Cons 1(4) obtain y n x' where y: "unescape s' = Some (y, n)"
        "str_body (drop n s') = Some (x', r)" "x = y @ x'"
        by (auto split: option.splits)
      with 1(1) [OF Cons escape y(1) _ y(2)] have "length r < length (drop n s') \<and> utf8 x'" by simp
      with y Cons show ?thesis by (auto intro: utf8_append unescape_utf8)
    next
      case ascii
      with Cons 1(4) obtain x' where x': "str_body s' = Some (x', r)" "x = c # x'"
        by (auto simp: str_body_ascii)
      with 1(2) [OF Cons ascii x'(1)] Cons show ?thesis
        using utf8_append [OF utf8_ascii [OF ascii(4)]] by fastforce
    next
      case rune
      with Cons 1(4) obtain x' where x': "str_body (drop (snd (first_rune s)) s) = Some (x', r)"
        "x = encode_rune (fst (first_rune s)) @ x'"
        by (auto simp: str_body_rune)
      with 1(3) [OF Cons rune x'(1)] show ?thesis
        by (auto intro: utf8_append utf8_rune first_rune_scalar)
    qed (use Cons 1(4) in \<open>auto simp: str_body_control\<close>)
  qed
qed

lemmas str_body_length = str_body_sound [THEN conjunct1]
lemmas str_body_utf8 = str_body_sound [THEN conjunct2]

section \<open>Tokens\<close>

datatype token =
    TLBrack | TRBrack | TLBrace | TRBrace | TComma | TColon
  | TNull | TBool bool | TNum string | TStr string | TBad

definition is_ws :: "char \<Rightarrow> bool" where
  "is_ws c \<longleftrightarrow> byte c \<in> {9, 10, 13, 32}"

fun punctuation :: "char \<Rightarrow> token option" where
  "punctuation c =
     (if c = CHR ''['' then Some TLBrack else if c = CHR '']'' then Some TRBrack
      else if c = CHR ''{'' then Some TLBrace else if c = CHR ''}'' then Some TRBrace
      else if c = CHR '','' then Some TComma else if c = CHR '':'' then Some TColon else None)"

text \<open>The token a text starts with, and the text after it.\<close>

definition lex_one :: "string \<Rightarrow> (token \<times> string) option" where
  "lex_one s =
     (if hd s = quote_char then map_option (apfst TStr) (str_body (tl s))
      else if hd s = CHR ''-'' \<or> is_digit (hd s) then map_option (apfst TNum) (lex_number s)
      else if take 4 s = ''null'' then Some (TNull, drop 4 s)
      else if take 4 s = ''true'' then Some (TBool True, drop 4 s)
      else if take 5 s = ''false'' then Some (TBool False, drop 5 s)
      else map_option (\<lambda>t. (t, tl s)) (punctuation (hd s)))"

lemma lex_one_length: "s \<noteq> [] \<Longrightarrow> lex_one s = Some (t, r) \<Longrightarrow> length r < length s"
  by (cases s)
    (auto simp: lex_one_def simp del: lex_number.simps
      dest: str_body_length lex_number_length split: if_splits)

function lex_text :: "string \<Rightarrow> token list" where
  "lex_text [] = []"
| "lex_text (c # s) =
     (if is_ws c then lex_text s
      else case lex_one (c # s) of None \<Rightarrow> [TBad] | Some (t, r) \<Rightarrow> t # lex_text r)"
  by pat_completeness auto
termination
  by (relation "measure length") (auto dest: lex_one_length [rotated])

declare lex_text.simps(2) [simp del]

end
