(* ===== verification/Json_Text.thy ===== *)
theory Json_Text
  imports Json_Lex
begin

text \<open>
  The two directions of \<open>encoding/json\<close>: \<open>Decoder.Decode\<close> as a pushdown automaton over
  the tokens, with the nesting limit of Go's scanner, and \<open>Marshal\<close> with its HTML-safe
  escapes. What the program writes it can read back.
\<close>

section \<open>Decoding\<close>

text \<open>
  A frame of the parse stack holds the elements or members read so far, and the mode is
  what the grammar expects next.
\<close>

datatype frame = InArr "json list" | InObj members string

datatype mode = MValue | MArrFirst | MArrNext | MObjFirst | MObjKey | MColon | MObjNext

datatype outcome = Fail | Finished json | Go "frame list" mode

definition maxNestingDepth :: nat where "maxNestingDepth = 10000"

fun complete :: "json \<Rightarrow> frame list \<Rightarrow> outcome" where
  "complete v [] = Finished v"
| "complete v (InArr vs # st) = Go (InArr (vs @ [v]) # st) MArrNext"
| "complete v (InObj ms k # st) = Go (InObj (ms @ [(k, v)]) k # st) MObjNext"

definition push :: "frame \<Rightarrow> frame list \<Rightarrow> mode \<Rightarrow> outcome" where
  "push f st m = (if length st < maxNestingDepth then Go (f # st) m else Fail)"

fun value_step :: "frame list \<Rightarrow> token \<Rightarrow> outcome" where
  "value_step st TNull = complete JNull st"
| "value_step st (TBool b) = complete (JBool b) st"
| "value_step st (TNum l) = complete (JNum l) st"
| "value_step st (TStr s) = complete (JStr s) st"
| "value_step st TLBrack = push (InArr []) st MArrFirst"
| "value_step st TLBrace = push (InObj [] []) st MObjFirst"
| "value_step st _ = Fail"

fun close_array :: "frame list \<Rightarrow> outcome" where
  "close_array (InArr vs # st) = complete (JArr vs) st"
| "close_array _ = Fail"

fun close_object :: "frame list \<Rightarrow> outcome" where
  "close_object (InObj ms k # st) = complete (JObj ms) st"
| "close_object _ = Fail"

fun set_key :: "string \<Rightarrow> frame list \<Rightarrow> outcome" where
  "set_key k (InObj ms k' # st) = Go (InObj ms k # st) MColon"
| "set_key k _ = Fail"

fun parse_step :: "frame list \<Rightarrow> mode \<Rightarrow> token \<Rightarrow> outcome" where
  "parse_step st MValue t = value_step st t"
| "parse_step st MArrFirst t = (if t = TRBrack then close_array st else value_step st t)"
| "parse_step st MArrNext t =
     (if t = TComma then Go st MValue else if t = TRBrack then close_array st else Fail)"
| "parse_step st MObjFirst t =
     (case t of TStr k \<Rightarrow> set_key k st | TRBrace \<Rightarrow> close_object st | _ \<Rightarrow> Fail)"
| "parse_step st MObjKey t = (case t of TStr k \<Rightarrow> set_key k st | _ \<Rightarrow> Fail)"
| "parse_step st MColon t = (if t = TColon then Go st MValue else Fail)"
| "parse_step st MObjNext t =
     (if t = TComma then Go st MObjKey else if t = TRBrace then close_object st else Fail)"

fun parse :: "frame list \<Rightarrow> mode \<Rightarrow> token list \<Rightarrow> (json \<times> token list) option" where
  "parse st m [] = None"
| "parse st m (t # ts) =
     (case parse_step st m t of
        Fail \<Rightarrow> None
      | Finished v \<Rightarrow> Some (v, ts)
      | Go st' m' \<Rightarrow> parse st' m' ts)"

text \<open>
  One call of \<open>Decode\<close>: the first value of the text and the tokens after it. The next
  call reports \<open>io.EOF\<close> exactly when there is no token left.
\<close>

definition Decode :: "string \<Rightarrow> (json \<times> token list) option" where
  "Decode text = parse [] MValue (lex_text text)"

section \<open>Encoding\<close>

definition hex_digit :: "nat \<Rightarrow> char" where
  "hex_digit n = chr (if n < 10 then 48 + n else 87 + n)"

text \<open>The escapes of \<open>appendString\<close> for a byte below 128.\<close>

definition escape :: "char \<Rightarrow> string" where
  "escape c =
     (if c = quote_char \<or> c = backslash then [backslash, c]
      else if byte c = 8 then [backslash, CHR ''b'']
      else if byte c = 12 then [backslash, CHR ''f'']
      else if byte c = 10 then [backslash, CHR ''n'']
      else if byte c = 13 then [backslash, CHR ''r'']
      else if byte c = 9 then [backslash, CHR ''t'']
      else if byte c < 32 \<or> c = CHR ''<'' \<or> c = CHR ''>'' \<or> c = CHR ''&''
      then backslash # ''u00'' @ [hex_digit (byte c div 16), hex_digit (byte c mod 16)]
      else [c])"

text \<open>A rune above 127; bytes that are no valid encoding become U+FFFD.\<close>

definition enc_rune :: "nat \<Rightarrow> nat \<Rightarrow> string \<Rightarrow> string" where
  "enc_rune r n s =
     (if r = rune_error \<and> n = 1 then backslash # ''ufffd''
      else if r = 8232 \<or> r = 8233 then backslash # ''u202'' @ [hex_digit (r mod 16)]
      else take n s)"

function enc_body :: "string \<Rightarrow> string" where
  "enc_body s =
     (case s of
        [] \<Rightarrow> []
      | c # s' \<Rightarrow>
          if byte c < 128 then escape c @ enc_body s'
          else enc_rune (fst (first_rune s)) (snd (first_rune s)) s
            @ enc_body (drop (snd (first_rune s)) s))"
  by pat_completeness auto
termination
  by (relation "measure length") (auto simp: first_rune_width intro!: diff_less)

declare enc_body.simps [simp del]

definition enc_string :: "string \<Rightarrow> string" where
  "enc_string s = quote_char # enc_body s @ [quote_char]"

fun sep :: "'a list \<Rightarrow> 'a list list \<Rightarrow> 'a list" where
  "sep d [] = []"
| "sep d [x] = x"
| "sep d (x # y # xs) = x @ d @ sep d (y # xs)"

text \<open>\<open>Marshal\<close>, members in the order the value has them.\<close>

primrec encode :: "json \<Rightarrow> string" where
  "encode JNull = ''null''"
| "encode (JBool b) = (if b then ''true'' else ''false'')"
| "encode (JNum l) = l"
| "encode (JStr s) = enc_string s"
| "encode (JArr vs) = ''['' @ sep '','' (map encode vs) @ '']''"
| "encode (JObj ms) =
     ''{'' @ sep '','' (map (\<lambda>m. enc_string (fst m) @ '':'' @ snd m) (map (map_prod (\<lambda>k. k) encode) ms))
       @ ''}''"

section \<open>Strings read back\<close>

lemma byte_inject: "byte c = byte d \<longleftrightarrow> c = d"
  by (simp add: byte_def)

lemma append_single: "(@) [c] = (#) c"
  by (rule ext) simp

lemma hex_value_digit: "n < 16 \<Longrightarrow> hex_value (hex_digit n) = Some n"
  by (auto simp: hex_value_def hex_digit_def is_digit_def byte_def)

lemma hex_value_02: "hex_value CHR ''0'' = Some 0" "hex_value CHR ''2'' = Some 2"
  by (simp_all add: hex_value_def is_digit_def byte_def)

lemma enc_body_Nil [simp]: "enc_body [] = []"
  by (simp add: enc_body.simps)

lemma enc_body_ascii: "byte c < 128 \<Longrightarrow> enc_body (c # s) = escape c @ enc_body s"
  by (subst enc_body.simps) simp

lemma enc_body_rune:
  assumes "scalar r" and "\<not> r < 128"
  shows "enc_body (encode_rune r @ s) =
    (if r = 8232 \<or> r = 8233 then backslash # ''u202'' @ [hex_digit (r mod 16)] else encode_rune r)
    @ enc_body s"
proof -
  obtain c cs where c: "encode_rune r = c # cs" by (cases "encode_rune r") auto
  have "\<not> byte c < 128" using hd_encode_rune [OF assms(2,1)] c by simp
  moreover have "first_rune (c # cs @ s) = (r, Suc (length cs))"
    using first_rune_encode [OF assms(1), of s] c by simp
  moreover have "r = rune_error \<Longrightarrow> Suc (length cs) \<noteq> 1"
    using c by (auto simp: encode_rune_def)
  ultimately show ?thesis
    by (simp add: c enc_body.simps [of "c # cs @ s"] enc_rune_def)
qed

lemma str_body_escape_ascii:
  assumes "byte c < 128"
  shows "str_body (escape c @ t) = map_option (apfst ((#) c)) (str_body t)"
proof -
  have hex: "hex4 (CHR ''0'' # CHR ''0'' # hex_digit (byte c div 16) # hex_digit (byte c mod 16) # t)
      = Some (byte c)"
    using assms by (simp add: hex_value_02 hex_value_digit)
  have esc: "unicode_escape (byte c) t = ([c], 5)"
    using assms by (simp add: unicode_escape_def high_surrogate_def low_surrogate_def encode_ascii)
  consider "c = quote_char \<or> c = backslash" | "c \<noteq> quote_char \<and> c \<noteq> backslash" "byte c \<in> {8, 12, 10, 13, 9}"
    | "c \<noteq> quote_char \<and> c \<noteq> backslash" "byte c \<notin> {8, 12, 10, 13, 9}"
      "byte c < 32 \<or> c = CHR ''<'' \<or> c = CHR ''>'' \<or> c = CHR ''&''"
    | "c \<noteq> quote_char \<and> c \<noteq> backslash" "byte c \<notin> {8, 12, 10, 13, 9}"
      "\<not> (byte c < 32 \<or> c = CHR ''<'' \<or> c = CHR ''>'' \<or> c = CHR ''&'')"
    by blast
  then show ?thesis
  proof cases
    case 1
    then show ?thesis
      by (auto simp: escape_def append_single)
  next
    case 2
    then have "byte c \<in> byte ` {CHR 0x08, CHR 0x0C, CHR 0x0A, CHR 0x0D, CHR 0x09}"
      by (auto simp: byte_def)
    then have "c \<in> {CHR 0x08, CHR 0x0C, CHR 0x0A, CHR 0x0D, CHR 0x09}"
      by (auto simp: byte_inject)
    then show ?thesis
      by (elim insertE emptyE)
        (simp_all add: escape_def byte_def append_single)
  next
    case 3
    then have "escape c = backslash # ''u00'' @ [hex_digit (byte c div 16), hex_digit (byte c mod 16)]"
      by (auto simp: escape_def)
    then show ?thesis using hex esc by (simp add: append_single del: hex4.simps)
  next
    case 4
    then show ?thesis using assms by (auto simp: escape_def str_body_ascii)
  qed
qed

lemma str_body_escape_rune:
  assumes "r = 8232 \<or> r = 8233"
  shows "str_body (backslash # ''u202'' @ hex_digit (r mod 16) # t) =
    map_option (apfst ((@) (encode_rune r))) (str_body t)"
proof -
  have "hex4 (CHR ''2'' # CHR ''0'' # CHR ''2'' # hex_digit (r mod 16) # t) = Some r"
    using assms by (auto simp: hex_value_digit hex_value_02)
  moreover have "unicode_escape r t = (encode_rune r, 5)"
    using assms by (auto simp: unicode_escape_def high_surrogate_def low_surrogate_def)
  ultimately show ?thesis by (simp del: hex4.simps)
qed

lemma str_body_encode_rune:
  assumes "scalar r" and "\<not> r < 128"
  shows "str_body (encode_rune r @ t) = map_option (apfst ((@) (encode_rune r))) (str_body t)"
proof -
  obtain c cs where c: "encode_rune r = c # cs" by (cases "encode_rune r") auto
  have "\<not> byte c < 128" using hd_encode_rune [OF assms(2,1)] c by simp
  moreover have "first_rune (c # cs @ t) = (r, Suc (length cs))"
    using first_rune_encode [OF assms(1), of t] c by simp
  ultimately show ?thesis by (simp add: c str_body_rune)
qed

lemma str_body_enc: "utf8 s \<Longrightarrow> str_body (enc_body s @ quote_char # t) = Some (s, t)"
proof (induction rule: utf8_induct)
  case Nil
  then show ?case by simp
next
  case (rune r s)
  show ?case
  proof (cases "r < 128")
    case True
    then have "encode_rune r = [chr r]" "byte (chr r) < 128" by (simp_all add: encode_rune_def byte_def)
    with rune show ?thesis by (simp add: enc_body_ascii str_body_escape_ascii)
  next
    case False
    with rune str_body_escape_rune [of r "enc_body s @ quote_char # t"] show ?thesis
      by (simp add: enc_body_rune str_body_encode_rune)
  qed
qed

section \<open>Tokens read back\<close>

text \<open>What \<open>Decode\<close> can produce: valid strings and number literals.\<close>

primrec valid_json :: "json \<Rightarrow> bool" where
  "valid_json JNull = True"
| "valid_json (JBool b) = True"
| "valid_json (JNum l) = valid_number l"
| "valid_json (JStr s) = utf8 s"
| "valid_json (JArr vs) = list_all (\<lambda>b. b) (map valid_json vs)"
| "valid_json (JObj ms) =
     list_all (\<lambda>m. utf8 (fst m) \<and> snd m) (map (map_prod (\<lambda>k. k) valid_json) ms)"

primrec depth :: "json \<Rightarrow> nat" where
  "depth JNull = 0"
| "depth (JBool b) = 0"
| "depth (JNum l) = 0"
| "depth (JStr s) = 0"
| "depth (JArr vs) = Suc (foldr max (map depth vs) 0)"
| "depth (JObj ms) = Suc (foldr max (map snd (map (map_prod (\<lambda>k. k) depth) ms)) 0)"

lemma valid_json_containers [simp]:
  "valid_json (JArr vs) \<longleftrightarrow> (\<forall>v \<in> set vs. valid_json v)"
  "valid_json (JObj ms) \<longleftrightarrow> (\<forall>m \<in> set ms. utf8 (fst m) \<and> valid_json (snd m))"
  by (auto simp: list_all_iff)

declare valid_json.simps(5,6) [simp del]

lemma foldr_max_less:
  "n + foldr max xs 0 < m \<longleftrightarrow> n < m \<and> (\<forall>x \<in> set xs. n + x < (m :: nat))"
  by (induction xs) (auto simp: max_def)

lemma depth_containers [simp]:
  "n + depth (JArr vs) \<le> m \<longleftrightarrow> n < m \<and> (\<forall>v \<in> set vs. n + depth v < m)"
  "n + depth (JObj ms) \<le> m \<longleftrightarrow> n < m \<and> (\<forall>x \<in> set ms. n + depth (snd x) < m)"
  by (simp_all add: Suc_le_eq foldr_max_less)

declare depth.simps(5,6) [simp del]

primrec tokens :: "json \<Rightarrow> token list" where
  "tokens JNull = [TNull]"
| "tokens (JBool b) = [TBool b]"
| "tokens (JNum l) = [TNum l]"
| "tokens (JStr s) = [TStr s]"
| "tokens (JArr vs) = TLBrack # sep [TComma] (map tokens vs) @ [TRBrack]"
| "tokens (JObj ms) = TLBrace #
     sep [TComma] (map (\<lambda>m. TStr (fst m) # TColon # snd m) (map (map_prod (\<lambda>k. k) tokens) ms))
     @ [TRBrace]"

lemma num_step_punctuation:
  "num_step q CHR '','' = None" "num_step q CHR '']'' = None" "num_step q CHR ''}'' = None"
  by (cases q; simp add: is_digit_def is_exp_def byte_def)+

lemma stops_punctuation [simp]: "stops []" "stops (CHR '','' # t)" "stops (CHR '']'' # t)"
  "stops (CHR ''}'' # t)"
  by (simp_all add: stops_def num_step_punctuation)

lemma lex_punctuation [simp]:
  "lex_text (CHR ''['' # s) = TLBrack # lex_text s" "lex_text (CHR '']'' # s) = TRBrack # lex_text s"
  "lex_text (CHR ''{'' # s) = TLBrace # lex_text s" "lex_text (CHR ''}'' # s) = TRBrace # lex_text s"
  "lex_text (CHR '','' # s) = TComma # lex_text s" "lex_text (CHR '':'' # s) = TColon # lex_text s"
  by (simp_all add: lex_text.simps(2) is_ws_def byte_def lex_one_def quote_char_def is_digit_def)

lemma lex_literals [simp]:
  "lex_text (CHR ''n'' # CHR ''u'' # CHR ''l'' # CHR ''l'' # s) = TNull # lex_text s"
  "lex_text (CHR ''t'' # CHR ''r'' # CHR ''u'' # CHR ''e'' # s) = TBool True # lex_text s"
  "lex_text (CHR ''f'' # CHR ''a'' # CHR ''l'' # CHR ''s'' # CHR ''e'' # s) = TBool False # lex_text s"
  by (simp_all add: lex_text.simps(2) is_ws_def byte_def lex_one_def is_digit_def)

lemma lex_string: "utf8 x \<Longrightarrow> lex_text (enc_string x @ s) = TStr x # lex_text s"
  by (simp add: lex_text.simps(2) enc_string_def lex_one_def str_body_enc)
    (simp add: is_ws_def byte_def quote_char_def)

lemma lex_num: "valid_number l \<Longrightarrow> stops s \<Longrightarrow> lex_text (l @ s) = TNum l # lex_text s"
proof -
  assume l: "valid_number l" and s: "stops s"
  obtain c cs where c: "l = c # cs" using valid_number_nonempty [OF l] by (cases l) auto
  have d: "c = CHR ''-'' \<or> is_digit c"
    using l unfolding c valid_number_def
    by (auto simp: is_digit_def byte_def split: if_splits)
  then have "\<not> is_ws c" "c \<noteq> quote_char"
    by (auto simp: is_ws_def byte_def is_digit_def quote_char_def)
  with d lex_number_extend [OF l s] show ?thesis
    by (simp add: c lex_text.simps(2) lex_one_def del: lex_number.simps)
qed

text \<open>A list whose elements are read back, read back with its separators.\<close>

lemma lex_sep:
  assumes "\<And>x s. x \<in> set xs \<Longrightarrow> stops s \<Longrightarrow> lex_text (f x @ s) = g x @ lex_text s"
    and "stops t"
  shows "lex_text (sep '','' (map f xs) @ t) = sep [TComma] (map g xs) @ lex_text t"
  using assms(1)
proof (induction xs)
  case Nil
  then show ?case by simp
next
  case (Cons x xs)
  show ?case
  proof (cases xs)
    case Nil
    with Cons.prems assms(2) show ?thesis by simp
  next
    case (Cons y ys)
    with Cons.IH Cons.prems show ?thesis by simp
  qed
qed

lemma lex_encode:
  "valid_json v \<Longrightarrow> stops s \<Longrightarrow> lex_text (encode v @ s) = tokens v @ lex_text s"
proof (induction v arbitrary: s rule: json_induct)
  case (Arr vs)
  then have "lex_text (sep '','' (map encode vs) @ CHR '']'' # s)
      = sep [TComma] (map tokens vs) @ lex_text (CHR '']'' # s)"
    by (intro lex_sep) auto
  then show ?case by simp
next
  case (Obj ms)
  have "lex_text (sep '','' (map (\<lambda>m. enc_string (fst m) @ '':'' @ encode (snd m)) ms) @ CHR ''}'' # s)
    = sep [TComma] (map (\<lambda>m. TStr (fst m) # TColon # tokens (snd m)) ms) @ lex_text (CHR ''}'' # s)"
    by (rule lex_sep) (use Obj in \<open>simp_all add: lex_string\<close>)
  then show ?case by (simp add: comp_def)
qed (simp_all add: lex_string lex_num)

section \<open>Values read back\<close>

text \<open>What the parser does once a value is complete.\<close>

definition resume :: "json \<Rightarrow> frame list \<Rightarrow> token list \<Rightarrow> (json \<times> token list) option" where
  "resume v st ts =
     (case complete v st of
        Fail \<Rightarrow> None | Finished w \<Rightarrow> Some (w, ts) | Go st' m \<Rightarrow> parse st' m ts)"

lemma resume_simps [simp]:
  "resume v [] ts = Some (v, ts)"
  "resume v (InArr vs # st) ts = parse (InArr (vs @ [v]) # st) MArrNext ts"
  "resume v (InObj ms k # st) ts = parse (InObj (ms @ [(k, v)]) k # st) MObjNext ts"
  by (simp_all add: resume_def)

lemma hd_tokens: "\<exists>t ts. tokens v = t # ts \<and> t \<noteq> TRBrack"
  by (cases v) auto

lemma parse_MArrFirst: "parse st MArrFirst (tokens v @ ts) = parse st MValue (tokens v @ ts)"
proof -
  obtain t us where "tokens v = t # us" "t \<noteq> TRBrack" using hd_tokens [of v] by blast
  then show ?thesis by simp
qed

lemma parse_elements:
  assumes "\<And>v st ts. v \<in> set ws \<Longrightarrow> length st = n \<Longrightarrow>
      parse st MValue (tokens v @ ts) = resume v st ts"
    and "length st = n - 1" "0 < n" "ws \<noteq> []"
  shows "parse (InArr vs # st) MValue (sep [TComma] (map tokens ws) @ TRBrack # ts)
    = resume (JArr (vs @ ws)) st ts"
  using assms(1,4)
proof (induction ws arbitrary: vs)
  case (Cons w ws)
  have w: "parse (InArr vs # st) MValue (tokens w @ us) = parse (InArr (vs @ [w]) # st) MArrNext us" for us
    using Cons.prems(1) [of w "InArr vs # st" us] assms(2,3) by simp
  show ?case
  proof (cases ws)
    case Nil
    then show ?thesis by (simp add: w) (simp add: resume_def)
  next
    case (Cons x xs)
    with Cons.IH [of "vs @ [w]"] Cons.prems(1) show ?thesis by (simp add: w)
  qed
qed simp

lemma parse_members:
  assumes "\<And>m st ts. m \<in> set ns \<Longrightarrow> length st = n \<Longrightarrow>
      parse st MValue (tokens (snd m) @ ts) = resume (snd m) st ts"
    and "length st = n - 1" "0 < n" "ns \<noteq> []"
  shows "parse (InObj ms k # st) MObjKey
      (sep [TComma] (map (\<lambda>m. TStr (fst m) # TColon # tokens (snd m)) ns) @ TRBrace # ts)
    = resume (JObj (ms @ ns)) st ts"
  using assms(1,4)
proof (induction ns arbitrary: ms k)
  case (Cons m ns)
  have m: "parse (InObj ms k # st) MObjKey (TStr (fst m) # TColon # tokens (snd m) @ us)
      = parse (InObj (ms @ [m]) (fst m) # st) MObjNext us" for us
    using Cons.prems(1) [of m "InObj ms (fst m) # st" us] assms(2,3) by simp
  show ?case
  proof (cases ns)
    case Nil
    then show ?thesis by (simp add: m del: parse.simps) (simp add: resume_def)
  next
    case (Cons x xs)
    with Cons.IH [of "ms @ [m]"] Cons.prems(1) show ?thesis by (simp add: m del: parse.simps) simp
  qed
qed simp

lemma parse_tokens:
  "length st + depth v \<le> maxNestingDepth \<Longrightarrow> parse st MValue (tokens v @ ts) = resume v st ts"
proof (induction v arbitrary: st ts rule: json_induct)
  case (Arr vs)
  then have room: "length st < maxNestingDepth" by simp
  show ?case
  proof (cases vs)
    case Nil
    with room show ?thesis by (simp add: push_def) (simp add: resume_def)
  next
    case (Cons w ws)
    have "parse (InArr [] # st) MValue (sep [TComma] (map tokens vs) @ TRBrack # ts)
        = resume (JArr ([] @ vs)) st ts"
      by (rule parse_elements [where n = "Suc (length st)"])
        (use Arr Cons in auto)
    moreover have "parse (InArr [] # st) MArrFirst (sep [TComma] (map tokens vs) @ TRBrack # ts)
        = parse (InArr [] # st) MValue (sep [TComma] (map tokens vs) @ TRBrack # ts)"
      using Cons parse_MArrFirst [of "InArr [] # st" w]
      by (cases ws) (simp_all del: parse.simps)
    ultimately show ?thesis using room by (simp add: push_def)
  qed
next
  case (Obj ms)
  then have room: "length st < maxNestingDepth" by simp
  show ?case
  proof (cases ms)
    case Nil
    with room show ?thesis by (simp add: push_def) (simp add: resume_def)
  next
    case (Cons n ns)
    have member: "parse st' MValue (tokens (snd m) @ ts') = resume (snd m) st' ts'"
      if "m \<in> set ms" "length st' = Suc (length st)" for m st' ts'
      using that Obj.prems by (intro Obj.IH) (simp_all add: Suc_le_eq)
    have "parse (InObj [] [] # st) MObjKey
        (sep [TComma] (map (\<lambda>m. TStr (fst m) # TColon # tokens (snd m)) ms) @ TRBrace # ts)
      = resume (JObj ([] @ ms)) st ts"
      by (rule parse_members [where n = "Suc (length st)"])
        (use member Cons in simp_all)
    moreover have "parse (InObj [] [] # st) MObjFirst
        (sep [TComma] (map (\<lambda>m. TStr (fst m) # TColon # tokens (snd m)) ms) @ TRBrace # ts)
      = parse (InObj [] [] # st) MObjKey
        (sep [TComma] (map (\<lambda>m. TStr (fst m) # TColon # tokens (snd m)) ms) @ TRBrace # ts)"
      using Cons by (cases ns) simp_all
    ultimately show ?thesis using room by (simp add: push_def comp_def)
  qed
qed (simp_all add: resume_def)

text \<open>The round trip: what \<open>Marshal\<close> writes, \<open>Decode\<close> reads back, and nothing is left over.\<close>

lemma Decode_encode:
  assumes "valid_json v" and "depth v \<le> maxNestingDepth"
  shows "Decode (encode v) = Some (v, [])"
proof -
  have "lex_text (encode v @ []) = tokens v @ lex_text []"
    by (rule lex_encode) (use assms in simp_all)
  with parse_tokens [of "[]" v "[]"] assms(2) show ?thesis by (simp add: Decode_def)
qed

section \<open>What Decode produces\<close>

fun valid_token :: "token \<Rightarrow> bool" where
  "valid_token (TNum l) = valid_number l"
| "valid_token (TStr s) = utf8 s"
| "valid_token _ = True"

definition fits :: "json \<Rightarrow> nat \<Rightarrow> bool" where
  "fits v n \<longleftrightarrow> valid_json v \<and> n + depth v \<le> maxNestingDepth"

fun frame_ok :: "frame \<Rightarrow> nat \<Rightarrow> bool" where
  "frame_ok (InArr vs) n = (\<forall>v \<in> set vs. fits v n)"
| "frame_ok (InObj ms k) n = (utf8 k \<and> (\<forall>m \<in> set ms. utf8 (fst m) \<and> fits (snd m) n))"

fun frames_ok :: "frame list \<Rightarrow> bool" where
  "frames_ok [] = True"
| "frames_ok (f # st) =
     (length st < maxNestingDepth \<and> frame_ok f (Suc (length st)) \<and> frames_ok st)"

fun outcome_ok :: "outcome \<Rightarrow> bool" where
  "outcome_ok Fail = True"
| "outcome_ok (Finished v) = fits v 0"
| "outcome_ok (Go st m) = frames_ok st"

lemma complete_ok: "fits v (length st) \<Longrightarrow> frames_ok st \<Longrightarrow> outcome_ok (complete v st)"
  by (induction v st rule: complete.induct) auto

lemma fits_scalar: "frames_ok st \<Longrightarrow> depth v = 0 \<Longrightarrow> valid_json v \<Longrightarrow> fits v (length st)"
  by (cases st) (auto simp: fits_def)

lemma fits_containers:
  "n < maxNestingDepth \<Longrightarrow> \<forall>v \<in> set vs. fits v (Suc n) \<Longrightarrow> fits (JArr vs) n"
  "n < maxNestingDepth \<Longrightarrow> \<forall>m \<in> set ms. utf8 (fst m) \<and> fits (snd m) (Suc n) \<Longrightarrow> fits (JObj ms) n"
  by (auto simp: fits_def Suc_le_eq)

lemma value_step_ok: "frames_ok st \<Longrightarrow> valid_token t \<Longrightarrow> outcome_ok (value_step st t)"
  by (cases t) (auto intro!: complete_ok fits_scalar simp: push_def)

lemma close_ok:
  "frames_ok st \<Longrightarrow> outcome_ok (close_array st)" "frames_ok st \<Longrightarrow> outcome_ok (close_object st)"
  by (induction st rule: close_array.induct; auto intro!: complete_ok fits_containers)
    (induction st rule: close_object.induct; auto intro!: complete_ok fits_containers)

lemma set_key_ok: "frames_ok st \<Longrightarrow> utf8 k \<Longrightarrow> outcome_ok (set_key k st)"
  by (induction k st rule: set_key.induct) auto

lemma parse_step_ok:
  "frames_ok st \<Longrightarrow> valid_token t \<Longrightarrow> outcome_ok (parse_step st m t)"
  by (cases m) (auto intro: value_step_ok close_ok set_key_ok split: token.splits)

lemma parse_ok:
  "parse st m ts = Some (v, ts') \<Longrightarrow> frames_ok st \<Longrightarrow> list_all valid_token ts \<Longrightarrow> fits v 0"
proof (induction st m ts rule: parse.induct)
  case (2 st m t ts)
  then have "outcome_ok (parse_step st m t)" by (auto intro: parse_step_ok)
  with 2 show ?case by (auto split: outcome.splits)
qed simp

lemma lex_one_valid: "lex_one s = Some (t, r) \<Longrightarrow> valid_token t"
  by (auto simp: lex_one_def dest: lex_number_sound str_body_utf8 split: if_splits)

lemma lex_text_valid: "list_all valid_token (lex_text s)"
  by (induction s rule: lex_text.induct)
    (auto simp: lex_text.simps(2) dest: lex_one_valid split: option.split)

lemma Decode_valid:
  "Decode s = Some (v, ts) \<Longrightarrow> valid_json v \<and> depth v \<le> maxNestingDepth"
  using parse_ok [of "[]" MValue "lex_text s" v ts] lex_text_valid [of s]
  by (auto simp: Decode_def fits_def)

end
