(* ===== verification/Sha256.thy ===== *)
theory Sha256
  imports Utf8
begin

unbundle bit_operations_syntax

text \<open>
  \<open>crypto/sha256\<close>: the digest of a byte string as FIPS 180-4 defines it, and
  \<open>encoding/hex\<close>. The program uses it for request fingerprints and for the checksums of
  migrations.
\<close>

type_synonym w32 = "32 word"

text \<open>
  The constants are the first 32 bits of the fractional parts of roots of the first primes:
  the integer root of the prime shifted by 32 bits for each factor, found from bit \<open>b\<close> down,
  of which a word keeps the low 32 bits.
\<close>

fun root_search :: "nat \<Rightarrow> int \<Rightarrow> nat \<Rightarrow> int \<Rightarrow> int" where
  "root_search k n 0 x = x"
| "root_search k n (Suc b) x = root_search k n b (if (x + 2 ^ b) ^ k \<le> n then x + 2 ^ b else x)"

lemma root_search_floor:
  "0 \<le> x \<Longrightarrow> x ^ k \<le> n \<Longrightarrow> n < (x + 2 ^ b) ^ k \<Longrightarrow>
     root_search k n b x ^ k \<le> n \<and> n < (root_search k n b x + 1) ^ k"
proof (induction b arbitrary: x)
  case (Suc b)
  show ?case
  proof (cases "(x + 2 ^ b) ^ k \<le> n")
    case True
    with Suc.IH [of "x + 2 ^ b"] Suc.prems show ?thesis by (simp add: algebra_simps)
  next
    case False
    with Suc.IH [of x] Suc.prems show ?thesis by simp
  qed
qed simp

definition primes_below :: "int \<Rightarrow> int list" where
  "primes_below n = filter (\<lambda>p. list_all (\<lambda>d. p mod d \<noteq> 0) [2..p - 1]) [2..n - 1]"

definition root_fraction :: "nat \<Rightarrow> int \<Rightarrow> w32" where
  "root_fraction k p = word_of_int (root_search k (p * 2 ^ (32 * k)) 35 0)"

definition sha_K :: "w32 list" where
  "sha_K = map (root_fraction 3) (primes_below 312)"

definition sha_H0 :: "w32 list" where
  "sha_H0 = map (root_fraction 2) (primes_below 20)"

definition big_sigma0 :: "w32 \<Rightarrow> w32" where
  "big_sigma0 x = word_rotr 2 x XOR word_rotr 13 x XOR word_rotr 22 x"
definition big_sigma1 :: "w32 \<Rightarrow> w32" where
  "big_sigma1 x = word_rotr 6 x XOR word_rotr 11 x XOR word_rotr 25 x"
definition small_sigma0 :: "w32 \<Rightarrow> w32" where
  "small_sigma0 x = word_rotr 7 x XOR word_rotr 18 x XOR drop_bit 3 x"
definition small_sigma1 :: "w32 \<Rightarrow> w32" where
  "small_sigma1 x = word_rotr 17 x XOR word_rotr 19 x XOR drop_bit 10 x"
definition Ch :: "w32 \<Rightarrow> w32 \<Rightarrow> w32 \<Rightarrow> w32" where
  "Ch x y z = (x AND y) XOR (NOT x AND z)"
definition Maj :: "w32 \<Rightarrow> w32 \<Rightarrow> w32 \<Rightarrow> w32" where
  "Maj x y z = (x AND y) XOR (x AND z) XOR (y AND z)"

text \<open>Padding to a multiple of 64 bytes, the length in bits in the last eight.\<close>

definition be_bytes :: "nat \<Rightarrow> nat \<Rightarrow> nat list" where
  "be_bytes k n = map (\<lambda>i. n div 256 ^ i mod 256) (rev [0..<k])"

definition sha_pad :: "nat list \<Rightarrow> nat list" where
  "sha_pad bs = bs @ [128] @ replicate ((119 - length bs mod 64) mod 64) 0 @ be_bytes 8 (8 * length bs)"

fun be_words :: "nat list \<Rightarrow> w32 list" where
  "be_words (a # b # c # d # bs) =
     word_of_nat (a * 16777216 + b * 65536 + c * 256 + d) # be_words bs"
| "be_words _ = []"

text \<open>The message schedule, newest word first.\<close>

fun schedule :: "nat \<Rightarrow> w32 list \<Rightarrow> w32 list" where
  "schedule 0 ws = rev ws"
| "schedule (Suc n) ws =
     schedule n ((small_sigma1 (ws ! 1) + ws ! 6 + small_sigma0 (ws ! 14) + ws ! 15) # ws)"

fun sha_round :: "w32 list \<Rightarrow> w32 \<times> w32 \<Rightarrow> w32 list" where
  "sha_round [a, b, c, d, e, f, g, h] (k, w) =
     (let t1 = h + big_sigma1 e + Ch e f g + k + w; t2 = big_sigma0 a + Maj a b c in
      [t1 + t2, a, b, c, d + t1, e, f, g])"
| "sha_round st _ = st"

definition sha_block :: "w32 list \<Rightarrow> w32 list \<Rightarrow> w32 list" where
  "sha_block st ws =
     map2 (+) st (foldl sha_round st (zip sha_K (schedule 48 (rev ws))))"

function sha_blocks :: "w32 list \<Rightarrow> w32 list \<Rightarrow> w32 list" where
  "sha_blocks st ws =
     (case ws of [] \<Rightarrow> st | _ # _ \<Rightarrow> sha_blocks (sha_block st (take 16 ws)) (drop 16 ws))"
  by pat_completeness auto
termination by (relation "measure (length \<circ> snd)") auto

declare sha_blocks.simps [simp del]

definition Sum256 :: "string \<Rightarrow> string" where
  "Sum256 s =
     map chr (concat (map (be_bytes 4 \<circ> unat)
       (sha_blocks sha_H0 (be_words (sha_pad (map byte s))))))"

definition hex_EncodeToString :: "string \<Rightarrow> string" where
  "hex_EncodeToString s =
     concat (map (\<lambda>c. map (\<lambda>n. chr (if n < 10 then 48 + n else 87 + n)) [byte c div 16, byte c mod 16]) s)"

end
