(* ===== verification/Idempotency.thy ===== *)
theory Idempotency
  imports Json_Text Sha256
begin

text \<open>
  \<open>internal/idempotency/idempotency.go\<close>: the check of the \<open>Idempotency-Key\<close> header and
  the fingerprint of a request, with the canonical form of its body.
\<close>

section \<open>ValidateKey\<close>

definition HeaderKey :: string where "HeaderKey = ''Idempotency-Key''"
definition HeaderReplayed :: string where "HeaderReplayed = ''Idempotency-Replayed''"
definition MaxKeyLength :: nat where "MaxKeyLength = 255"

text \<open>The loop over the bytes of the key.\<close>

fun check_bytes :: "string \<Rightarrow> go_error option" where
  "check_bytes [] = None"
| "check_bytes (c # cs) =
     (if byte c < 0x20 \<or> byte c > 0x7E
      then Some (Wrapf [] (Sentinel ErrKeyInvalid) [Str '': contains a non-printable byte''])
      else check_bytes cs)"

definition ValidateKey :: "string \<Rightarrow> go_error option" where
  "ValidateKey key =
     (if key = [] then Some (Sentinel ErrKeyRequired)
      else if length key > MaxKeyLength
      then Some (Wrapf [] (Sentinel ErrKeyInvalid)
             [Str '': longer than '', Dec (int MaxKeyLength), Str '' bytes''])
      else check_bytes key)"

section \<open>The canonical form of a body\<close>

text \<open>
  \<open>var v any; Decode(&v); Marshal(v)\<close>: an object becomes a map, where the last of several
  members with one key wins, and a map is written with its keys in byte order.
\<close>

definition map_members :: "members \<Rightarrow> members" where
  "map_members ms = sort_key fst (last_wins ms)"

primrec any_value :: "json \<Rightarrow> json" where
  "any_value JNull = JNull"
| "any_value (JBool b) = JBool b"
| "any_value (JNum l) = JNum l"
| "any_value (JStr s) = JStr s"
| "any_value (JArr vs) = JArr (map any_value vs)"
| "any_value (JObj ms) = JObj (map_members (map (map_prod (\<lambda>k. k) any_value) ms))"

text \<open>\<open>J\<close> gives the message of the error of \<open>encoding/json\<close> for a body it rejects.\<close>

definition canonicalJSON :: "(string \<Rightarrow> string) \<Rightarrow> string \<Rightarrow> go_error + string" where
  "canonicalJSON J body =
     (if length body = 0 then Inr []
      else case Decode body of
          None \<Rightarrow> Inl (wrap ''canonicalise request body: '' (NewError [Str (J body)]))
        | Some (v, rest) \<Rightarrow> Inr (encode (any_value v)))"

section \<open>Fingerprint\<close>

definition newline :: char where "newline = CHR 0x0A"

text \<open>The bytes written to the hash.\<close>

definition hashed :: "string \<Rightarrow> string \<Rightarrow> string \<Rightarrow> string" where
  "hashed meth path canonical = meth @ [newline] @ path @ [newline] @ canonical"

definition Fingerprint ::
    "(string \<Rightarrow> string) \<Rightarrow> string \<Rightarrow> string \<Rightarrow> string \<Rightarrow> go_error + string" where
  "Fingerprint J meth path body =
     (case canonicalJSON J body of
        Inl err \<Rightarrow> Inl err
      | Inr canonical \<Rightarrow> Inr (Sum256 (hashed meth path canonical)))"

section \<open>The meaning of a value\<close>

text \<open>
  Two JSON values mean the same when they differ at most in the order of object members
  and in members that a later one with the same key overrides.
\<close>

inductive same_value :: "json \<Rightarrow> json \<Rightarrow> bool" where
  Null: "same_value JNull JNull"
| Bool: "same_value (JBool b) (JBool b)"
| Num: "same_value (JNum l) (JNum l)"
| Str: "same_value (JStr s) (JStr s)"
| Arr: "length vs = length ws \<Longrightarrow> (\<And>i. i < length vs \<Longrightarrow> same_value (vs ! i) (ws ! i)) \<Longrightarrow>
    same_value (JArr vs) (JArr ws)"
| Obj: "fst ` set ms = fst ` set ns \<Longrightarrow>
    (\<And>k v w. map_of (rev ms) k = Some v \<Longrightarrow> map_of (rev ns) k = Some w \<Longrightarrow> same_value v w) \<Longrightarrow>
    same_value (JObj ms) (JObj ns)"

inductive_cases same_value_E [elim]:
  "same_value JNull v" "same_value (JBool b) v" "same_value (JNum l) v" "same_value (JStr s) v"
  "same_value (JArr vs) v" "same_value (JObj ms) v"

lemma last_wins_distinct: "distinct (map fst ms) \<Longrightarrow> last_wins ms = ms"
  by (induction ms) auto

lemma in_last_wins: "(k, v) \<in> set (last_wins ms) \<longleftrightarrow> map_of (rev ms) k = Some v"
proof (induction ms)
  case (Cons m ms)
  have "k \<in> fst ` set ms \<longleftrightarrow> map_of (rev ms) k \<noteq> None"
    by (simp add: map_of_eq_None_iff)
  with Cons show ?case
    by (cases m) (auto simp: map_add_def split: option.splits)
qed simp

lemma set_map_members [simp]: "set (map_members ms) = set (last_wins ms)"
  by (simp add: map_members_def)

lemma sorted_map_members: "sorted (map fst (map_members ms))" "distinct (map fst (map_members ms))"
proof -
  show "sorted (map fst (map_members ms))" by (simp add: map_members_def)
  have "distinct (last_wins ms)" using distinct_last_wins [of ms] by (simp add: distinct_map)
  then show "distinct (map fst (map_members ms))"
    using distinct_last_wins [of ms] by (simp add: map_members_def distinct_map)
qed

lemma inj_on_last_wins: "inj_on fst (set (last_wins ms))"
  using distinct_last_wins [of ms] by (simp add: distinct_map)

lemma map_members_eq_iff:
  "map_members ms = map_members ns \<longleftrightarrow> (\<forall>k. map_of (rev ms) k = map_of (rev ns) k)"
proof
  assume eq: "map_members ms = map_members ns"
  have "set (last_wins ms) = set (last_wins ns)" using arg_cong [OF eq, of set] by simp
  then have "map_of (rev ms) k = Some v \<longleftrightarrow> map_of (rev ns) k = Some v" for k v
    by (simp flip: in_last_wins)
  then show "\<forall>k. map_of (rev ms) k = map_of (rev ns) k" by (metis not_Some_eq)
next
  assume "\<forall>k. map_of (rev ms) k = map_of (rev ns) k"
  then have "set (last_wins ms) = set (last_wins ns)"
    by (simp add: set_eq_iff in_last_wins)
  then show "map_members ms = map_members ns"
    using sorted_map_members [of ms] sorted_map_members [of ns] inj_on_last_wins [of ms]
    by (intro map_sorted_distinct_set_unique [where f = fst]) simp_all
qed

lemma map_of_rev_map_prod:
  "map_of (rev (map (map_prod (\<lambda>k. k) f) ms)) k = map_option f (map_of (rev ms) k)"
  by (induction ms) (auto simp: map_add_def split: option.split)

lemma any_value_Obj_eq:
  "any_value (JObj ms) = any_value (JObj ns) \<longleftrightarrow>
     (\<forall>k. map_option any_value (map_of (rev ms) k) = map_option any_value (map_of (rev ns) k))"
  by (simp add: map_members_eq_iff map_of_rev_map_prod)

lemma map_of_rev_in: "map_of (rev ms) k = Some v \<Longrightarrow> (k, v) \<in> set ms"
  using map_of_SomeD by fastforce

lemma keys_map_of_rev: "k \<in> fst ` set ms \<longleftrightarrow> map_of (rev ms) k \<noteq> None"
  by (simp add: map_of_eq_None_iff)

lemma any_value_same: "same_value v w \<Longrightarrow> any_value v = any_value w"
proof (induction rule: same_value.induct)
  case (Arr vs ws)
  then show ?case by (simp add: list_eq_iff_nth_eq)
next
  case (Obj ms ns)
  show ?case unfolding any_value_Obj_eq
  proof
    fix k
    have none: "map_of (rev ms) k = None \<longleftrightarrow> map_of (rev ns) k = None"
      using Obj(1) by (simp add: map_of_eq_None_iff)
    show "map_option any_value (map_of (rev ms) k) = map_option any_value (map_of (rev ns) k)"
    proof (cases "map_of (rev ms) k")
      case None
      with none show ?thesis by simp
    next
      case (Some v)
      with none obtain u where u: "map_of (rev ns) k = Some u" by fastforce
      have "any_value v = any_value u" by (rule Obj(3) [OF Some u])
      with Some u show ?thesis by (simp only: option.map)
    qed
  qed
qed simp_all

lemma same_any_value: "any_value v = any_value w \<Longrightarrow> same_value v w"
proof (induction v arbitrary: w rule: json_induct)
  case (Arr vs)
  from Arr.prems obtain ws where w: "w = JArr ws" "map any_value vs = map any_value ws"
    by (cases w) simp_all
  then have len: "length vs = length ws" by (metis length_map)
  have "same_value (vs ! i) (ws ! i)" if "i < length vs" for i
    using Arr.IH [OF nth_mem [OF that]] w(2) that len by (metis nth_map)
  with w(1) len show ?case by (simp add: same_value.Arr)
next
  case (Obj ms)
  from Obj.prems obtain ns where w: "w = JObj ns" by (cases w) simp_all
  with Obj.prems have eq: "map_option any_value (map_of (rev ms) k) = map_option any_value (map_of (rev ns) k)" for k
    by (simp only: any_value_Obj_eq)
  have "k \<in> fst ` set ms \<longleftrightarrow> k \<in> fst ` set ns" for k
    unfolding keys_map_of_rev using eq [of k] by (metis map_option_is_None)
  moreover have "same_value v u" if "map_of (rev ms) k = Some v" "map_of (rev ns) k = Some u" for k v u
    using Obj.IH [of "(k, v)" u] map_of_rev_in [OF that(1)] eq [of k] that by simp
  ultimately show ?case unfolding w by (intro same_value.Obj) blast+
next
  case Null then show ?case by (cases w) (simp_all add: same_value.intros)
next
  case (Bool b) then show ?case by (cases w) (simp_all add: same_value.intros)
next
  case (Num l) then show ?case by (cases w) (simp_all add: same_value.intros)
next
  case (Str s) then show ?case by (cases w) (simp_all add: same_value.intros)
qed

lemma same_value_iff: "same_value v w \<longleftrightarrow> any_value v = any_value w"
  using any_value_same same_any_value by blast

section \<open>The canonical form is canonical\<close>

lemma any_value_idem: "any_value (any_value v) = any_value v"
proof (induction v rule: json_induct)
  case (Obj ms)
  let ?ns = "map_members (map (map_prod (\<lambda>k. k) any_value) ms)"
  have all: "any_value (snd m) = snd m" if "m \<in> set ?ns" for m
    using that map_of_rev_in [of "map (map_prod (\<lambda>k. k) any_value) ms" "fst m" "snd m"]
      in_last_wins [of "fst m" "snd m"] Obj.IH by auto
  then have "map (map_prod (\<lambda>k. k) any_value) ?ns = ?ns"
    by (intro map_idI) (auto simp: map_prod_def split: prod.splits)
  moreover have "map_members ?ns = ?ns"
    using sorted_map_members [of "map (map_prod (\<lambda>k. k) any_value) ms"]
    by (simp add: map_members_def [of ?ns] last_wins_distinct sort_key_id_if_sorted)
  ultimately show ?case by simp
qed simp_all

lemma map_members_in: "m \<in> set (map_members ms) \<Longrightarrow> m \<in> set ms"
  using map_of_rev_in in_last_wins [of "fst m" "snd m" ms] by fastforce

lemma any_value_members:
  assumes "m \<in> set (last_wins (map (map_prod (\<lambda>k. k) any_value) ms))"
  obtains k v where "(k, v) \<in> set ms" "m = (k, any_value v)"
  using map_members_in [of m "map (map_prod (\<lambda>k. k) any_value) ms"] assms by auto

lemma valid_any_value: "valid_json v \<Longrightarrow> valid_json (any_value v)"
proof (induction v rule: json_induct)
  case (Obj ms)
  have "valid_json (snd m) \<and> utf8 (fst m)"
    if "m \<in> set (last_wins (map (map_prod (\<lambda>k. k) any_value) ms))" for m
    using that Obj by (force elim!: any_value_members)
  then show ?case by simp
qed auto

lemma depth_any_value: "n + depth v \<le> m \<Longrightarrow> n + depth (any_value v) \<le> m"
proof (induction v arbitrary: n rule: json_induct)
  case (Arr vs)
  have "n + depth (any_value v) < m" if "v \<in> set vs" for v
    using that Arr.prems Arr.IH [OF that, of "Suc n"] by (simp add: Suc_le_eq)
  with Arr.prems show ?case by simp
next
  case (Obj ms)
  have "n + depth (any_value v) < m" if "(k, v) \<in> set ms" for k v
    using that Obj.IH [OF that, of "Suc n"] Obj.prems by (fastforce simp: Suc_le_eq)
  with Obj.prems show ?case by (auto elim!: any_value_members)
qed auto

lemma Decode_Nil [simp]: "Decode [] = None"
  by (simp add: Decode_def)

lemma Decode_any_value:
  assumes "Decode body = Some (v, rest)"
  shows "Decode (encode (any_value v)) = Some (any_value v, [])"
proof (rule Decode_encode)
  from Decode_valid [OF assms] have v: "valid_json v" "0 + depth v \<le> maxNestingDepth" by simp_all
  from valid_any_value [OF v(1)] show "valid_json (any_value v)" .
  from depth_any_value [OF v(2)] show "depth (any_value v) \<le> maxNestingDepth" by simp
qed

lemma canonicalJSON_Decode:
  "Decode body = Some (v, rest) \<Longrightarrow> canonicalJSON J body = Inr (encode (any_value v))"
  by (cases body) (simp_all add: canonicalJSON_def)

lemma encode_any_value_inject:
  assumes "Decode b = Some (v, r)" and "Decode b' = Some (v', r')"
  shows "encode (any_value v) = encode (any_value v') \<longleftrightarrow> same_value v v'"
proof -
  have "any_value v = any_value v'" if "encode (any_value v) = encode (any_value v')"
    using Decode_any_value [OF assms(1)] Decode_any_value [OF assms(2)]
    unfolding that by (simp only: option.inject prod.inject)
  then show ?thesis unfolding same_value_iff by (metis (no_types))
qed

lemma split_first:
  "x \<notin> set xs \<Longrightarrow> x \<notin> set ys \<Longrightarrow> xs @ x # zs = ys @ x # ws \<longleftrightarrow> xs = ys \<and> zs = ws"
proof (induction xs arbitrary: ys)
  case Nil
  then show ?case by (cases ys) auto
next
  case (Cons a xs)
  then show ?case by (cases ys) auto
qed

lemma hashed_inject:
  assumes "newline \<notin> set m" "newline \<notin> set m'" "newline \<notin> set p" "newline \<notin> set p'"
  shows "hashed m p c = hashed m' p' c' \<longleftrightarrow> m = m' \<and> p = p' \<and> c = c'"
  using assms by (simp add: hashed_def split_first)

section \<open>What ValidateKey accepts\<close>

lemma check_bytes_None: "check_bytes cs = None \<longleftrightarrow> (\<forall>c \<in> set cs. 0x20 \<le> byte c \<and> byte c \<le> 0x7E)"
  by (induction cs) (auto simp: not_less)

lemma check_bytes_Some: "check_bytes cs = Some e \<Longrightarrow> errors_Is e ErrKeyInvalid"
  by (induction cs) (auto split: if_splits)

lemma ValidateKey_None:
  "ValidateKey key = None \<longleftrightarrow>
     key \<noteq> [] \<and> length key \<le> 255 \<and> (\<forall>c \<in> set key. 0x20 \<le> byte c \<and> byte c \<le> 0x7E)"
  by (auto simp: ValidateKey_def MaxKeyLength_def check_bytes_None)

lemma ValidateKey_Some:
  "ValidateKey key = Some e \<Longrightarrow>
     if key = [] then errors_Is e ErrKeyRequired else errors_Is e ErrKeyInvalid"
  by (auto simp: ValidateKey_def check_bytes_Some split: if_splits)

end
