(* ===== verification/Json_Any.thy ===== *)
theory Json_Any
  imports Json_Text
begin

text \<open>
  \<open>Marshal\<close> accepts any Go string. What a reader gets back is the string with every byte
  that starts no valid encoding replaced by U+FFFD, so that what the program sends is a
  JSON text whatever its strings hold.
\<close>

section \<open>Decoding and encoding a rune again\<close>

lemma char_byte [simp]: "chr (byte c) = c"
  by (simp add: byte_def)

lemma byte_less [simp]: "byte c < 256"
  by (simp add: byte_def)

lemma mod64: "r = q * 64 + k \<Longrightarrow> k < 64 \<Longrightarrow> r mod 64 = (k :: nat)"
  by simp

lemma encode_rune2:
  "2 \<le> i \<Longrightarrow> i < 32 \<Longrightarrow> j < 64 \<Longrightarrow> encode_rune (i * 64 + j) = [chr (192 + i), chr (128 + j)]"
  by (simp add: encode_rune_def)

lemma encode_rune3:
  assumes "i < 16" "j < 64" "k < 64" "i = 0 \<longrightarrow> 32 \<le> j"
  shows "encode_rune (i * 4096 + j * 64 + k) = [chr (224 + i), chr (128 + j), chr (128 + k)]"
proof -
  define r where "r = i * 4096 + j * 64 + k"
  have "2048 \<le> r" using assms unfolding r_def by (cases "i = 0") auto
  moreover have "r < 65536" using assms unfolding r_def by linarith
  moreover have "r div 4096 = i" using assms unfolding r_def by (intro div_nat_eqI) auto
  moreover have "r div 64 = i * 64 + j" using assms unfolding r_def by (intro div_nat_eqI) auto
  moreover have "r mod 64 = k"
    using assms unfolding r_def by (intro mod64 [where q = "i * 64 + j"]) simp_all
  moreover have "(i * 64 + j) mod 64 = j" using assms by simp
  ultimately show ?thesis unfolding r_def [symmetric] by (simp add: encode_rune_def)
qed

lemma encode_rune4:
  assumes "i < 5" "j < 64" "k < 64" "l < 64" "i = 0 \<longrightarrow> 16 \<le> j"
  shows "encode_rune (i * 262144 + j * 4096 + k * 64 + l) =
    [chr (240 + i), chr (128 + j), chr (128 + k), chr (128 + l)]"
proof -
  define r where "r = i * 262144 + j * 4096 + k * 64 + l"
  have "65536 \<le> r" using assms unfolding r_def by (cases "i = 0") auto
  moreover have "r div 262144 = i" using assms unfolding r_def by (intro div_nat_eqI) auto
  moreover have "r div 4096 = i * 64 + j" using assms unfolding r_def by (intro div_nat_eqI) auto
  moreover have "r div 64 = i * 4096 + j * 64 + k"
    using assms unfolding r_def by (intro div_nat_eqI) auto
  moreover have "r mod 64 = l"
    using assms unfolding r_def by (intro mod64 [where q = "i * 4096 + j * 64 + k"]) simp_all
  moreover have "(i * 64 + j) mod 64 = j" using assms by simp
  moreover have "(i * 4096 + j * 64 + k) mod 64 = k"
    using assms by (intro mod64 [where q = "i * 64 + j"]) simp_all
  ultimately show ?thesis unfolding r_def [symmetric] by (simp add: encode_rune_def)
qed

lemma chr_byte_offset: "n \<le> byte c \<Longrightarrow> chr (n + (byte c - n)) = c"
  by simp

lemma rune2_encode:
  assumes "194 \<le> byte a" "byte a < 224" "cont (byte b)"
  shows "encode_rune ((byte a - 192) * 64 + (byte b - 128)) = [a, b]"
  using assms by (subst encode_rune2) (auto simp: cont_def chr_byte_offset)

lemma rune3_encode:
  assumes "224 \<le> byte a" "byte a < 240" "cont (byte b)" "cont (byte c)"
    and "byte a = 224 \<longrightarrow> 160 \<le> byte b"
  shows "encode_rune ((byte a - 224) * 4096 + (byte b - 128) * 64 + (byte c - 128)) = [a, b, c]"
  using assms by (subst encode_rune3) (auto simp: cont_def chr_byte_offset)

lemma rune4_encode:
  assumes "240 \<le> byte a" "byte a < 245" "cont (byte b)" "cont (byte c)" "cont (byte d)"
    and "byte a = 240 \<longrightarrow> 144 \<le> byte b"
  shows "encode_rune ((byte a - 240) * 262144 + (byte b - 128) * 4096 + (byte c - 128) * 64
    + (byte d - 128)) = [a, b, c, d]"
  using assms by (subst encode_rune4) (auto simp: cont_def chr_byte_offset)

text \<open>Either the byte is invalid, or the bytes read are the encoding of the rune.\<close>

lemma rune2_cases:
  assumes "194 \<le> byte a" "byte a < 224" "rune2 (byte a) (map byte s) = (r, n)"
  shows "(r, n) = (rune_error, 1) \<or> encode_rune r = take n (a # s)"
  using assms rune2_encode by (cases s) (auto split: if_splits)

lemma rune3_cases:
  assumes "224 \<le> byte a" "byte a < 240" "rune3 (byte a) (map byte s) = (r, n)"
  shows "(r, n) = (rune_error, 1) \<or> encode_rune r = take n (a # s)"
  using assms rune3_encode
  by (cases s; cases "tl s") (auto split: if_splits)

lemma rune4_cases:
  assumes "240 \<le> byte a" "byte a < 245" "rune4 (byte a) (map byte s) = (r, n)"
  shows "(r, n) = (rune_error, 1) \<or> encode_rune r = take n (a # s)"
  using assms rune4_encode
  by (cases s; cases "tl s"; cases "tl (tl s)") (auto split: if_splits)

lemma rune_width_le: "snd (rune2 b bs) \<le> 4" "snd (rune3 b bs) \<le> 4" "snd (rune4 b bs) \<le> 4"
proof -
  show "snd (rune2 b bs) \<le> 4" by (induct b bs rule: rune2.induct) simp_all
  show "snd (rune3 b bs) \<le> 4" by (induct b bs rule: rune3.induct) simp_all
  show "snd (rune4 b bs) \<le> 4" by (induct b bs rule: rune4.induct) simp_all
qed

lemma first_rune_cases:
  assumes "\<not> byte a < 128" "first_rune (a # s) = (r, n)"
  shows "(r, n) = (rune_error, 1) \<or> encode_rune r = take n (a # s)"
proof -
  have t: "take 4 (a # s) = a # take 3 s" by simp
  have n: "n \<le> 4" using assms rune_width_le [of "byte a" "map byte (take 3 s)"]
    by (auto simp: first_rune_def t split: if_splits)
  have "(r, n) = (rune_error, 1) \<or> encode_rune r = take n (a # take 3 s)"
    using assms rune2_cases [of a "take 3 s" r n] rune3_cases [of a "take 3 s" r n]
      rune4_cases [of a "take 3 s" r n]
    by (auto simp: first_rune_def t split: if_splits)
  moreover have "take n (a # take 3 s) = take n (a # s)" using n by (cases n) (simp_all add: min_def)
  ultimately show ?thesis by simp
qed

section \<open>Sanitized strings and values\<close>

function sanitize :: "string \<Rightarrow> string" where
  "sanitize s =
     (case s of
        [] \<Rightarrow> []
      | c # s' \<Rightarrow>
          if byte c < 128 then c # sanitize s'
          else encode_rune (fst (first_rune s)) @ sanitize (drop (snd (first_rune s)) s))"
  by pat_completeness auto
termination
  by (relation "measure length") (auto simp: first_rune_width intro!: diff_less)

declare sanitize.simps [simp del]

lemma sanitize_Nil [simp]: "sanitize [] = []"
  by (simp add: sanitize.simps)

lemma sanitize_ascii: "byte c < 128 \<Longrightarrow> sanitize (c # s) = c # sanitize s"
  by (subst sanitize.simps) simp

lemma sanitize_rune:
  "\<not> byte c < 128 \<Longrightarrow> sanitize (c # s) =
     encode_rune (fst (first_rune (c # s))) @ sanitize (drop (snd (first_rune (c # s))) (c # s))"
  by (subst sanitize.simps) simp

lemma sanitize_utf8: "utf8 s \<Longrightarrow> sanitize s = s"
proof (induction rule: utf8_induct)
  case (rune r s)
  show ?case
  proof (cases "r < 128")
    case True
    then have "encode_rune r = [chr r]" "byte (chr r) < 128" by (simp_all add: encode_rune_def byte_def)
    with rune show ?thesis by (simp add: sanitize_ascii)
  next
    case False
    obtain c cs where c: "encode_rune r = c # cs" by (cases "encode_rune r") auto
    have "\<not> byte c < 128" using hd_encode_rune [OF False rune(1)] c by simp
    moreover have "first_rune (c # cs @ s) = (r, Suc (length cs))"
      using first_rune_encode [OF rune(1), of s] c by simp
    ultimately show ?thesis using rune(3) c by (simp add: sanitize_rune)
  qed
qed simp

lemma str_body_escape_error:
  "str_body (backslash # ''ufffd'' @ t) = map_option (apfst ((@) (encode_rune rune_error))) (str_body t)"
proof -
  have "hex4 (CHR ''f'' # CHR ''f'' # CHR ''f'' # CHR ''d'' # t) = Some rune_error"
    by (simp add: hex_value_def is_digit_def byte_def)
  moreover have "unicode_escape rune_error t = (encode_rune rune_error, 5)"
    by (simp add: unicode_escape_def high_surrogate_def low_surrogate_def)
  ultimately show ?thesis by (simp del: hex4.simps)
qed

lemma str_body_enc_rune:
  assumes "\<not> byte c < 128" and "first_rune (c # s) = (r, n)"
  shows "str_body (enc_rune r n (c # s) @ t) = map_option (apfst ((@) (encode_rune r))) (str_body t)"
proof -
  have r: "scalar r" using first_rune_scalar [of "c # s"] assms(2) by simp
  consider "(r, n) = (rune_error, 1)" | "(r, n) \<noteq> (rune_error, 1)" "r = 8232 \<or> r = 8233"
    | "(r, n) \<noteq> (rune_error, 1)" "\<not> (r = 8232 \<or> r = 8233)" by blast
  then show ?thesis
  proof cases
    case 1
    then show ?thesis using str_body_escape_error [of t] by (simp add: enc_rune_def)
  next
    case 2
    then show ?thesis using str_body_escape_rune [of r t] by (auto simp: enc_rune_def)
  next
    case 3
    with first_rune_cases [OF assms] have enc: "encode_rune r = take n (c # s)" by blast
    have "\<not> r < 128"
    proof
      assume "r < 128"
      then have "byte (hd (encode_rune r)) = r" by (simp add: encode_rune_def byte_chr)
      moreover have "hd (encode_rune r) = c" using enc encode_rune_nonempty [of r] by (cases n) auto
      ultimately show False using assms(1) \<open>r < 128\<close> by simp
    qed
    with 3 enc str_body_encode_rune [OF r, of t] show ?thesis by (auto simp: enc_rune_def)
  qed
qed

lemma str_body_enc_any: "str_body (enc_body s @ quote_char # t) = Some (sanitize s, t)"
proof (induction s rule: enc_body.induct)
  case (1 s)
  show ?case
  proof (cases s)
    case Nil
    then show ?thesis by simp
  next
    case (Cons c s')
    show ?thesis
    proof (cases "byte c < 128")
      case True
      with 1(1) [OF Cons True] Cons show ?thesis
        by (simp add: enc_body_ascii str_body_escape_ascii sanitize_ascii)
    next
      case False
      obtain r n where rn: "first_rune (c # s') = (r, n)" by (cases "first_rune (c # s')")
      have "enc_body (c # s') = enc_rune r n (c # s') @ enc_body (drop n (c # s'))"
        using False rn by (subst enc_body.simps) simp
      with 1(2) [OF Cons False] Cons rn False show ?thesis
        by (simp add: str_body_enc_rune [OF False rn] sanitize_rune)
    qed
  qed
qed

primrec sanitized :: "json \<Rightarrow> json" where
  "sanitized JNull = JNull"
| "sanitized (JBool b) = JBool b"
| "sanitized (JNum l) = JNum l"
| "sanitized (JStr s) = JStr (sanitize s)"
| "sanitized (JArr vs) = JArr (map sanitized vs)"
| "sanitized (JObj ms) = JObj (map (map_prod sanitize sanitized) ms)"

primrec valid_numbers :: "json \<Rightarrow> bool" where
  "valid_numbers JNull = True"
| "valid_numbers (JBool b) = True"
| "valid_numbers (JNum l) = valid_number l"
| "valid_numbers (JStr s) = True"
| "valid_numbers (JArr vs) = list_all (\<lambda>b. b) (map valid_numbers vs)"
| "valid_numbers (JObj ms) = list_all snd (map (map_prod (\<lambda>k. k) valid_numbers) ms)"

lemma valid_numbers_containers [simp]:
  "valid_numbers (JArr vs) \<longleftrightarrow> (\<forall>v \<in> set vs. valid_numbers v)"
  "valid_numbers (JObj ms) \<longleftrightarrow> (\<forall>m \<in> set ms. valid_numbers (snd m))"
  by (auto simp: list_all_iff)

declare valid_numbers.simps(5,6) [simp del]

lemma lex_string_any: "lex_text (enc_string x @ s) = TStr (sanitize x) # lex_text s"
  by (simp add: lex_text.simps(2) enc_string_def lex_one_def str_body_enc_any)
    (simp add: is_ws_def byte_def quote_char_def)

lemma lex_encode_any:
  "valid_numbers v \<Longrightarrow> stops s \<Longrightarrow> lex_text (encode v @ s) = tokens (sanitized v) @ lex_text s"
proof (induction v arbitrary: s rule: json_induct)
  case (Arr vs)
  then have "lex_text (sep '','' (map encode vs) @ CHR '']'' # s)
      = sep [TComma] (map (\<lambda>v. tokens (sanitized v)) vs) @ lex_text (CHR '']'' # s)"
    by (intro lex_sep) auto
  then show ?case by (simp add: comp_def)
next
  case (Obj ms)
  have "lex_text (sep '','' (map (\<lambda>m. enc_string (fst m) @ '':'' @ encode (snd m)) ms) @ CHR ''}'' # s)
    = sep [TComma] (map (\<lambda>m. TStr (sanitize (fst m)) # TColon # tokens (sanitized (snd m))) ms)
      @ lex_text (CHR ''}'' # s)"
    by (rule lex_sep) (use Obj in \<open>simp_all add: lex_string_any\<close>)
  then show ?case by (simp add: comp_def)
qed (simp_all add: lex_string_any lex_num)

lemma depth_sanitized: "n + depth v \<le> m \<Longrightarrow> n + depth (sanitized v) \<le> m"
proof (induction v arbitrary: n rule: json_induct)
  case (Arr vs)
  have "n + depth (sanitized v) < m" if "v \<in> set vs" for v
    using that Arr.prems Arr.IH [OF that, of "Suc n"] by (simp add: Suc_le_eq)
  with Arr.prems show ?case by simp
next
  case (Obj ms)
  have "n + depth (sanitized v) < m" if "(k, v) \<in> set ms" for k v
    using that Obj.IH [OF that, of "Suc n"] Obj.prems by (fastforce simp: Suc_le_eq)
  with Obj.prems show ?case by auto
qed auto

lemma Decode_encode_any:
  assumes "valid_numbers v" and "depth v \<le> maxNestingDepth" and "stops s" and "lex_text s = []"
  shows "Decode (encode v @ s) = Some (sanitized v, [])"
proof -
  have "lex_text (encode v @ s) = tokens (sanitized v)"
    using lex_encode_any [OF assms(1,3)] assms(4) by simp
  moreover have "depth (sanitized v) \<le> maxNestingDepth"
    using depth_sanitized [of 0 v maxNestingDepth] assms(2) by simp
  ultimately show ?thesis
    using parse_tokens [of "[]" "sanitized v" "[]"] by (simp add: Decode_def)
qed

lemma sanitized_valid: "valid_json v \<Longrightarrow> sanitized v = v"
proof (induction v rule: json_induct)
  case (Arr vs)
  then show ?case by (simp add: map_idI)
next
  case (Obj ms)
  then have "map_prod sanitize sanitized m = m" if "m \<in> set ms" for m
    using that by (cases m) (auto simp: sanitize_utf8)
  then show ?case by (simp add: map_idI)
qed (simp_all add: sanitize_utf8)

lemma depth_bounds:
  "depth (JArr vs) \<le> m \<longleftrightarrow> 0 < m \<and> (\<forall>v \<in> set vs. depth v < m)"
  "depth (JObj ms) \<le> m \<longleftrightarrow> 0 < m \<and> (\<forall>x \<in> set ms. depth (snd x) < m)"
  "depth (JArr vs) < m \<longleftrightarrow> 1 < m \<and> (\<forall>v \<in> set vs. Suc (depth v) < m)"
  "depth (JObj ms) < m \<longleftrightarrow> 1 < m \<and> (\<forall>x \<in> set ms. Suc (depth (snd x)) < m)"
  using depth_containers(1) [of 0 vs m] depth_containers(2) [of 0 ms m]
    depth_containers(1) [of 1 vs m] depth_containers(2) [of 1 ms m]
  by (simp_all add: Suc_le_eq)

section \<open>Decimal literals are JSON numbers\<close>

lemma is_digit_digit: "d < 10 \<Longrightarrow> is_digit (digit d)"
  by (simp add: is_digit_def byte_def digit_def)

lemma show_nat_digits: "list_all is_digit (show_nat n)"
proof (induction n rule: show_nat.induct)
  case (1 n)
  then show ?case
    by (cases "n < 10") (simp_all add: show_nat.simps [of n] is_digit_digit)
qed

lemma digit0: "d < 10 \<Longrightarrow> digit d = CHR ''0'' \<longleftrightarrow> d = 0"
proof -
  assume "d < 10"
  then have "of_char (digit d) = (of_char CHR ''0'' :: nat) \<longleftrightarrow> d = 0"
    by (simp add: of_char_digit)
  then show ?thesis by (simp only: of_char_eq_iff)
qed

lemma hd_show_nat_zero: "hd (show_nat n) = CHR ''0'' \<longleftrightarrow> n = 0"
proof (induction n rule: show_nat.induct)
  case (1 n)
  show ?case
  proof (cases "n < 10")
    case True
    then show ?thesis by (simp add: show_nat.simps [of n] digit0)
  next
    case False
    then show ?thesis using 1 by (simp add: show_nat.simps [of n])
  qed
qed

lemma num_run_digits: "list_all is_digit s \<Longrightarrow> num_run NInt s = Some (s, [])"
  by (induction s) (auto simp: num_accepts_def)

lemma show_nat_number:
  obtains "n = 0" "show_nat n = ''0''"
  | c cs where "show_nat n = c # cs" "is_digit c" "c \<noteq> CHR ''0''" "list_all is_digit cs"
proof (cases "n = 0")
  case True
  then show thesis by (intro that(1)) (simp_all add: show_nat.simps digit0)
next
  case False
  obtain c cs where "show_nat n = c # cs" by (cases "show_nat n") auto
  with False show_nat_digits [of n] hd_show_nat_zero [of n] show thesis by (intro that(2)) auto
qed

lemma valid_number_show_int [simp]: "valid_number (show_int i)"
proof (cases "i < 0")
  case True
  show ?thesis
    by (cases rule: show_nat_number [of "nat (- i)"])
      (use True in \<open>auto simp: show_int_def valid_number_def num_run_digits num_accepts_def\<close>)
next
  case False
  show ?thesis
    by (cases rule: show_nat_number [of "nat i"])
      (use False in \<open>auto simp: show_int_def valid_number_def num_run_digits num_accepts_def
        is_digit_def byte_def\<close>)
qed

end
