(* ===== verification/Http.thy ===== *)
theory Http
  imports Idempotency Json_Any
begin

text \<open>
  What the handlers of \<open>internal/httpapi\<close> share: requests and responses, the
  \<open>problem+json\<close> documents of \<open>internal/httpapi/problem\<close>, the table of domain errors of
  \<open>errors.go\<close>, and the reading of JSON bodies of \<open>json.go\<close> with the rules by which
  \<open>encoding/json\<close> fills a struct.
\<close>

section \<open>Requests and responses\<close>

text \<open>
  \<open>req_Header\<close> is what \<open>Header.Get\<close> returns, the empty string for an absent header; the
  body is the bytes the client sends, and \<open>req_BodyBroken\<close> says that the connection fails
  after them.
\<close>

record Request =
  req_Method :: string
  req_Path :: string
  req_Header :: "string \<Rightarrow> string"
  req_Body :: string
  req_BodyBroken :: bool

record Response =
  rsp_Status :: int
  rsp_Header :: "(string \<times> string) list"
  rsp_Body :: string

text \<open>
  What the packages outside the repository contribute to one request: \<open>uuid.Parse\<close>, the
  message of the error \<open>encoding/json\<close> reports when it decodes a body into a Go type, and
  the value of \<open>uuid.New()\<close> for a new account.
\<close>

record http =
  uuid_Parse :: "string \<Rightarrow> uuid option"
  json_Error :: "string \<Rightarrow> string \<Rightarrow> string"
  account_id :: uuid

section \<open>problem.go\<close>

definition ContentType :: string where "ContentType = ''application/problem+json''"

record Problem =
  prb_Type :: string
  prb_Title :: string
  prb_Status :: int
  prb_Detail :: string

text \<open>\<open>detail\<close> is tagged \<open>omitempty\<close>.\<close>

definition marshal_Problem :: "Problem \<Rightarrow> json" where
  "marshal_Problem p = JObj
     ([(''type'', JStr (prb_Type p)), (''title'', JStr (prb_Title p)),
       (''status'', JNum (show_int (prb_Status p)))]
      @ (if prb_Detail p = [] then [] else [(''detail'', JStr (prb_Detail p))]))"

text \<open>\<open>Encoder.Encode\<close> writes the value and a newline.\<close>

definition Encode :: "json \<Rightarrow> string" where
  "Encode v = encode v @ [newline]"

definition problem_Write :: "int \<Rightarrow> string \<Rightarrow> string \<Rightarrow> string \<Rightarrow> Response" where
  "problem_Write status typ title detail =
     \<lparr>rsp_Status = status, rsp_Header = [(''Content-Type'', ContentType)],
      rsp_Body = Encode (marshal_Problem
        \<lparr>prb_Type = typ, prb_Title = title, prb_Status = status, prb_Detail = detail\<rparr>)\<rparr>"

definition problem_Internal :: "go_error \<Rightarrow> Response" where
  "problem_Internal err = problem_Write 500 ''internal_error'' ''Internal Server Error'' []"

section \<open>errors.go\<close>

record errorMapping =
  em_status :: int
  em_typ :: string
  em_title :: string

definition mapping :: "int \<Rightarrow> string \<Rightarrow> string \<Rightarrow> errorMapping" where
  "mapping status typ title = \<lparr>em_status = status, em_typ = typ, em_title = title\<rparr>"

definition domainErrors :: "(sentinel \<times> errorMapping) list" where
  "domainErrors =
    [(ErrAccountNotFound, mapping 404 ''account_not_found'' ''Account Not Found''),
     (ErrTransactionNotFound, mapping 404 ''transaction_not_found'' ''Transaction Not Found''),
     (ErrInsufficientFunds, mapping 422 ''insufficient_funds'' ''Insufficient Funds''),
     (ErrCurrencyMismatch, mapping 422 ''currency_mismatch'' ''Currency Mismatch''),
     (ErrDuplicateExternalRef, mapping 409 ''duplicate_external_ref'' ''Duplicate External Reference''),
     (ErrSameAccount, mapping 400 ''same_account'' ''Same Account''),
     (ErrInvalidAmount, mapping 400 ''invalid_amount'' ''Invalid Amount''),
     (ErrInvalidCurrency, mapping 400 ''invalid_currency'' ''Invalid Currency''),
     (ErrInvalidAccountKind, mapping 400 ''invalid_account_kind'' ''Invalid Account Kind''),
     (ErrEmptyName, mapping 400 ''invalid_name'' ''Invalid Name''),
     (ErrKeyRequired, mapping 400 ''idempotency_key_required'' ''Idempotency-Key Required''),
     (ErrKeyInvalid, mapping 400 ''idempotency_key_invalid'' ''Invalid Idempotency-Key''),
     (ErrIdempotencyKeyReuse, mapping 422 ''idempotency_key_reuse'' ''Idempotency-Key Reuse'')]"

definition writeDomainError :: "texts \<Rightarrow> go_error \<Rightarrow> Response" where
  "writeDomainError T err =
     (case find (\<lambda>m. errors_Is err (fst m)) domainErrors of
        Some (s, m) \<Rightarrow> problem_Write (em_status m) (em_typ m) (em_title m) (Error_text T err)
      | None \<Rightarrow> problem_Internal err)"

section \<open>json.go\<close>

definition maxRequestBody :: nat where "maxRequestBody = 1048576"

definition readJSONBody :: "Request \<Rightarrow> Response + string" where
  "readJSONBody r =
     (if length (req_Body r) > maxRequestBody
      then Inl (problem_Write 413 ''request_too_large'' ''Request Too Large''
             ''request body exceeds 1 MiB'')
      else if req_BodyBroken r
      then Inl (problem_Write 400 ''invalid_request'' ''Invalid Request'' ''could not read request body'')
      else Inr (req_Body r))"

subsection \<open>Filling a struct\<close>

text \<open>
  \<open>encoding/json\<close> matches a member with a field by name up to case folding. The names of
  the program are lower-case ASCII; of the runes outside ASCII only U+017F and U+212A
  fold to letters of ASCII, so the others may stay as they are.
\<close>

definition fold_rune :: "nat \<Rightarrow> nat" where
  "fold_rune r =
     (if 97 \<le> r \<and> r \<le> 122 then r - 32 else if r = 383 then 83 else if r = 8490 then 75 else r)"

definition foldName :: "string \<Rightarrow> nat list" where
  "foldName s = map fold_rune (runes (map byte s))"

text \<open>A field is its name and what a value does to the struct, \<open>None\<close> for a type error.\<close>

type_synonym 'r fields = "(string \<times> (json \<Rightarrow> 'r \<Rightarrow> 'r option)) list"

text \<open>
  The members are stored one after the other, so of several that match a field the last
  one counts. A member that matches none is an error (\<open>DisallowUnknownFields\<close>).
\<close>

fun decode_members :: "'r fields \<Rightarrow> members \<Rightarrow> 'r \<Rightarrow> 'r option" where
  "decode_members fs [] r = Some r"
| "decode_members fs ((k, v) # ms) r =
     (case find (\<lambda>f. foldName (fst f) = foldName k) fs of
        None \<Rightarrow> None
      | Some f \<Rightarrow>
          (case snd f v r of None \<Rightarrow> None | Some r' \<Rightarrow> decode_members fs ms r'))"

fun decode_struct :: "'r fields \<Rightarrow> json \<Rightarrow> 'r \<Rightarrow> 'r option" where
  "decode_struct fs (JObj ms) r = decode_members fs ms r"
| "decode_struct fs JNull r = Some r"
| "decode_struct fs _ r = None"

text \<open>Fields of type \<open>string\<close>, \<open>bool\<close>, \<open>int64\<close> and \<open>*string\<close>; \<open>null\<close> leaves the first three alone.\<close>

fun string_field :: "(string \<Rightarrow> 'r \<Rightarrow> 'r) \<Rightarrow> json \<Rightarrow> 'r \<Rightarrow> 'r option" where
  "string_field set_f (JStr s) r = Some (set_f s r)"
| "string_field set_f JNull r = Some r"
| "string_field set_f _ r = None"

fun bool_field :: "(bool \<Rightarrow> 'r \<Rightarrow> 'r) \<Rightarrow> json \<Rightarrow> 'r \<Rightarrow> 'r option" where
  "bool_field set_f (JBool b) r = Some (set_f b r)"
| "bool_field set_f JNull r = Some r"
| "bool_field set_f _ r = None"

text \<open>\<open>strconv.ParseInt(s, 10, 64)\<close>\<close>

definition ParseInt :: "string \<Rightarrow> int64 option" where
  "ParseInt s = (case read_int s of None \<Rightarrow> None | Some i \<Rightarrow> bigint i)"

fun int64_field :: "(int64 \<Rightarrow> 'r \<Rightarrow> 'r) \<Rightarrow> json \<Rightarrow> 'r \<Rightarrow> 'r option" where
  "int64_field set_f (JNum l) r = map_option (\<lambda>i. set_f i r) (ParseInt l)"
| "int64_field set_f JNull r = Some r"
| "int64_field set_f _ r = None"

fun opt_string_field :: "(string option \<Rightarrow> 'r \<Rightarrow> 'r) \<Rightarrow> json \<Rightarrow> 'r \<Rightarrow> 'r option" where
  "opt_string_field set_f (JStr s) r = Some (set_f (Some s) r)"
| "opt_string_field set_f JNull r = Some (set_f None r)"
| "opt_string_field set_f _ r = None"

subsection \<open>unmarshalJSON\<close>

definition invalid_json :: "string \<Rightarrow> Response" where
  "invalid_json detail = problem_Write 400 ''invalid_json'' ''Invalid JSON'' detail"

text \<open>\<open>typ\<close> names the destination type, for the message of a failure.\<close>

definition unmarshalJSON ::
    "http \<Rightarrow> string \<Rightarrow> 'r fields \<Rightarrow> 'r \<Rightarrow> string \<Rightarrow> Response + 'r" where
  "unmarshalJSON H typ fs zero body =
     (case Decode body of
        None \<Rightarrow> Inl (invalid_json (json_Error H typ body))
      | Some (v, rest) \<Rightarrow>
          (case decode_struct fs v zero of
             None \<Rightarrow> Inl (invalid_json (json_Error H typ body))
           | Some dst \<Rightarrow>
               if rest \<noteq> [] then Inl (invalid_json ''body must contain exactly one JSON object'')
               else Inr dst))"

definition decodeJSON ::
    "http \<Rightarrow> string \<Rightarrow> 'r fields \<Rightarrow> 'r \<Rightarrow> Request \<Rightarrow> Response + 'r" where
  "decodeJSON H typ fs zero r =
     (case readJSONBody r of Inl rsp \<Rightarrow> Inl rsp | Inr body \<Rightarrow> unmarshalJSON H typ fs zero body)"

definition parseUUIDField :: "http \<Rightarrow> string \<Rightarrow> string \<Rightarrow> Response + uuid" where
  "parseUUIDField H field raw =
     (case uuid_Parse H raw of
        None \<Rightarrow> Inl (problem_Write 400 ''invalid_uuid'' ''Invalid UUID'' (field @ '' is not a valid UUID''))
      | Some u \<Rightarrow> Inr u)"

text \<open>\<open>writeJSON\<close> of \<open>router.go\<close>; a body that cannot be encoded leaves an empty response.\<close>

definition writeJSON :: "int \<Rightarrow> json option \<Rightarrow> Response" where
  "writeJSON status body =
     \<lparr>rsp_Status = status, rsp_Header = [(''Content-Type'', ''application/json'')],
      rsp_Body = (case body of None \<Rightarrow> [] | Some v \<Rightarrow> Encode v)\<rparr>"

end
