(* ===== verification/Go_Time.thy ===== *)
theory Go_Time
  imports Json_Text
begin

text \<open>
  \<open>time.Time.Format\<close> for the two layouts that reach a client: \<open>timeFormat\<close> of
  \<open>internal/httpapi/json.go\<close>, RFC 3339 with milliseconds, and the RFC 3339 with
  as many decimals as needed that \<open>encoding/json\<close> writes for a \<open>time.Time\<close>. Times are
  microseconds since 1970-01-01T00:00:00Z in UTC, dates those of the Gregorian calendar.
\<close>

section \<open>The calendar\<close>

text \<open>
  Year, month and day of a day number: 400 years are 146097 days, and a year is counted
  from March, so that the leap day is its last.
\<close>

definition civil_of_days :: "int \<Rightarrow> int \<times> nat \<times> nat" where
  "civil_of_days days =
     (let z = days + 719468;
          doe = z mod 146097;
          yoe = (doe - doe div 1460 + doe div 36524 - doe div 146096) div 365;
          doy = doe - (365 * yoe + yoe div 4 - yoe div 100);
          mp = (5 * doy + 2) div 153;
          month = (if mp < 10 then mp + 3 else mp - 9);
          year = yoe + z div 146097 * 400 + (if month \<le> 2 then 1 else 0)
      in (year, nat month, nat (doy - (153 * mp + 2) div 5 + 1)))"

definition us_per_day :: int where "us_per_day = 86400000000"

definition Year :: "time \<Rightarrow> int" where
  "Year t = fst (civil_of_days (t div us_per_day))"

section \<open>Formatting\<close>

definition pad :: "nat \<Rightarrow> nat \<Rightarrow> string" where
  "pad w n = replicate (w - length (show_nat n)) CHR ''0'' @ show_nat n"

definition pad_int :: "nat \<Rightarrow> int \<Rightarrow> string" where
  "pad_int w i = (if i < 0 then CHR ''-'' # pad w (nat (- i)) else pad w (nat i))"

text \<open>\<open>2006-01-02T15:04:05\<close>\<close>

definition date_time :: "time \<Rightarrow> string" where
  "date_time t =
     (case civil_of_days (t div us_per_day) of (y, m, d) \<Rightarrow>
        let s = nat (t mod us_per_day div 1000000) in
        pad_int 4 y @ ''-'' @ pad 2 m @ ''-'' @ pad 2 d @ ''T'' @
        pad 2 (s div 3600) @ '':'' @ pad 2 (s div 60 mod 60) @ '':'' @ pad 2 (s mod 60))"

text \<open>\<open>2006-01-02T15:04:05.000Z\<close>\<close>

definition Format_timeFormat :: "time \<Rightarrow> string" where
  "Format_timeFormat t =
     date_time t @ ''.'' @ pad 3 (nat (t mod 1000000 div 1000)) @ ''Z''"

text \<open>
  \<open>MarshalJSON\<close>: trailing zeros of the fraction are left out, and so is an empty
  fraction; a year of more than four digits is an error.
\<close>

definition trim_zeros :: "string \<Rightarrow> string" where
  "trim_zeros s = rev (dropWhile (\<lambda>c. c = CHR ''0'') (rev s))"

definition Time_MarshalJSON :: "time \<Rightarrow> json option" where
  "Time_MarshalJSON t =
     (if 0 \<le> Year t \<and> Year t \<le> 9999
      then let frac = trim_zeros (pad 6 (nat (t mod 1000000))) in
        Some (JStr (date_time t @ (if frac = [] then [] else CHR ''.'' # frac) @ ''Z''))
      else None)"

section \<open>Width\<close>

lemma length_show_nat:
  "n < 10 \<Longrightarrow> length (show_nat n) = 1"
  "n < 100 \<Longrightarrow> length (show_nat n) \<le> 2"
  "n < 1000 \<Longrightarrow> length (show_nat n) \<le> 3"
  "n < 10000 \<Longrightarrow> length (show_nat n) \<le> 4"
proof -
  show one: "n < 10 \<Longrightarrow> length (show_nat n) = 1" for n by (simp add: show_nat.simps)
  show two: "n < 100 \<Longrightarrow> length (show_nat n) \<le> 2" for n
    using one [of "n div 10"] by (subst show_nat.simps) auto
  show three: "n < 1000 \<Longrightarrow> length (show_nat n) \<le> 3" for n
    using two [of "n div 10"] by (subst show_nat.simps) auto
  show "n < 10000 \<Longrightarrow> length (show_nat n) \<le> 4"
    using three [of "n div 10"] by (subst show_nat.simps) auto
qed

lemma length_pad: "length (show_nat n) \<le> w \<Longrightarrow> length (pad w n) = w"
  by (simp add: pad_def)

end
