(* ===== verification/Handlers.thy ===== *)
theory Handlers
  imports Http Go_Time Retries
begin

text \<open>
  The handlers of \<open>internal/httpapi\<close> (\<open>accounts.go\<close>, \<open>transactions.go\<close>, \<open>events.go\<close>)
  and the routes of \<open>router.go\<close>. A handler takes the state of the stores it calls and
  returns its response with the state they leave.
\<close>

section \<open>accounts.go\<close>

record createAccountRequest =
  car_Name :: string
  car_Kind :: string
  car_Currency :: string
  car_AllowNegativeBalance :: bool

definition createAccountRequest_zero :: createAccountRequest where
  "createAccountRequest_zero =
     \<lparr>car_Name = [], car_Kind = [], car_Currency = [], car_AllowNegativeBalance = False\<rparr>"

definition createAccountRequest_fields :: "createAccountRequest fields" where
  "createAccountRequest_fields =
    [(''name'', string_field (\<lambda>s. car_Name_update (\<lambda>_. s))),
     (''kind'', string_field (\<lambda>s. car_Kind_update (\<lambda>_. s))),
     (''currency'', string_field (\<lambda>s. car_Currency_update (\<lambda>_. s))),
     (''allow_negative_balance'', bool_field (\<lambda>b. car_AllowNegativeBalance_update (\<lambda>_. b)))]"

record accountResponse =
  acr_ID :: uuid
  acr_Name :: string
  acr_Kind :: string
  acr_Currency :: string
  acr_Balance :: int64
  acr_AllowNegativeBalance :: bool
  acr_CreatedAt :: string
  acr_UpdatedAt :: string

definition newAccountResponse :: "Account \<Rightarrow> accountResponse" where
  "newAccountResponse a =
     \<lparr>acr_ID = acc_ID a, acr_Name = acc_Name a, acr_Kind = acc_Kind a, acr_Currency = acc_Currency a,
      acr_Balance = acc_Balance a, acr_AllowNegativeBalance = acc_AllowNegativeBalance a,
      acr_CreatedAt = Format_timeFormat (acc_CreatedAt a),
      acr_UpdatedAt = Format_timeFormat (acc_UpdatedAt a)\<rparr>"

definition marshal_accountResponse :: "(uuid \<Rightarrow> string) \<Rightarrow> accountResponse \<Rightarrow> json" where
  "marshal_accountResponse U a = JObj
     [(''id'', JStr (U (acr_ID a))), (''name'', JStr (acr_Name a)), (''kind'', JStr (acr_Kind a)),
      (''currency'', JStr (acr_Currency a)), (''balance'', JNum (show_int (sint (acr_Balance a)))),
      (''allow_negative_balance'', JBool (acr_AllowNegativeBalance a)),
      (''created_at'', JStr (acr_CreatedAt a)), (''updated_at'', JStr (acr_UpdatedAt a))]"

definition writeAccount :: "texts \<Rightarrow> int \<Rightarrow> Account \<Rightarrow> Response" where
  "writeAccount T status a =
     writeJSON status (Some (marshal_accountResponse (uuid_String T) (newAccountResponse a)))"

text \<open>\<open>T\<close> gives the texts of errors and UUIDs; the store is the repository of the service.\<close>

definition handleCreateAccount ::
    "texts \<Rightarrow> http \<Rightarrow> 's Repository \<Rightarrow> Request \<Rightarrow> 's \<Rightarrow> Response \<times> 's" where
  "handleCreateAccount T H repo r s =
     (case decodeJSON H ''createAccountRequest'' createAccountRequest_fields
         createAccountRequest_zero r of
        Inl rsp \<Rightarrow> (rsp, s)
      | Inr req \<Rightarrow>
          (case Service_CreateAccount repo (account_id H)
              \<lparr>cac_Name = car_Name req, cac_Kind = car_Kind req, cac_Currency = car_Currency req,
               cac_AllowNegativeBalance = car_AllowNegativeBalance req\<rparr> s of
             (Inl err, s') \<Rightarrow> (writeDomainError T err, s')
           | (Inr account, s') \<Rightarrow> (writeAccount T 201 account, s')))"

text \<open>\<open>param\<close> is \<open>chi.URLParam(r, name)\<close>.\<close>

definition parseUUIDParam :: "http \<Rightarrow> string \<Rightarrow> string \<Rightarrow> Response + uuid" where
  "parseUUIDParam H param nam =
     (case uuid_Parse H param of
        None \<Rightarrow> Inl (problem_Write 400 ''invalid_uuid'' ''Invalid UUID''
               (''path parameter '' @ nam @ '' is not a valid UUID''))
      | Some u \<Rightarrow> Inr u)"

definition handleGetAccount ::
    "texts \<Rightarrow> http \<Rightarrow> 's Repository \<Rightarrow> string \<Rightarrow> 's \<Rightarrow> Response" where
  "handleGetAccount T H repo param s =
     (case parseUUIDParam H param ''id'' of
        Inl rsp \<Rightarrow> rsp
      | Inr i \<Rightarrow>
          (case Service_GetAccount repo i s of
             Inl err \<Rightarrow> writeDomainError T err
           | Inr account \<Rightarrow> writeAccount T 200 account))"

section \<open>transactions.go\<close>

record createTransactionRequest =
  ctr_DebitAccountID :: string
  ctr_CreditAccountID :: string
  ctr_Amount :: int64
  ctr_Currency :: string
  ctr_Description :: string
  ctr_ExternalRef :: "string option"

definition createTransactionRequest_zero :: createTransactionRequest where
  "createTransactionRequest_zero =
     \<lparr>ctr_DebitAccountID = [], ctr_CreditAccountID = [], ctr_Amount = 0, ctr_Currency = [],
      ctr_Description = [], ctr_ExternalRef = None\<rparr>"

definition createTransactionRequest_fields :: "createTransactionRequest fields" where
  "createTransactionRequest_fields =
    [(''debit_account_id'', string_field (\<lambda>s. ctr_DebitAccountID_update (\<lambda>_. s))),
     (''credit_account_id'', string_field (\<lambda>s. ctr_CreditAccountID_update (\<lambda>_. s))),
     (''amount'', int64_field (\<lambda>i. ctr_Amount_update (\<lambda>_. i))),
     (''currency'', string_field (\<lambda>s. ctr_Currency_update (\<lambda>_. s))),
     (''description'', string_field (\<lambda>s. ctr_Description_update (\<lambda>_. s))),
     (''external_ref'', opt_string_field (\<lambda>s. ctr_ExternalRef_update (\<lambda>_. s)))]"

record entryResponse =
  enr_ID :: uuid
  enr_AccountID :: uuid
  enr_Direction :: string
  enr_Amount :: int64
  enr_Currency :: string

record transactionResponse =
  trr_ID :: uuid
  trr_ExternalRef :: "string option"
  trr_Description :: string
  trr_Currency :: string
  trr_CreatedAt :: string
  trr_Entries :: "entryResponse list"

definition newTransactionResponse :: "Transaction \<Rightarrow> transactionResponse" where
  "newTransactionResponse t =
     \<lparr>trr_ID = txn_ID t, trr_ExternalRef = txn_ExternalRef t, trr_Description = txn_Description t,
      trr_Currency = txn_Currency t, trr_CreatedAt = Format_timeFormat (txn_CreatedAt t),
      trr_Entries = map (\<lambda>e. \<lparr>enr_ID = ent_ID e, enr_AccountID = ent_AccountID e,
        enr_Direction = ent_Direction e, enr_Amount = ent_Amount e, enr_Currency = ent_Currency e\<rparr>)
        (txn_Entries t)\<rparr>"

definition marshal_entryResponse :: "(uuid \<Rightarrow> string) \<Rightarrow> entryResponse \<Rightarrow> json" where
  "marshal_entryResponse U e = JObj
     [(''id'', JStr (U (enr_ID e))), (''account_id'', JStr (U (enr_AccountID e))),
      (''direction'', JStr (enr_Direction e)), (''amount'', JNum (show_int (sint (enr_Amount e)))),
      (''currency'', JStr (enr_Currency e))]"

definition marshal_transactionResponse :: "(uuid \<Rightarrow> string) \<Rightarrow> transactionResponse \<Rightarrow> json" where
  "marshal_transactionResponse U t = JObj
     [(''id'', JStr (U (trr_ID t))), (''external_ref'', json_opt_string (trr_ExternalRef t)),
      (''description'', JStr (trr_Description t)), (''currency'', JStr (trr_Currency t)),
      (''created_at'', JStr (trr_CreatedAt t)),
      (''entries'', JArr (map (marshal_entryResponse U) (trr_Entries t)))]"

definition transactionsEndpoint :: string where "transactionsEndpoint = ''POST /transactions''"

definition render_transaction :: "texts \<Rightarrow> RenderFunc" where
  "render_transaction T t =
     Inr (201, encode (marshal_transactionResponse (uuid_String T) (newTransactionResponse t)))"

text \<open>Everything before the transfer: the command and the claim of the request, or its refusal.\<close>

definition transfer_request :: "texts \<Rightarrow> http \<Rightarrow> Request \<Rightarrow> Response + (TransferCommand \<times> Claim)" where
  "transfer_request T H r =
     (let rawKey = req_Header r HeaderKey in
      case ValidateKey rawKey of
        Some err \<Rightarrow> Inl (writeDomainError T err)
      | None \<Rightarrow>
     (case readJSONBody r of
        Inl rsp \<Rightarrow> Inl rsp
      | Inr body \<Rightarrow>
     (case unmarshalJSON H ''createTransactionRequest'' createTransactionRequest_fields
         createTransactionRequest_zero body of
        Inl rsp \<Rightarrow> Inl rsp
      | Inr req \<Rightarrow>
     (case parseUUIDField H ''debit_account_id'' (ctr_DebitAccountID req) of
        Inl rsp \<Rightarrow> Inl rsp
      | Inr debitID \<Rightarrow>
     (case parseUUIDField H ''credit_account_id'' (ctr_CreditAccountID req) of
        Inl rsp \<Rightarrow> Inl rsp
      | Inr creditID \<Rightarrow>
     (case Fingerprint (json_Error H ''any'') (req_Method r) (req_Path r) body of
        Inl err \<Rightarrow> Inl (invalid_json (Error_text T err))
      | Inr fingerprint \<Rightarrow>
          Inr (\<lparr>cmd_DebitAccountID = debitID, cmd_CreditAccountID = creditID,
                cmd_Amount = ctr_Amount req, cmd_Currency = ctr_Currency req,
                cmd_Description = ctr_Description req, cmd_ExternalRef = ctr_ExternalRef req\<rparr>,
               \<lparr>claim_Key = rawKey, claim_Endpoint = transactionsEndpoint,
                claim_Fingerprint = fingerprint\<rparr>)))))))"

definition writeResult :: "Result \<Rightarrow> Response" where
  "writeResult result =
     \<lparr>rsp_Status = res_Status result,
      rsp_Header = (if res_Replayed result then [(HeaderReplayed, ''true'')] else [])
        @ [(''Content-Type'', ''application/json'')],
      rsp_Body = res_Body result\<rparr>"

definition handleCreateTransaction ::
    "texts \<Rightarrow> http \<Rightarrow> 's Repository \<Rightarrow> Request \<Rightarrow> 's \<Rightarrow> Response \<times> 's" where
  "handleCreateTransaction T H repo r s =
     (case transfer_request T H r of
        Inl rsp \<Rightarrow> (rsp, s)
      | Inr (cmd, claim) \<Rightarrow>
          (case Service_Transfer repo cmd claim (render_transaction T) s of
             (Inl err, s') \<Rightarrow> (writeDomainError T err, s')
           | (Inr result, s') \<Rightarrow> (writeResult result, s')))"

definition handleGetTransaction ::
    "texts \<Rightarrow> http \<Rightarrow> 's Repository \<Rightarrow> string \<Rightarrow> 's \<Rightarrow> Response" where
  "handleGetTransaction T H repo param s =
     (case parseUUIDParam H param ''id'' of
        Inl rsp \<Rightarrow> rsp
      | Inr i \<Rightarrow>
          (case Service_GetTransaction repo i s of
             Inl err \<Rightarrow> writeDomainError T err
           | Inr t \<Rightarrow> writeJSON 200
               (Some (marshal_transactionResponse (uuid_String T) (newTransactionResponse t)))))"

section \<open>events.go\<close>

text \<open>The \<open>EventStore\<close> interface; \<open>es_ReplayEvent\<close> has the server's publisher built in.\<close>

record 's EventStore =
  es_GetEvent :: "uuid \<Rightarrow> 's \<Rightarrow> go_error + Event"
  es_Deliveries :: "uuid \<Rightarrow> 's \<Rightarrow> go_error + Delivery list"
  es_ReplayEvent :: "uuid \<Rightarrow> 's \<Rightarrow> (go_error + (Event \<times> Delivery)) \<times> 's"

record deliveryResponse =
  der_AttemptedAt :: string
  der_Succeeded :: bool
  der_Trigger :: string
  der_Error :: "string option"

definition newDeliveryResponse :: "Delivery \<Rightarrow> deliveryResponse" where
  "newDeliveryResponse d =
     \<lparr>der_AttemptedAt = Format_timeFormat (dlv_AttemptedAt d), der_Succeeded = dlv_Succeeded d,
      der_Trigger = dlv_Trigger d, der_Error = dlv_Error d\<rparr>"

definition marshal_deliveryResponse :: "deliveryResponse \<Rightarrow> json" where
  "marshal_deliveryResponse d = JObj
     [(''attempted_at'', JStr (der_AttemptedAt d)), (''succeeded'', JBool (der_Succeeded d)),
      (''trigger'', JStr (der_Trigger d)), (''error'', json_opt_string (der_Error d))]"

record eventResponse =
  evr_EventID :: uuid
  evr_EventType :: string
  evr_SchemaVersion :: int
  evr_Status :: string
  evr_Attempts :: int
  evr_LastError :: "string option"
  evr_CreatedAt :: string
  evr_PublishedAt :: "string option"
  evr_Envelope :: Envelope
  evr_Deliveries :: "deliveryResponse list"

definition newEventResponse :: "Event \<Rightarrow> Delivery list \<Rightarrow> eventResponse" where
  "newEventResponse e deliveries =
     \<lparr>evr_EventID = ev_ID e, evr_EventType = ev_EventType e, evr_SchemaVersion = ev_SchemaVersion e,
      evr_Status = ev_Status e, evr_Attempts = ev_Attempts e, evr_LastError = ev_LastError e,
      evr_CreatedAt = Format_timeFormat (ev_CreatedAt e),
      evr_PublishedAt = map_option Format_timeFormat (ev_PublishedAt e),
      evr_Envelope = Event_Envelope e, evr_Deliveries = map newDeliveryResponse deliveries\<rparr>"

text \<open>An \<open>Envelope\<close> holds a \<open>time.Time\<close>, whose encoding can fail.\<close>

definition marshal_Envelope :: "(uuid \<Rightarrow> string) \<Rightarrow> Envelope \<Rightarrow> json option" where
  "marshal_Envelope U e =
     map_option (\<lambda>occurred. JObj
       [(''event_id'', JStr (U (envl_EventID e))), (''event_type'', JStr (envl_EventType e)),
        (''schema_version'', JNum (show_int (envl_SchemaVersion e))), (''occurred_at'', occurred),
        (''producer'', JStr (envl_Producer e)),
        (''aggregate'', JObj [(''type'', JStr (agg_Type (envl_Aggregate e))),
                            (''id'', JStr (U (agg_ID (envl_Aggregate e))))]),
        (''payload'', envl_Payload e)])
     (Time_MarshalJSON (envl_OccurredAt e))"

definition marshal_eventResponse :: "(uuid \<Rightarrow> string) \<Rightarrow> eventResponse \<Rightarrow> json option" where
  "marshal_eventResponse U e =
     map_option (\<lambda>envelope. JObj
       ([(''event_id'', JStr (U (evr_EventID e))), (''event_type'', JStr (evr_EventType e)),
         (''schema_version'', JNum (show_int (evr_SchemaVersion e))),
         (''status'', JStr (evr_Status e)), (''attempts'', JNum (show_int (evr_Attempts e))),
         (''last_error'', json_opt_string (evr_LastError e)),
         (''created_at'', JStr (evr_CreatedAt e)),
         (''published_at'', json_opt_string (evr_PublishedAt e)), (''envelope'', envelope)]
        @ (if evr_Deliveries e = [] then []
           else [(''deliveries'', JArr (map marshal_deliveryResponse (evr_Deliveries e)))])))
     (marshal_Envelope U (evr_Envelope e))"

definition writeEventError :: "texts \<Rightarrow> go_error \<Rightarrow> Response" where
  "writeEventError T err =
     (if errors_Is err ErrEventNotFound
      then problem_Write 404 ''event_not_found'' ''Event Not Found'' (Error_text T err)
      else problem_Internal err)"

definition handleGetEvent ::
    "texts \<Rightarrow> http \<Rightarrow> 's EventStore \<Rightarrow> string \<Rightarrow> 's \<Rightarrow> Response" where
  "handleGetEvent T H events param s =
     (case parseUUIDParam H param ''id'' of
        Inl rsp \<Rightarrow> rsp
      | Inr i \<Rightarrow>
          (case es_GetEvent events i s of
             Inl err \<Rightarrow> writeEventError T err
           | Inr event \<Rightarrow>
               (case es_Deliveries events i s of
                  Inl err \<Rightarrow> problem_Internal err
                | Inr deliveries \<Rightarrow>
                    writeJSON 200
                      (marshal_eventResponse (uuid_String T) (newEventResponse event deliveries)))))"

definition handleReplayEvent ::
    "texts \<Rightarrow> http \<Rightarrow> 's EventStore \<Rightarrow> string \<Rightarrow> 's \<Rightarrow> Response \<times> 's" where
  "handleReplayEvent T H events param s =
     (case parseUUIDParam H param ''id'' of
        Inl rsp \<Rightarrow> (rsp, s)
      | Inr i \<Rightarrow>
          (case es_ReplayEvent events i s of
             (Inl err, s') \<Rightarrow> (writeEventError T err, s')
           | (Inr (event, delivery), s') \<Rightarrow>
               (writeJSON 202 (map_option (\<lambda>ev. JObj
                  [(''event'', ev),
                   (''delivery'', marshal_deliveryResponse (newDeliveryResponse delivery))])
                  (marshal_eventResponse (uuid_String T) (newEventResponse event []))), s')))"

section \<open>router.go\<close>

record 's Server =
  srv_Ping :: "go_error option"
  srv_ledger :: "'s Repository"
  srv_events :: "'s EventStore"

definition handleHealth :: Response where
  "handleHealth = writeJSON 200 (Some (JObj [(''status'', JStr ''ok'')]))"

text \<open>The members of a \<open>map[string]string\<close> are written in the order of their keys.\<close>

definition handleReady :: "go_error option \<Rightarrow> Response" where
  "handleReady ping =
     (case ping of
        Some err \<Rightarrow> writeJSON 503 (Some (JObj
          [(''reason'', JStr ''database unreachable''), (''status'', JStr ''unavailable'')]))
      | None \<Rightarrow> writeJSON 200 (Some (JObj [(''status'', JStr ''ready'')])))"

text \<open>
  The table of routes as it is registered with chi. Matching a path against the patterns
  is chi's: \<open>mux\<close> says which entry a request selects and the value of its \<open>{id}\<close>.
\<close>

datatype endpoint =
    Health | Ready | CreateAccount | GetAccount | CreateTransaction | GetTransaction
  | GetEventEndpoint | ReplayEventEndpoint

definition route_table :: "((string \<times> string) \<times> endpoint) list" where
  "route_table =
    [((''GET'', ''/healthz''), Health), ((''GET'', ''/readyz''), Ready),
     ((''POST'', ''/accounts/''), CreateAccount), ((''GET'', ''/accounts/{id}''), GetAccount),
     ((''POST'', ''/transactions/''), CreateTransaction),
     ((''GET'', ''/transactions/{id}''), GetTransaction),
     ((''GET'', ''/events/{id}''), GetEventEndpoint),
     ((''POST'', ''/events/{id}/replay''), ReplayEventEndpoint)]"

datatype route_match = NoRoute | WrongMethod | Matched "string \<times> string" string

type_synonym mux = "(string \<times> string) list \<Rightarrow> string \<Rightarrow> string \<Rightarrow> route_match"

definition not_found :: "Request \<Rightarrow> Response" where
  "not_found r = problem_Write 404 ''not_found'' ''Not Found''
     (''No route matches '' @ req_Method r @ '' '' @ req_Path r)"

definition method_not_allowed :: "Request \<Rightarrow> Response" where
  "method_not_allowed r = problem_Write 405 ''method_not_allowed'' ''Method Not Allowed''
     (req_Method r @ '' is not supported on '' @ req_Path r)"

definition serve ::
    "texts \<Rightarrow> http \<Rightarrow> 's Server \<Rightarrow> endpoint \<Rightarrow> string \<Rightarrow> Request \<Rightarrow> 's \<Rightarrow> Response \<times> 's" where
  "serve T H srv ep param r s =
     (case ep of
        Health \<Rightarrow> (handleHealth, s)
      | Ready \<Rightarrow> (handleReady (srv_Ping srv), s)
      | CreateAccount \<Rightarrow> handleCreateAccount T H (srv_ledger srv) r s
      | GetAccount \<Rightarrow> (handleGetAccount T H (srv_ledger srv) param s, s)
      | CreateTransaction \<Rightarrow> handleCreateTransaction T H (srv_ledger srv) r s
      | GetTransaction \<Rightarrow> (handleGetTransaction T H (srv_ledger srv) param s, s)
      | GetEventEndpoint \<Rightarrow> (handleGetEvent T H (srv_events srv) param s, s)
      | ReplayEventEndpoint \<Rightarrow> handleReplayEvent T H (srv_events srv) param s)"

definition Routes ::
    "texts \<Rightarrow> http \<Rightarrow> mux \<Rightarrow> 's Server \<Rightarrow> Request \<Rightarrow> 's \<Rightarrow> Response \<times> 's" where
  "Routes T H mux srv r s =
     (case mux (map fst route_table) (req_Method r) (req_Path r) of
        NoRoute \<Rightarrow> (not_found r, s)
      | WrongMethod \<Rightarrow> (method_not_allowed r, s)
      | Matched route param \<Rightarrow>
          (case map_of route_table route of
             None \<Rightarrow> (not_found r, s)
           | Some ep \<Rightarrow> serve T H srv ep param r s))"

end
