(* ===== verification/Http_Facts.thy ===== *)
theory Http_Facts
  imports Handlers
begin

text \<open>
  Facts about the shared parts of the API: which response an error becomes, that error
  documents are JSON, and what a request that passes the checks looks like.
\<close>

section \<open>Error responses\<close>

definition domain_sentinels :: "sentinel list" where
  "domain_sentinels = map fst domainErrors"

definition internal_response :: Response where
  "internal_response = problem_Write 500 ''internal_error'' ''Internal Server Error'' []"

lemma problem_Internal_const [simp]: "problem_Internal err = internal_response"
  by (simp add: problem_Internal_def internal_response_def)

lemma problem_Write_sel [simp]:
  "rsp_Status (problem_Write status typ title detail) = status"
  "rsp_Header (problem_Write status typ title detail) = [(''Content-Type'', ContentType)]"
  by (simp_all add: problem_Write_def)

lemma internal_status [simp]: "rsp_Status internal_response = 500"
  by (simp add: internal_response_def)

lemma domainErrors_status:
  "(s, m) \<in> set domainErrors \<Longrightarrow> em_status m \<in> {400, 404, 409, 422}"
  by (auto simp: domainErrors_def mapping_def)

lemma writeDomainError_cases:
  obtains (domain) s m where "(s, m) \<in> set domainErrors" "errors_Is e s"
      "writeDomainError T e = problem_Write (em_status m) (em_typ m) (em_title m) (Error_text T e)"
    | (internal) "\<forall>s \<in> set domain_sentinels. \<not> errors_Is e s" "writeDomainError T e = internal_response"
proof (cases "find (\<lambda>m. errors_Is e (fst m)) domainErrors")
  case None
  then have "writeDomainError T e = internal_response" by (simp add: writeDomainError_def)
  moreover from None have "\<forall>s \<in> set domain_sentinels. \<not> errors_Is e s"
    by (auto simp: find_None_iff domain_sentinels_def)
  ultimately show thesis by (intro internal)
next
  case (Some x)
  then have "x \<in> set domainErrors \<and> errors_Is e (fst x)" by (rule find_SomeD)
  with Some show thesis
    by (intro domain [of "fst x" "snd x"]) (simp_all add: writeDomainError_def split_beta)
qed

lemma writeDomainError_status:
  "rsp_Status (writeDomainError T e) \<in> {400, 404, 409, 422, 500}"
  by (cases rule: writeDomainError_cases [of e T]) (use domainErrors_status in auto)

lemma writeDomainError_500: "rsp_Status (writeDomainError T e) = 500 \<Longrightarrow> writeDomainError T e = internal_response"
  by (cases rule: writeDomainError_cases [of e T]) (use domainErrors_status in fastforce)+

lemma writeDomainError_header [simp]:
  "rsp_Header (writeDomainError T e) = [(''Content-Type'', ContentType)]"
  by (cases rule: writeDomainError_cases [of e T]) (simp_all add: internal_response_def)

lemma writeDomainError_not_domain:
  "\<forall>s \<in> set domain_sentinels. \<not> errors_Is e s \<Longrightarrow> writeDomainError T e = internal_response"
  by (cases rule: writeDomainError_cases [of e T])
    (auto simp: domain_sentinels_def)

lemma writeEventError_cases:
  obtains (missing) "errors_Is e ErrEventNotFound"
      "writeEventError T e = problem_Write 404 ''event_not_found'' ''Event Not Found'' (Error_text T e)"
    | (internal) "\<not> errors_Is e ErrEventNotFound" "writeEventError T e = internal_response"
  by (cases "errors_Is e ErrEventNotFound") (simp_all add: writeEventError_def)

text \<open>The text of a chain that ends in a sentinel has nothing of the driver in it.\<close>

lemma Error_text_sentinel_chain:
  assumes "uuid_String T = uuid_String T'" and "strconv_Quote T = strconv_Quote T'"
  shows "errors_Is e s \<Longrightarrow> Error_text T e = Error_text T' e"
proof (induction e)
  case (Wrapf pre e post)
  have "frag_text T f = frag_text T' f" for f using assms by (cases f) simp_all
  then have "frag_text T = frag_text T'" by (rule ext)
  then have "frags_text T fs = frags_text T' fs" for fs by (simp add: frags_text_def)
  with Wrapf show ?case by simp
qed simp_all

section \<open>Error documents are JSON\<close>

lemma stops_newline [simp]: "stops [newline]"
proof -
  have "num_step q newline = None" for q
    by (cases q) (simp_all add: newline_def is_digit_def is_exp_def byte_def)
  then show ?thesis by (simp add: stops_def)
qed

lemma lex_newline [simp]: "lex_text [newline] = []"
  by (simp add: lex_text.simps(2) is_ws_def newline_def byte_def)

lemma Decode_Encode:
  "valid_numbers v \<Longrightarrow> depth v \<le> maxNestingDepth \<Longrightarrow> Decode (Encode v) = Some (sanitized v, [])"
  unfolding Encode_def by (rule Decode_encode_any) simp_all

lemma depth_flat_object:
  "(\<And>m. m \<in> set ms \<Longrightarrow> depth (snd m) = 0) \<Longrightarrow> depth (JObj ms) \<le> maxNestingDepth"
  using depth_containers(2) [of 0 ms maxNestingDepth] by (auto simp: maxNestingDepth_def)

text \<open>A problem document: its media type, and a JSON object that repeats the status.\<close>

definition problem_document :: "Response \<Rightarrow> bool" where
  "problem_document rsp \<longleftrightarrow>
     rsp_Header rsp = [(''Content-Type'', ContentType)]
     \<and> (\<exists>typ title details. typ \<noteq> [] \<and> title \<noteq> []
          \<and> Decode (rsp_Body rsp) = Some (JObj ([(''type'', JStr typ), (''title'', JStr title),
              (''status'', JNum (show_int (rsp_Status rsp)))] @ details), []))"

lemma sanitize_ascii_string: "list_all (\<lambda>c. byte c < 128) s \<Longrightarrow> sanitize s = s"
  by (intro sanitize_utf8 utf8_ascii_string)

lemma sanitize_nonempty: "s \<noteq> [] \<Longrightarrow> sanitize s \<noteq> []"
  by (cases s; cases "byte (hd s) < 128") (simp_all add: sanitize_ascii sanitize_rune)

lemma member_names [simp]: "sanitize ''type'' = ''type''" "sanitize ''title'' = ''title''"
    "sanitize ''status'' = ''status''"
  by (simp_all add: sanitize_ascii_string byte_def)

lemma problem_document_Write:
  assumes "typ \<noteq> []" and "title \<noteq> []"
  shows "problem_document (problem_Write status typ title detail)"
proof -
  let ?p = "\<lparr>prb_Type = typ, prb_Title = title, prb_Status = status, prb_Detail = detail\<rparr>"
  have "Decode (Encode (marshal_Problem ?p)) = Some (sanitized (marshal_Problem ?p), [])"
    by (rule Decode_Encode) (auto simp: marshal_Problem_def intro!: depth_flat_object)
  then show ?thesis
    using assms unfolding problem_document_def problem_Write_def
    by (auto simp: marshal_Problem_def sanitize_nonempty)
qed

lemma problem_document_domain: "problem_document (writeDomainError T e)"
proof (cases rule: writeDomainError_cases [of e T])
  case (domain s m)
  from domain(1) have "em_typ m \<noteq> []" "em_title m \<noteq> []" by (auto simp: domainErrors_def mapping_def)
  with domain(3) show ?thesis by (simp add: problem_document_Write)
qed (simp add: internal_response_def problem_document_Write)

lemma problem_document_internal: "problem_document internal_response"
  by (simp add: internal_response_def problem_document_Write)

lemma problem_document_event: "problem_document (writeEventError T e)"
  by (cases rule: writeEventError_cases [of e T])
    (simp_all add: problem_document_Write problem_document_internal)

section \<open>Refusals before the service is called\<close>

text \<open>A refusal is a client error with a problem document.\<close>

definition refusal :: "Response \<Rightarrow> bool" where
  "refusal rsp \<longleftrightarrow> rsp_Status rsp \<in> {400, 413} \<and> problem_document rsp"

lemma refusal_Write: "status \<in> {400, 413} \<Longrightarrow> typ \<noteq> [] \<Longrightarrow> title \<noteq> [] \<Longrightarrow>
    refusal (problem_Write status typ title detail)"
  by (auto simp: refusal_def problem_document_Write)

lemma readJSONBody_refusal: "readJSONBody r = Inl rsp \<Longrightarrow> refusal rsp"
  by (auto simp: readJSONBody_def refusal_Write split: if_splits)

lemma invalid_json_refusal: "refusal (invalid_json detail)"
  by (simp add: invalid_json_def refusal_Write)

lemma unmarshalJSON_refusal: "unmarshalJSON H typ fs zero body = Inl rsp \<Longrightarrow> refusal rsp"
  by (auto simp: unmarshalJSON_def invalid_json_refusal split: option.splits if_splits)

lemma decodeJSON_refusal: "decodeJSON H typ fs zero r = Inl rsp \<Longrightarrow> refusal rsp"
  by (auto simp: decodeJSON_def readJSONBody_refusal unmarshalJSON_refusal split: sum.splits)

lemma parseUUIDField_refusal: "parseUUIDField H field raw = Inl rsp \<Longrightarrow> refusal rsp"
  by (auto simp: parseUUIDField_def refusal_Write split: option.splits)

lemma parseUUIDParam_refusal: "parseUUIDParam H param nam = Inl rsp \<Longrightarrow> refusal rsp"
  by (auto simp: parseUUIDParam_def refusal_Write split: option.splits)

lemma ValidateKey_refusal:
  assumes "ValidateKey key = Some err"
  shows "refusal (writeDomainError T err)"
proof -
  from ValidateKey_Some [OF assms] obtain s where s: "errors_Is err s" "s \<in> {ErrKeyRequired, ErrKeyInvalid}"
    by (cases "key = []") auto
  have "rsp_Status (writeDomainError T err) = 400"
  proof (cases rule: writeDomainError_cases [of err T])
    case (domain s' m)
    with s errors_Is_unique [of err s s'] show ?thesis by (auto simp: domainErrors_def mapping_def)
  next
    case internal
    with s show ?thesis by (auto simp: domain_sentinels_def domainErrors_def)
  qed
  then show ?thesis by (simp add: refusal_def problem_document_domain)
qed

lemma transfer_request_refusal: "transfer_request T H r = Inl rsp \<Longrightarrow> refusal rsp"
  by (auto simp: transfer_request_def Let_def ValidateKey_refusal readJSONBody_refusal
      unmarshalJSON_refusal parseUUIDField_refusal invalid_json_refusal
      split: option.splits sum.splits)

section \<open>What an accepted transfer request says\<close>

lemma unmarshalJSON_Inr:
  "unmarshalJSON H typ fs zero body = Inr dst \<longleftrightarrow>
     (\<exists>v. Decode body = Some (v, []) \<and> decode_struct fs v zero = Some dst)"
  by (auto simp: unmarshalJSON_def split: option.splits)

lemma readJSONBody_Inr:
  "readJSONBody r = Inr body \<longleftrightarrow>
     length (req_Body r) \<le> maxRequestBody \<and> \<not> req_BodyBroken r \<and> body = req_Body r"
  by (auto simp: readJSONBody_def)

lemma transfer_request_Inr:
  assumes "transfer_request T H r = Inr (cmd, claim)"
  obtains v req where "ValidateKey (req_Header r HeaderKey) = None"
    "length (req_Body r) \<le> maxRequestBody" "\<not> req_BodyBroken r"
    "Decode (req_Body r) = Some (v, [])"
    "decode_struct createTransactionRequest_fields v createTransactionRequest_zero = Some req"
    "uuid_Parse H (ctr_DebitAccountID req) = Some (cmd_DebitAccountID cmd)"
    "uuid_Parse H (ctr_CreditAccountID req) = Some (cmd_CreditAccountID cmd)"
    "cmd_Amount cmd = ctr_Amount req" "cmd_Currency cmd = ctr_Currency req"
    "cmd_Description cmd = ctr_Description req" "cmd_ExternalRef cmd = ctr_ExternalRef req"
    "claim = \<lparr>claim_Key = req_Header r HeaderKey, claim_Endpoint = transactionsEndpoint,
       claim_Fingerprint = Sum256 (hashed (req_Method r) (req_Path r) (encode (any_value v)))\<rparr>"
  using assms
  by (auto simp: transfer_request_def Let_def readJSONBody_Inr unmarshalJSON_Inr parseUUIDField_def
      Fingerprint_def canonicalJSON_Decode split: option.splits sum.splits)

end
