(* ===== verification/Api.thy ===== *)
theory Api
  imports Http_Facts
begin

text \<open>
  The API over the PostgreSQL store, as \<open>cmd/api\<close> wires it: requests and batches of the
  relay as steps of one system. Each is a step of the system of the theory \<open>System\<close>, so
  what holds in its reachable states holds behind the API.
\<close>

section \<open>The backend as an interface\<close>

text \<open>
  What the routes rely on: a repository and an event store over one state, each of whose
  operations keeps the invariant of that state.
\<close>

locale api_backend = ledger_repository repo inv
  for repo :: "'s Repository" and inv :: "'s \<Rightarrow> bool" +
  fixes events :: "'s EventStore"
  assumes replay_inv: "es_ReplayEvent events i s = (res, s') \<Longrightarrow> inv s \<Longrightarrow> inv s'"
begin

lemma create_account_inv:
  "handleCreateAccount T H repo r s = (rsp, s') \<Longrightarrow> inv s \<Longrightarrow> inv s'"
  by (auto simp: handleCreateAccount_def intro: service_create_inv split: sum.splits prod.splits)

lemma create_transaction_inv:
  "handleCreateTransaction T H repo r s = (rsp, s') \<Longrightarrow> inv s \<Longrightarrow> inv s'"
  by (auto simp: handleCreateTransaction_def intro: service_transfer_inv split: sum.splits prod.splits)

lemma replay_event_inv:
  "handleReplayEvent T H events param s = (rsp, s') \<Longrightarrow> inv s \<Longrightarrow> inv s'"
  by (auto simp: handleReplayEvent_def intro: replay_inv split: sum.splits prod.splits)

lemma routes_inv:
  assumes "Routes T H mux \<lparr>srv_Ping = ping, srv_ledger = repo, srv_events = events\<rparr> r s = (rsp, s')"
    and "inv s"
  shows "inv s'"
  using assms create_account_inv create_transaction_inv replay_event_inv
  by (auto simp: Routes_def serve_def split: route_match.splits option.splits endpoint.splits)

end

section \<open>The PostgreSQL store as the backend\<close>

text \<open>The database is shared with a publisher, whose state the ledger does not touch.\<close>

definition lift_repository :: "db Repository \<Rightarrow> (db \<times> 'p) Repository" where
  "lift_repository R =
     \<lparr>repo_CreateAccount = (\<lambda>a s. case repo_CreateAccount R a (fst s) of (res, d') \<Rightarrow> (res, (d', snd s))),
      repo_GetAccount = (\<lambda>i s. repo_GetAccount R i (fst s)),
      repo_Transfer = (\<lambda>cmd claim render s.
        case repo_Transfer R cmd claim render (fst s) of (res, d') \<Rightarrow> (res, (d', snd s))),
      repo_GetTransaction = (\<lambda>i s. repo_GetTransaction R i (fst s))\<rparr>"

definition Store_events :: "env \<Rightarrow> 'p publisher \<Rightarrow> (db \<times> 'p) EventStore" where
  "Store_events E publish =
     \<lparr>es_GetEvent = (\<lambda>i s. GetEvent E i (fst s)), es_Deliveries = (\<lambda>i s. Deliveries E i (fst s)),
      es_ReplayEvent = (\<lambda>i s. case ReplayEvent E i publish (snd s) (fst s) of
        (res, p', d') \<Rightarrow> (res, (d', p')))\<rparr>"

definition NewServer :: "go_error option \<Rightarrow> 's Repository \<Rightarrow> 's EventStore \<Rightarrow> 's Server" where
  "NewServer pool svc events = \<lparr>srv_Ping = pool, srv_ledger = svc, srv_events = events\<rparr>"

text \<open>
  One request: \<open>E\<close> is what the database does during it, \<open>ping\<close> the outcome of the probe.
\<close>

definition handle ::
    "env \<Rightarrow> http \<Rightarrow> mux \<Rightarrow> 'p publisher \<Rightarrow> go_error option \<Rightarrow> Request \<Rightarrow> db \<times> 'p \<Rightarrow> Response \<times> (db \<times> 'p)" where
  "handle E H mux publish ping =
     Routes (env_texts E) H mux
       (NewServer ping (lift_repository (Store_repository E)) (Store_events E publish))"

lemma Service_CreateAccount_lift:
  "Service_CreateAccount (lift_repository R) i cmd (d, p) =
     (case Service_CreateAccount R i cmd d of (res, d') \<Rightarrow> (res, (d', p)))"
  by (auto simp: Service_CreateAccount_def lift_repository_def split: option.splits prod.splits sum.splits)

lemma Service_Transfer_lift:
  "Service_Transfer (lift_repository R) cmd claim render (d, p) =
     (case Service_Transfer R cmd claim render d of (res, d') \<Rightarrow> (res, (d', p)))"
  by (auto simp: Service_Transfer_def lift_repository_def split: option.splits prod.splits sum.splits)

text \<open>The backend keeps the invariant of the whole database.\<close>

lemma system_inv_Store_CreateAccount:
  assumes run: "Store_CreateAccount E a d = (res, d')" and "acc_Balance a = 0" and inv: "system_inv d"
  shows "system_inv d'"
proof -
  have "system_inv d''" if "insert_account (acc_ID a) row d = Inr d''" "ar_balance row = 0" for row d''
  proof -
    from that have "idempotency_keys d'' = idempotency_keys d" "transactions d'' = transactions d"
      by (auto simp: insert_account_def split: if_splits)
    with that inv show ?thesis
      by (auto simp: system_inv_def keys_exact_def
          intro: ledger_inv_insert_account outbox_inv_insert_account)
  qed
  with run assms(2,3) show ?thesis
    by (cases rule: Store_CreateAccount_cases) (auto simp: account_row_of_balance)
qed

lemma system_inv_Store_Transfer:
  assumes run: "Store_Transfer E cmd claim render d = (res, d')"
    and "TransferCommand_Validate cmd = None" and "system_inv d"
  shows "system_inv d'"
proof (rule system_step_inv)
  show "system_step (\<lambda>e p. (None, p)) (d, ()) (d', ())"
    by (rule system_step.transfer [where E = E and cmd = cmd and claim = claim and render = render])
      (use assms in \<open>simp add: Service_Transfer_eq\<close>)
qed (fact assms(3))

interpretation api: api_backend
  "lift_repository (Store_repository E)" "\<lambda>s. system_inv (fst s)" "Store_events E publish"
  for E publish
proof (unfold_locales, goal_cases)
  case (1 a s r s')
  then show ?case
    by (auto simp: lift_repository_def Store_repository_def intro: system_inv_Store_CreateAccount
        split: prod.splits)
next
  case (2 cmd claim render s r s')
  then show ?case
    by (auto simp: lift_repository_def Store_repository_def intro: system_inv_Store_Transfer
        split: prod.splits)
next
  case (3 cmd claim render s res s' t)
  then show ?case
    by (auto simp: lift_repository_def Store_repository_def intro: Store_Transfer_Balanced
        split: prod.splits)
next
  case (4 i s res s')
  obtain d p d' p' where s: "s = (d, p)" "s' = (d', p')" by (cases s; cases s')
  with 4 have "ReplayEvent E i publish p d = (res, p', d')"
    by (auto simp: Store_events_def split: prod.splits)
  from system_step_inv [OF system_step.replay [OF this]] 4(2) s show ?case by simp
qed

lemma handle_inv: "handle E H mux publish ping r s = (rsp, s') \<Longrightarrow> system_inv (fst s) \<Longrightarrow> system_inv (fst s')"
  unfolding handle_def NewServer_def by (rule api.routes_inv)

section \<open>Requests as steps of the system\<close>

text \<open>What a request can be: one of the three writing handlers, or one that only reads.\<close>

lemma handle_cases:
  assumes "handle E H mux publish ping r (d, p) = (rsp, (d', p'))"
  obtains (reads) "d' = d" "p' = p"
    | (create) cmd res where
      "Service_CreateAccount (Store_repository E) (account_id H) cmd d = (res, d')" "p' = p"
      "rsp = (case res of Inl err \<Rightarrow> writeDomainError (env_texts E) err
        | Inr a \<Rightarrow> writeAccount (env_texts E) 201 a)"
    | (transfer) cmd claim res where "transfer_request (env_texts E) H r = Inr (cmd, claim)"
      "Service_Transfer (Store_repository E) cmd claim (render_transaction (env_texts E)) d = (res, d')"
      "p' = p"
      "rsp = (case res of Inl err \<Rightarrow> writeDomainError (env_texts E) err | Inr x \<Rightarrow> writeResult x)"
    | (replay) eid res where "ReplayEvent E eid publish p d = (res, p', d')"
      "case res of Inl err \<Rightarrow> rsp = writeEventError (env_texts E) err
        | Inr x \<Rightarrow> \<exists>v. rsp = writeJSON 202 v"
proof -
  let ?T = "env_texts E" and ?repo = "lift_repository (Store_repository E) :: (db \<times> 'a) Repository"
    and ?events = "Store_events E publish"
  consider (none) "(d', p') = (d, p)"
    | (c) "handleCreateAccount ?T H ?repo r (d, p) = (rsp, (d', p'))"
    | (t) "handleCreateTransaction ?T H ?repo r (d, p) = (rsp, (d', p'))"
    | (e) param where "handleReplayEvent ?T H ?events param (d, p) = (rsp, (d', p'))"
    using assms unfolding handle_def NewServer_def
    by (auto simp: Routes_def serve_def split: route_match.splits option.splits endpoint.splits)
  then show thesis
  proof cases
    case none
    then show thesis by (intro reads) simp_all
  next
    case c
    show thesis
    proof (cases "decodeJSON H ''createAccountRequest'' createAccountRequest_fields
        createAccountRequest_zero r")
      case (Inl x)
      with c show thesis by (intro reads) (simp_all add: handleCreateAccount_def)
    next
      case (Inr req)
      let ?cmd = "\<lparr>cac_Name = car_Name req, cac_Kind = car_Kind req, cac_Currency = car_Currency req,
        cac_AllowNegativeBalance = car_AllowNegativeBalance req\<rparr>"
      obtain res d1 where run: "Service_CreateAccount (Store_repository E) (account_id H) ?cmd d = (res, d1)"
        by (cases "Service_CreateAccount (Store_repository E) (account_id H) ?cmd d")
      with c Inr show thesis
        by (intro create [of ?cmd res])
          (auto simp: handleCreateAccount_def Service_CreateAccount_lift split: sum.splits)
    qed
  next
    case t
    show thesis
    proof (cases "transfer_request ?T H r")
      case (Inl x)
      with t show thesis by (intro reads) (simp_all add: handleCreateTransaction_def)
    next
      case (Inr x)
      obtain cmd claim where x: "x = (cmd, claim)" by (cases x)
      obtain res d1 where
        run: "Service_Transfer (Store_repository E) cmd claim (render_transaction ?T) d = (res, d1)"
        by (cases "Service_Transfer (Store_repository E) cmd claim (render_transaction ?T) d")
      with t Inr x show thesis
        by (intro transfer [of cmd claim res])
          (auto simp: handleCreateTransaction_def Service_Transfer_lift split: sum.splits)
    qed
  next
    case e
    show thesis
    proof (cases "parseUUIDParam H param ''id''")
      case (Inl x)
      with e show thesis by (intro reads) (simp_all add: handleReplayEvent_def)
    next
      case (Inr eid)
      obtain res p1 d1 where run: "ReplayEvent E eid publish p d = (res, p1, d1)"
        by (cases "ReplayEvent E eid publish p d")
      with e Inr show thesis
        by (intro replay [of eid res])
          (auto simp: handleReplayEvent_def Store_events_def split: sum.splits)
    qed
  qed
qed

lemma handle_refines:
  assumes "handle E H mux publish ping r s = (rsp, s')"
  shows "s' = s \<or> system_step publish s s'"
proof -
  obtain d p d' p' where s: "s = (d, p)" "s' = (d', p')" by (cases s; cases s')
  from assms [unfolded s] show ?thesis
    by (cases rule: handle_cases) (auto simp: s intro: system_step.intros)
qed

text \<open>The running program: requests to the API and batches of the relay, in any order.\<close>

inductive api_step :: "'p publisher \<Rightarrow> db \<times> 'p \<Rightarrow> db \<times> 'p \<Rightarrow> bool" for publish where
  request: "handle E H mux publish ping r s = (rsp, s') \<Longrightarrow> api_step publish s s'"
| relay: "DispatchBatch E limit publish p d = (r, p', d') \<Longrightarrow> scans_all E \<Longrightarrow>
    api_step publish (d, p) (d', p')"

inductive api_reachable :: "'p publisher \<Rightarrow> 'p \<Rightarrow> db \<times> 'p \<Rightarrow> bool" for publish p0 where
  start: "api_reachable publish p0 (empty_db, p0)"
| step: "api_reachable publish p0 s \<Longrightarrow> api_step publish s s' \<Longrightarrow> api_reachable publish p0 s'"

lemma api_step_refines: "api_step publish s s' \<Longrightarrow> s' = s \<or> system_step publish s s'"
  by (cases rule: api_step.cases) (auto dest: handle_refines intro: system_step.dispatch)

lemma api_reachable_reachable: "api_reachable publish p0 s \<Longrightarrow> reachable publish p0 s"
proof (induction rule: api_reachable.induct)
  case (step s s')
  then show ?case using api_step_refines [OF step(2)] by (auto intro: reachable.step)
qed (rule reachable.start)

section \<open>The responses the database keeps\<close>

text \<open>Every stored response is a JSON document with status 201.\<close>

definition stored_ok :: "db \<Rightarrow> bool" where
  "stored_ok d \<longleftrightarrow>
     (\<forall>k row. idempotency_keys d k = Some row \<longrightarrow>
        ir_response_status row = Some 201
        \<and> (\<exists>body v. ir_response_body row = Some body \<and> Decode body = Some (v, [])))"

lemma render_transaction_Decode:
  "\<exists>body v. render_transaction T t = Inr (201, body) \<and> Decode body = Some (v, [])"
proof -
  let ?v = "marshal_transactionResponse (uuid_String T) (newTransactionResponse t)"
  have ref: "valid_numbers (json_opt_string x)" "depth (json_opt_string x) = 0" for x
    by (simp_all add: json_opt_string_def split: option.split)
  have "valid_numbers ?v"
    by (auto simp: marshal_transactionResponse_def marshal_entryResponse_def ref)
  moreover have "depth ?v \<le> maxNestingDepth"
    by (auto simp: marshal_transactionResponse_def marshal_entryResponse_def maxNestingDepth_def
        depth_bounds ref)
  ultimately have "Decode (encode ?v @ []) = Some (sanitized ?v, [])"
    by (intro Decode_encode_any) simp_all
  then show ?thesis by (auto simp: render_transaction_def)
qed

lemma Service_Transfer_effect:
  assumes "Service_Transfer (Store_repository E) cmd claim render d = (res, d')"
  obtains (unchanged) "d' = d"
    | (moved) status body where "transfer_effect E cmd claim render status body d d'"
proof (cases "TransferCommand_Validate cmd")
  case (Some e)
  with assms show thesis by (intro unchanged) (simp add: Service_Transfer_eq)
next
  case None
  then have neq: "cmd_DebitAccountID cmd \<noteq> cmd_CreditAccountID cmd"
    by (simp add: TransferCommand_Validate_None)
  from assms None have "Store_Transfer E cmd claim render d = (res, d')"
    by (simp add: Service_Transfer_eq)
  from this neq show thesis
    by (cases rule: Store_Transfer_cases) (use unchanged moved in blast)+
qed

lemma stored_ok_same: "idempotency_keys d' = idempotency_keys d \<Longrightarrow> stored_ok d \<Longrightarrow> stored_ok d'"
  by (simp add: stored_ok_def)

lemma stored_ok_transfer:
  assumes "transfer_effect E cmd claim (render_transaction T) status body d d'" and "stored_ok d"
  shows "stored_ok d'"
proof -
  from assms(1) obtain currency rd rc bd bc where
    body: "render_transaction T (transfer_txn E cmd) = Inr (status, body)"
    and d': "d' = after_transfer E cmd claim status body currency rd rc bd bc d"
    unfolding transfer_effect_def by blast
  from render_transaction_Decode [of T "transfer_txn E cmd"] body obtain v
    where "status = 201" "Decode body = Some (v, [])" by auto
  with assms(2) show ?thesis
    by (auto simp: stored_ok_def d' row_simps response_row_def)
qed

lemma stored_ok_step:
  assumes "api_step publish s s'" and "stored_ok (fst s)" and inv: "system_inv (fst s)"
  shows "stored_ok (fst s')"
  using assms(1)
proof cases
  case (request E H mux ping r rsp)
  obtain d p d' p' where s: "s = (d, p)" "s' = (d', p')" by (cases s; cases s')
  from inv have oi: "outbox_inv d" by (simp add: system_inv_def s)
  from request [unfolded s] show ?thesis
  proof (cases rule: handle_cases)
    case (create cmd res)
    from create(1) show ?thesis
      by (cases rule: Service_CreateAccount_cases)
        (use assms(2) s in \<open>auto simp: insert_account_def stored_ok_def split: if_splits\<close>)
  next
    case (transfer cmd claim res)
    from transfer(2) show ?thesis
      by (cases rule: Service_Transfer_effect)
        (use assms(2) s in \<open>auto intro: stored_ok_transfer\<close>)
  next
    case (replay eid res)
    from any_publisher.replay_inv(3) [OF replay(1) oi delivered_UNIV] assms(2) s show ?thesis
      by (auto simp: same_ledger_def intro: stored_ok_same)
  qed (use assms(2) s in simp)
next
  case (relay E limit p d r p' d')
  from inv have oi: "outbox_inv d" by (simp add: system_inv_def relay)
  from any_publisher.dispatch_inv(3) [OF relay(3,4) oi delivered_UNIV] assms(2) relay(1,2)
  show ?thesis by (auto simp: same_ledger_def intro: stored_ok_same)
qed

lemma api_reachable_inv:
  "api_reachable publish p0 s \<Longrightarrow> system_inv (fst s) \<and> stored_ok (fst s)"
proof (induction rule: api_reachable.induct)
  case start
  then show ?case by (simp add: system_inv_empty stored_ok_def) (simp add: empty_db_def)
next
  case (step s s')
  from reachable_system_inv [OF api_reachable_reachable [OF api_reachable.step [OF step(1,2)]]]
    stored_ok_step [OF step(2)] step(3) show ?case by blast
qed

end
