(* ===== verification/Api_Facts.thy ===== *)
theory Api_Facts
  imports Api
begin

text \<open>
  Which requests can change the database: a request the API answers with a client error
  leaves it as it was.
\<close>

section \<open>Faults and what they hide\<close>

text \<open>
  When the server has applied a statement although the call fails, the failure is a lost
  connection and not an error the server reported.
\<close>

definition honest_server :: "env \<Rightarrow> bool" where
  "honest_server E \<longleftrightarrow>
     driver_faults E
     \<and> (commit_applied E \<longrightarrow> (\<forall>s e. fails E s = Some e \<longrightarrow> errors_As_PgError e = None))"

lemma honest_no_sentinel:
  "honest_server E \<Longrightarrow> fails E s = Some e \<Longrightarrow> t \<notin> {Canceled, DeadlineExceeded} \<Longrightarrow> \<not> errors_Is e t"
  unfolding honest_server_def driver_faults_def using driver_failure_no_sentinel by blast

lemma domain_sentinels_code: "Canceled \<notin> set domain_sentinels" "DeadlineExceeded \<notin> set domain_sentinels"
  "ErrEventNotFound \<notin> set domain_sentinels"
  by (simp_all add: domain_sentinels_def domainErrors_def)

text \<open>A driver failure, wrapped or not, is an internal error for the client.\<close>

lemma fault_is_internal:
  assumes "honest_server E" and "fails E s = Some f" and "\<And>t. errors_Is e t = errors_Is f t"
  shows "writeDomainError T e = internal_response"
proof (rule writeDomainError_not_domain, rule ballI)
  fix t assume "t \<in> set domain_sentinels"
  with domain_sentinels_code have "t \<notin> {Canceled, DeadlineExceeded}" by auto
  with honest_no_sentinel [OF assms(1,2)] assms(3) show "\<not> errors_Is e t" by simp
qed

section \<open>The three writing requests\<close>

lemma tx_rollback_owned:
  "claimKey E (tx_begin d) claim = Inr (b, t0) \<Longrightarrow> tx_rollback t0 = d"
  by (cases b)
    (auto simp: claimKey_owned claimKey_not_owned tx_rollback_def tx_begin_def claimed_def)

lemma Store_Transfer_lost:
  assumes run: "Store_Transfer E cmd claim render d = (Inl e, d')" and "d' \<noteq> d"
    and neq: "cmd_DebitAccountID cmd \<noteq> cmd_CreditAccountID cmd"
  obtains f where "fails E CommitTransfer = Some f" "commit_applied E" "e = translateWriteError f"
proof -
  from run neq have "fails E CommitTransfer \<noteq> None \<and> commit_applied E"
    by (cases rule: Store_Transfer_cases) (use \<open>d' \<noteq> d\<close> in auto)
  then obtain f where f: "fails E CommitTransfer = Some f" "commit_applied E" by blast
  have begun: "fails E BeginTransfer = None"
    using run \<open>d' \<noteq> d\<close> by (auto simp: Store_Transfer_def split: option.splits)
  obtain b t0 where claimed: "claimKey E (tx_begin d) claim = Inr (b, t0)"
    using run \<open>d' \<noteq> d\<close> begun
    by (cases "claimKey E (tx_begin d) claim") (auto simp: Store_Transfer_def)
  from tx_rollback_owned [OF this] run \<open>d' \<noteq> d\<close> begun claimed f(1) have "e = translateWriteError f"
    by (auto simp: Store_Transfer_def tx_commit_def split: sum.splits prod.splits option.splits if_splits)
  with f show thesis by (intro that)
qed

lemma transfer_client_error:
  assumes run: "Service_Transfer (Store_repository E) cmd claim render d = (Inl e, d')"
    and honest: "honest_server E" and status: "rsp_Status (writeDomainError T e) \<noteq> 500"
  shows "d' = d"
proof (rule ccontr)
  assume changed: "d' \<noteq> d"
  have valid: "TransferCommand_Validate cmd = None"
    using run changed by (cases "TransferCommand_Validate cmd") (auto simp: Service_Transfer_eq)
  then have neq: "cmd_DebitAccountID cmd \<noteq> cmd_CreditAccountID cmd"
    by (simp add: TransferCommand_Validate_None)
  from run valid have "Store_Transfer E cmd claim render d = (Inl e, d')"
    by (simp add: Service_Transfer_eq)
  from this changed neq obtain f where f: "fails E CommitTransfer = Some f" "commit_applied E"
    "e = translateWriteError f" by (rule Store_Transfer_lost)
  with honest have "errors_As_PgError f = None" by (auto simp: honest_server_def)
  with f(3) have "e = f" by (simp add: translateWriteError_def)
  with fault_is_internal [OF honest f(1)] status show False by simp
qed

lemma create_client_error:
  assumes run: "Service_CreateAccount (Store_repository E) i cmd d = (Inl e, d')"
    and honest: "honest_server E" and status: "rsp_Status (writeDomainError T e) \<noteq> 500"
  shows "d' = d"
proof (rule ccontr)
  assume changed: "d' \<noteq> d"
  with run obtain f where "fails E CreateAccountQuery = Some f" "\<And>t. errors_Is e t = errors_Is f t"
    by (auto simp: Service_CreateAccount_def Store_repository_def Store_CreateAccount_def autocommit_def
        split: option.splits sum.splits prod.splits if_splits)
  from fault_is_internal [OF honest this] status show False by simp
qed

lemma call_not_found:
  assumes "honest_server E" and "call E s x = Inl e" and "\<And>e. x = Inl e \<Longrightarrow> \<not> errors_Is e ErrEventNotFound"
  shows "\<not> errors_Is e ErrEventNotFound"
  using assms honest_no_sentinel [OF assms(1), of s _ ErrEventNotFound]
  by (auto simp: call_def split: option.splits)

lemma mark_failed_attempt_not_found:
  "mark_failed_attempt E i st n msg iv d = Inl e \<Longrightarrow> \<not> errors_Is e ErrEventNotFound"
  by (auto simp: mark_failed_attempt_def text_param_def interval_param_def
      split: option.splits sum.splits if_splits)

lemma recordDelivery_not_found:
  assumes "honest_server E" and "recordDelivery E t i ok trigger msg = Inl e"
  shows "\<not> errors_Is e ErrEventNotFound"
proof -
  have "\<not> errors_Is e ErrEventNotFound" if "insert_delivery i n s g m d = Inl e" for n s g m d e
    using that by (auto simp: insert_delivery_def Let_def split: if_splits)
  with assms show ?thesis
    by (auto simp: recordDelivery_def split: sum.splits dest!: call_not_found [OF assms(1)])
qed

lemma settleAttempt_not_found:
  assumes "honest_server E" and "settleAttempt E t ev perr trigger = Inl e"
  shows "\<not> errors_Is e ErrEventNotFound"
  using assms(2)
  by (auto simp: settleAttempt_def Let_def
      split: option.splits sum.splits
      dest!: call_not_found [OF assms(1)] recordDelivery_not_found [OF assms(1)]
      dest: mark_failed_attempt_not_found)

lemma replay_not_found:
  assumes run: "ReplayEvent E eid publish p d = (Inl e, p', d')" and honest: "honest_server E"
    and "errors_Is e ErrEventNotFound"
  shows "d' = d \<and> p' = p"
  using run
proof (cases rule: ReplayEvent_cases)
  case (published ev perr)
  note settle = settleAttempt_not_found [OF honest, of "tx_begin d" ev perr TriggerManualReplay]
  have "\<not> errors_Is e ErrEventNotFound"
  proof (cases "settleAttempt E (tx_begin d) ev perr TriggerManualReplay")
    case (Inl f)
    with published(3) settle show ?thesis by (auto simp: finish_replay_def)
  next
    case (Inr t')
    have "\<not> errors_Is f ErrEventNotFound" if "call E s (select_event w eid) = Inl f" for s w f
      using that by (rule call_not_found [OF honest]) (auto simp: select_event_def split: option.splits)
    moreover have "\<not> errors_Is f ErrEventNotFound" if "call E s (select_last_delivery w eid) = Inl f" for s w f
      using that by (rule call_not_found [OF honest]) (auto simp: select_last_delivery_def split: list.splits)
    moreover have "\<not> errors_Is f ErrEventNotFound" if "tx_commit E CommitReplay t' = (Some f, d')" for f
    proof -
      from settleAttempt_Inr(1) [OF Inr] have "tx_deferred t' = []" by (simp add: tx_begin_def)
      with that have "fails E CommitReplay = Some f"
        by (auto simp: tx_commit_def split: option.splits)
      from honest_no_sentinel [OF honest this] show ?thesis by simp
    qed
    ultimately show ?thesis
      using published(3) Inr
      by (auto simp: finish_replay_def split: sum.splits prod.splits option.splits)
  qed
  with assms(3) show ?thesis by simp
qed simp

section \<open>The status of a response and its effect\<close>

lemma writeAccount_sel [simp]: "rsp_Status (writeAccount T status a) = status"
    "rsp_Header (writeAccount T status a) = [(''Content-Type'', ''application/json'')]"
  by (simp_all add: writeAccount_def writeJSON_def)

lemma writeJSON_sel [simp]: "rsp_Status (writeJSON status v) = status"
    "rsp_Header (writeJSON status v) = [(''Content-Type'', ''application/json'')]"
  by (simp_all add: writeJSON_def)

lemma writeResult_sel [simp]: "rsp_Status (writeResult res) = res_Status res"
    "rsp_Body (writeResult res) = res_Body res"
  by (simp_all add: writeResult_def)

lemma transfer_result_201:
  assumes "Service_Transfer (Store_repository E) cmd claim (render_transaction T) d = (Inr res, d')"
  shows "d' = d \<or> res_Status res = 201"
  using assms by (cases rule: Service_Transfer_Inr) (auto simp: render_transaction_def)

lemma client_error_unchanged:
  assumes run: "handle E H mux publish ping r (d, p) = (rsp, (d', p'))" and honest: "honest_server E"
    and status: "400 \<le> rsp_Status rsp" "rsp_Status rsp < 500"
  shows "d' = d \<and> p' = p"
  using run
proof (cases rule: handle_cases)
  case (create cmd res)
  then show ?thesis
    using create_client_error [OF _ honest, of "account_id H" cmd d _ d' "env_texts E"] status
    by (cases res) auto
next
  case (transfer cmd claim res)
  show ?thesis
  proof (cases res)
    case (Inl e)
    with transfer transfer_client_error [OF _ honest, of cmd claim _ d e d' "env_texts E"] status
    show ?thesis by auto
  next
    case (Inr x)
    with transfer transfer_result_201 [of E cmd claim "env_texts E" d x d'] status show ?thesis by auto
  qed
next
  case (replay eid res)
  show ?thesis
  proof (cases res)
    case (Inl e)
    with replay status have "errors_Is e ErrEventNotFound"
      by (cases rule: writeEventError_cases [of e "env_texts E"]) auto
    from replay_not_found [OF replay(1) [unfolded Inl] honest this] show ?thesis .
  next
    case (Inr x)
    with replay status show ?thesis by auto
  qed
qed simp

section \<open>The shape of a response\<close>

definition well_formed :: "Response \<Rightarrow> bool" where
  "well_formed rsp \<longleftrightarrow>
     problem_document rsp \<and> rsp_Status rsp \<in> {400, 404, 405, 409, 413, 422, 500}
     \<or> rsp_Status rsp \<in> {200, 201, 202} \<and> (''Content-Type'', ''application/json'') \<in> set (rsp_Header rsp)"

lemma well_formed_refusal: "refusal rsp \<Longrightarrow> well_formed rsp"
  by (auto simp: well_formed_def refusal_def)

lemma well_formed_errors [simp]:
  "well_formed (writeDomainError T e)" "well_formed (writeEventError T e)" "well_formed internal_response"
proof -
  show "well_formed (writeDomainError T e)"
    using problem_document_domain writeDomainError_status [of T e] by (auto simp: well_formed_def)
  show "well_formed (writeEventError T e)"
    using problem_document_event [of T e]
    by (cases rule: writeEventError_cases [of e T]) (auto simp: well_formed_def)
  show "well_formed internal_response"
    by (simp add: well_formed_def problem_document_internal)
qed

lemma well_formed_success [simp]:
  "status \<in> {200, 201, 202} \<Longrightarrow> well_formed (writeAccount T status a)"
  "status \<in> {200, 201, 202} \<Longrightarrow> well_formed (writeJSON status v)"
  by (auto simp: well_formed_def)

lemma well_formed_result: "res_Status res = 201 \<Longrightarrow> well_formed (writeResult res)"
  by (auto simp: well_formed_def writeResult_def)

lemma well_formed_routing [simp]: "well_formed (not_found r)" "well_formed (method_not_allowed r)"
  by (simp_all add: well_formed_def not_found_def method_not_allowed_def problem_document_Write)

lemma well_formed_GetAccount: "well_formed (handleGetAccount T H repo param s)"
  by (auto simp: handleGetAccount_def intro: well_formed_refusal parseUUIDParam_refusal split: sum.split)

lemma well_formed_GetTransaction: "well_formed (handleGetTransaction T H repo param s)"
  by (auto simp: handleGetTransaction_def intro: well_formed_refusal parseUUIDParam_refusal split: sum.split)

lemma well_formed_GetEvent: "well_formed (handleGetEvent T H events param s)"
  by (auto simp: handleGetEvent_def intro: well_formed_refusal parseUUIDParam_refusal split: sum.split)

lemma well_formed_CreateAccount:
  "handleCreateAccount T H repo r s = (rsp, s') \<Longrightarrow> well_formed rsp"
  by (auto simp: handleCreateAccount_def intro: well_formed_refusal decodeJSON_refusal
      split: sum.splits prod.splits)

lemma well_formed_ReplayEvent:
  "handleReplayEvent T H events param s = (rsp, s') \<Longrightarrow> well_formed rsp"
  by (auto simp: handleReplayEvent_def intro: well_formed_refusal parseUUIDParam_refusal
      split: sum.splits prod.splits)

lemma stored_okD:
  assumes "stored_ok d" and "idempotency_keys d k = Some row"
  obtains body v where "ir_response_status row = Some 201" "ir_response_body row = Some body"
    "Decode body = Some (v, [])"
  using assms unfolding stored_ok_def by blast

lemma transfer_status:
  assumes "Service_Transfer (Store_repository E) cmd claim (render_transaction T) d = (Inr res, d')"
    and "stored_ok d"
  shows "res_Status res = 201"
  using assms(1)
proof (cases rule: Service_Transfer_Inr)
  case (replay row)
  from assms(2) replay(1) have "ir_response_status row = Some 201" by (rule stored_okD)
  with replay(4) show ?thesis by simp
qed (auto simp: render_transaction_def)

lemma well_formed_CreateTransaction:
  assumes "handleCreateTransaction T H (lift_repository (Store_repository E)) r (d, p) = (rsp, s')"
    and "stored_ok d"
  shows "well_formed rsp"
  using assms transfer_status [OF _ assms(2)]
  by (auto simp: handleCreateTransaction_def Service_Transfer_lift
      intro: well_formed_refusal transfer_request_refusal well_formed_result
      split: sum.splits prod.splits)

lemma well_formed_handle:
  assumes "handle E H mux publish ping r (d, p) = (rsp, s')" and "stored_ok d"
  shows "well_formed rsp \<or> (ping \<noteq> None \<and> rsp = handleReady ping)"
  using assms(1) well_formed_CreateTransaction [OF _ assms(2), of "env_texts E" H E r p rsp s']
  unfolding handle_def NewServer_def
  by (auto simp: Routes_def serve_def handleHealth_def handleReady_def
      intro: well_formed_GetAccount well_formed_GetTransaction well_formed_GetEvent
        well_formed_CreateAccount well_formed_ReplayEvent
      split: route_match.splits option.splits endpoint.splits)

section \<open>Retries through the API\<close>

lemma transfer_request_texts: "transfer_request T H r = Inr x \<Longrightarrow> transfer_request T' H r = Inr x"
  by (auto simp: transfer_request_def Let_def split: option.splits sum.splits)

lemma post_answered:
  assumes post: "handleCreateTransaction (env_texts E) H (lift_repository (Store_repository E)) r (d, p)
      = (rsp, (d1, p1))"
    and "rsp_Status rsp = 201" and req: "transfer_request (env_texts E) H r = Inr (cmd, claim)"
    and "stored_ok d"
  shows "TransferCommand_Validate cmd = None" "answered d1 claim 201 (rsp_Body rsp)"
proof -
  obtain res d2 where run: "Service_Transfer (Store_repository E) cmd claim
      (render_transaction (env_texts E)) d = (res, d2)"
    by (cases "Service_Transfer (Store_repository E) cmd claim (render_transaction (env_texts E)) d")
  have "rsp_Status (writeDomainError (env_texts E) e) \<noteq> 201" for e
    using writeDomainError_status [of "env_texts E" e] by auto
  with post run req assms(2) obtain x where x: "res = Inr x" "rsp = writeResult x" "d2 = d1"
    by (cases res) (auto simp: handleCreateTransaction_def Service_Transfer_lift)
  show "TransferCommand_Validate cmd = None"
    using run x(1) by (cases "TransferCommand_Validate cmd") (simp_all add: Service_Transfer_eq)
  from x assms(2) have s: "res_Status x = 201" "rsp_Body rsp = res_Body x" by simp_all
  from run x have "Service_Transfer (Store_repository E) cmd claim
      (render_transaction (env_texts E)) d = (Inr x, d1)" by simp
  then show "answered d1 claim 201 (rsp_Body rsp)"
  proof (cases rule: Service_Transfer_Inr)
    case (fresh currency rd rc bd bc)
    then show ?thesis using s answered_after_transfer by metis
  next
    case (replay row)
    from assms(4) replay(1) obtain body where body: "ir_response_body row = Some body"
      by (rule stored_okD)
    have "res_Body x = body" by (subst replay(5)) (simp add: body)
    with replay body s show ?thesis by (auto simp: answered_def)
  qed
qed

lemma post_replayed:
  assumes "transfer_request (env_texts E) H r = Inr (cmd, claim)" and "no_faults E"
    and "request_text_ok E cmd claim" and "TransferCommand_Validate cmd = None"
    and "answered d claim 201 body"
  shows "handleCreateTransaction (env_texts E) H (lift_repository (Store_repository E)) r (d, p) =
    (\<lparr>rsp_Status = 201, rsp_Header = [(HeaderReplayed, ''true''), (''Content-Type'', ''application/json'')],
      rsp_Body = body\<rparr>, (d, p))"
  using Service_Transfer_replays [OF assms(2-5)] assms(1)
  by (simp add: handleCreateTransaction_def Service_Transfer_lift writeResult_def)

lemma api_steps_system: "(api_step publish)\<^sup>*\<^sup>* s s' \<Longrightarrow> (system_step publish)\<^sup>*\<^sup>* s s'"
proof (induction rule: rtranclp_induct)
  case (step s1 s2)
  then show ?case using api_step_refines [OF step(2)] by (auto intro: rtranclp.rtrancl_into_rtrancl)
qed simp

section \<open>What the decoder of a struct accepts\<close>

text \<open>Every member belongs to a field; a numeric one is an exact integer of 64 bits.\<close>

lemma decode_members_known:
  "decode_members fs ms r = Some r' \<Longrightarrow> m \<in> set ms \<Longrightarrow>
     \<exists>f \<in> set fs. foldName (fst f) = foldName (fst m)"
proof (induction fs ms r rule: decode_members.induct)
  case (2 fs k v ms r)
  then obtain f r1 where f: "find (\<lambda>f. foldName (fst f) = foldName k) fs = Some f"
    "snd f v r = Some r1" "decode_members fs ms r1 = Some r'" by (auto split: option.splits)
  from find_SomeD [OF f(1)] 2(1) [OF f(1,2,3)] 2(3) show ?case by auto
qed simp

lemma foldName_transfer_fields:
  "map (foldName \<circ> fst) createTransactionRequest_fields =
     map (map (\<lambda>c. fold_rune (byte c))) [''debit_account_id'', ''credit_account_id'', ''amount'',
       ''currency'', ''description'', ''external_ref'']"
proof -
  have "foldName s = map (\<lambda>c. fold_rune (byte c)) s" if "list_all (\<lambda>c. byte c < 128) s" for s
    using that by (simp add: foldName_def runes_ascii list_all_iff)
  then show ?thesis by (simp add: createTransactionRequest_fields_def byte_def)
qed

text \<open>One member at a time: only an amount touches the amount.\<close>

lemma decode_transfer_member:
  assumes "find (\<lambda>f. foldName (fst f) = foldName k) createTransactionRequest_fields = Some f"
    and "snd f v q = Some q'"
  shows "if foldName k = foldName ''amount''
    then v = JNull \<and> q' = q \<or> (\<exists>l i. v = JNum l \<and> ParseInt l = Some i \<and> ctr_Amount q' = i)
    else ctr_Amount q' = ctr_Amount q \<and> (\<forall>l. v \<noteq> JNum l)"
proof -
  have str: "string_field g v q = Some q' \<Longrightarrow> q' = q \<or> (\<exists>s. v = JStr s \<and> q' = g s q)" for g
    by (cases v) auto
  have opt: "opt_string_field g v q = Some q' \<Longrightarrow> (\<exists>x. q' = g x q) \<and> (\<forall>l. v \<noteq> JNum l)" for g
    by (cases v) auto
  have strn: "string_field g v q = Some q' \<Longrightarrow> \<forall>l. v \<noteq> JNum l" for g
    by (cases v) auto
  have num: "int64_field g v q = Some q' \<Longrightarrow> v = JNull \<and> q' = q \<or>
      (\<exists>l i. v = JNum l \<and> ParseInt l = Some i \<and> q' = g i q)" for g
    by (cases v) auto
  from find_SomeD [OF assms(1)] have f: "f \<in> set createTransactionRequest_fields"
    "foldName (fst f) = foldName k" by simp_all
  from foldName_transfer_fields have neq: "foldName ''debit_account_id'' \<noteq> foldName ''amount''"
    "foldName ''credit_account_id'' \<noteq> foldName ''amount''" "foldName ''currency'' \<noteq> foldName ''amount''"
    "foldName ''description'' \<noteq> foldName ''amount''" "foldName ''external_ref'' \<noteq> foldName ''amount''"
    by (simp_all add: createTransactionRequest_fields_def fold_rune_def byte_def)
  show ?thesis
    using f assms(2) neq
    by (auto simp: createTransactionRequest_fields_def dest!: str num opt dest: strn)
qed

lemma decode_transfer_amount:
  assumes "decode_members createTransactionRequest_fields ms q = Some q'"
    and "\<And>m. m \<in> set ms \<Longrightarrow> foldName (fst m) = foldName ''amount'' \<Longrightarrow> snd m = JNum l"
    and "ParseInt l = Some i"
  shows "ctr_Amount q' =
    (if \<exists>m \<in> set ms. foldName (fst m) = foldName ''amount'' then i else ctr_Amount q)"
  using assms(1,2)
proof (induction ms arbitrary: q)
  case (Cons m ms)
  obtain k v where m: "m = (k, v)" by (cases m)
  from Cons.prems(1) obtain f q1 where
    f: "find (\<lambda>f. foldName (fst f) = foldName k) createTransactionRequest_fields = Some f"
    "snd f v q = Some q1" "decode_members createTransactionRequest_fields ms q1 = Some q'"
    by (auto simp: m split: option.splits)
  note step = decode_transfer_member [OF f(1,2)]
  have ih: "ctr_Amount q' =
      (if \<exists>m \<in> set ms. foldName (fst m) = foldName ''amount'' then i else ctr_Amount q1)"
    using Cons.IH [OF f(3)] Cons.prems(2) by simp
  show ?case
  proof (cases "foldName k = foldName ''amount''")
    case True
    with Cons.prems(2) [of m] m have "v = JNum l" by simp
    with step True assms(3) have "ctr_Amount q1 = i" by auto
    with ih True m show ?thesis by simp
  next
    case False
    with step ih m show ?thesis by simp
  qed
qed simp

lemma decode_transfer_numbers:
  "decode_members createTransactionRequest_fields ms q = Some q' \<Longrightarrow> (k, JNum l) \<in> set ms \<Longrightarrow>
     foldName k = foldName ''amount'' \<and> (\<exists>i. read_int l = Some i \<and> int64_range i)"
proof (induction ms arbitrary: q)
  case (Cons m ms)
  obtain k' v where m: "m = (k', v)" by (cases m)
  from Cons.prems(1) obtain f q1 where
    f: "find (\<lambda>f. foldName (fst f) = foldName k') createTransactionRequest_fields = Some f"
    "snd f v q = Some q1" "decode_members createTransactionRequest_fields ms q1 = Some q'"
    by (auto simp: m split: option.splits)
  show ?case
  proof (cases "m = (k, JNum l)")
    case True
    with decode_transfer_member [OF f(1,2)] m show ?thesis
      by (auto simp: ParseInt_def bigint_Some split: if_splits option.splits)
  next
    case False
    with Cons.IH [OF f(3)] Cons.prems(2) show ?thesis by auto
  qed
qed simp

text \<open>If all amounts are one number, the amount of the request is that number.\<close>

lemma decode_transfer_exact:
  assumes d: "decode_members createTransactionRequest_fields ms q = Some q'"
    and m: "(k, JNum l) \<in> set ms"
    and same: "\<forall>m \<in> set ms. foldName (fst m) = foldName ''amount'' \<longrightarrow> snd m = JNum l"
  shows "read_int l = Some (sint (ctr_Amount q'))"
proof -
  from decode_transfer_numbers [OF d m] obtain i where
    k: "foldName k = foldName ''amount''" and i: "read_int l = Some i" "int64_range i" by blast
  then have "ParseInt l = Some (word_of_int i)" by (simp add: ParseInt_def bigint_def)
  from decode_transfer_amount [OF d _ this] same m k have "ctr_Amount q' = word_of_int i"
    by (auto simp: split_beta)
  with i show ?thesis by (simp add: sint64_of_int)
qed

end
