(* ===== verification/Api_Demo.thy ===== *)
theory Api_Demo
  imports Api_Facts
begin

text \<open>
  A concrete run of the API for the witnesses: two accounts are opened and money moves
  between them, each by a request with a JSON body.
\<close>

definition demo_http :: "uuid \<Rightarrow> http" where
  "demo_http i = \<lparr>uuid_Parse = (\<lambda>s. if s = [] then None else map_option of_nat (read_nat 0 s)),
     json_Error = (\<lambda>typ body. ''invalid''), account_id = i\<rparr>"

text \<open>A multiplexer for paths that are patterns; the parameter is the account 2.\<close>

definition demo_mux :: mux where
  "demo_mux table m p = (if (m, p) \<in> set table then Matched (m, p) ''2'' else NoRoute)"

definition demo_request :: "string \<Rightarrow> string \<Rightarrow> string \<Rightarrow> json \<Rightarrow> Request" where
  "demo_request m p key body = \<lparr>req_Method = m, req_Path = p,
     req_Header = (\<lambda>h. if h = HeaderKey then key else []), req_Body = encode body,
     req_BodyBroken = False\<rparr>"

definition demo_account_json :: "string \<Rightarrow> bool \<Rightarrow> json" where
  "demo_account_json nam neg = JObj
     [(''name'', JStr nam), (''kind'', JStr ''asset''), (''currency'', JStr ''BRL''),
      (''allow_negative_balance'', JBool neg)]"

definition demo_transfer_json :: json where
  "demo_transfer_json = JObj
     [(''debit_account_id'', JStr ''2''), (''credit_account_id'', JStr ''1''), (''amount'', JNum ''300''),
      (''currency'', JStr ''BRL''), (''description'', JStr ''rent'')]"

definition demo_post_account :: "uuid \<Rightarrow> string \<Rightarrow> bool \<Rightarrow> db \<times> Envelope list \<Rightarrow> Response \<times> db \<times> Envelope list" where
  "demo_post_account i nam neg =
     handle (demo_env 0 0) (demo_http i) demo_mux LogPublisher_Publish None
       (demo_request ''POST'' ''/accounts/'' [] (demo_account_json nam neg))"

definition demo_post :: Request where
  "demo_post = demo_request ''POST'' ''/transactions/'' ''k1'' demo_transfer_json"

lemma demo_decode: "Decode (encode demo_transfer_json) = Some (demo_transfer_json, [])"
  by (rule Decode_encode)
    (auto simp: demo_transfer_json_def depth_bounds maxNestingDepth_def byte_def valid_number_def
      is_digit_def num_accepts_def intro!: utf8_ascii_string)

lemma foldName_ascii:
  "list_all (\<lambda>c. byte c < 128) s \<Longrightarrow> foldName s = map (\<lambda>c. fold_rune (byte c)) s"
  by (simp add: foldName_def runes_ascii list_all_iff)

lemmas struct_simps = foldName_ascii fold_rune_def byte_def

lemma demo_request_decodes:
  "decode_struct createTransactionRequest_fields demo_transfer_json createTransactionRequest_zero =
     Some \<lparr>ctr_DebitAccountID = ''2'', ctr_CreditAccountID = ''1'', ctr_Amount = 300, ctr_Currency = ''BRL'',
           ctr_Description = ''rent'', ctr_ExternalRef = None\<rparr>"
proof -
  have "ParseInt ''300'' = Some 300" by code_simp
  then show ?thesis
    by (simp add: demo_transfer_json_def createTransactionRequest_fields_def
        createTransactionRequest_zero_def struct_simps)
qed

text \<open>The claim of the request; its fingerprint is not computed.\<close>

definition demo_fingerprint :: string where
  "demo_fingerprint = Sum256 (hashed ''POST'' ''/transactions/'' (encode (any_value demo_transfer_json)))"

definition demo_post_claim :: Claim where
  "demo_post_claim = \<lparr>claim_Key = ''k1'', claim_Endpoint = transactionsEndpoint,
     claim_Fingerprint = demo_fingerprint\<rparr>"

lemma demo_post_sel [simp]:
  "req_Method demo_post = ''POST''" "req_Path demo_post = ''/transactions/''"
  "req_Header demo_post HeaderKey = ''k1''" "req_Body demo_post = encode demo_transfer_json"
  "\<not> req_BodyBroken demo_post"
  by (simp_all add: demo_post_def demo_request_def)

lemma demo_post_body: "length (encode demo_transfer_json) \<le> maxRequestBody"
proof -
  have "length (encode demo_transfer_json) < 120" by code_simp
  then show ?thesis by (simp add: maxRequestBody_def)
qed

lemma demo_post_key: "ValidateKey ''k1'' = None"
  by (simp add: ValidateKey_None byte_def)

lemma demo_uuids: "uuid_Parse (demo_http i) ''2'' = Some 2" "uuid_Parse (demo_http i) ''1'' = Some 1"
  by (simp_all add: demo_http_def)

lemma demo_post_accepted:
  "transfer_request T (demo_http i) demo_post = Inr (demo_cmd 2 1 300, demo_post_claim)"
proof -
  have "readJSONBody demo_post = Inr (encode demo_transfer_json)"
    using demo_post_body by (simp add: readJSONBody_def)
  then show ?thesis
    by (simp add: transfer_request_def demo_post_key unmarshalJSON_def demo_decode demo_request_decodes
        parseUUIDField_def demo_uuids Fingerprint_def canonicalJSON_Decode [OF demo_decode]
        demo_cmd_def demo_post_claim_def demo_fingerprint_def)
qed

text \<open>The states of the run.\<close>

definition demo_api0 :: "db \<times> Envelope list" where
  "demo_api0 = snd (demo_post_account 2 ''alice'' False (snd (demo_post_account 1 ''external'' True (empty_db, []))))"

lemma demo_api0_reachable: "api_reachable LogPublisher_Publish [] demo_api0"
proof -
  have step: "api_step LogPublisher_Publish s (snd (demo_post_account i nam neg s))" for i nam neg s
    unfolding demo_post_account_def by (rule api_step.request) (rule prod.collapse [symmetric])
  show ?thesis
    unfolding demo_api0_def
    by (rule api_reachable.step [OF api_reachable.step [OF api_reachable.start step] step])
qed

text \<open>The two accounts, as the service creates them.\<close>

lemma demo_account_short:
  "length (encode (demo_account_json ''alice'' False)) < 120"
  "length (encode (demo_account_json ''external'' True)) < 120"
  by code_simp+

lemma demo_account_Decode:
  "Decode (encode (demo_account_json ''alice'' False)) = Some (demo_account_json ''alice'' False, [])"
  "Decode (encode (demo_account_json ''external'' True)) = Some (demo_account_json ''external'' True, [])"
  by (rule Decode_encode; auto simp: demo_account_json_def depth_bounds maxNestingDepth_def byte_def
      intro!: utf8_ascii_string)+

lemma demo_account_struct:
  "decode_struct createAccountRequest_fields (demo_account_json nam neg) createAccountRequest_zero =
     Some \<lparr>car_Name = nam, car_Kind = ''asset'', car_Currency = ''BRL'', car_AllowNegativeBalance = neg\<rparr>"
  by (simp add: demo_account_json_def createAccountRequest_fields_def createAccountRequest_zero_def
      struct_simps)

lemma demo_account_decodes:
  assumes "(nam, neg) \<in> {(''alice'', False), (''external'', True)}"
  shows "decodeJSON (demo_http i) ''createAccountRequest'' createAccountRequest_fields
      createAccountRequest_zero (demo_request ''POST'' ''/accounts/'' [] (demo_account_json nam neg)) =
    Inr \<lparr>car_Name = nam, car_Kind = ''asset'', car_Currency = ''BRL'', car_AllowNegativeBalance = neg\<rparr>"
  using assms demo_account_short demo_account_Decode demo_account_struct [of nam neg]
  by (auto simp: decodeJSON_def readJSONBody_def unmarshalJSON_def maxRequestBody_def demo_request_def)

lemma demo_post_account_snd:
  assumes "(nam, neg) \<in> {(''alice'', False), (''external'', True)}"
  shows "snd (demo_post_account i nam neg (d, p)) =
    (snd (Service_CreateAccount (Store_repository (demo_env 0 0)) i (demo_account nam neg) d), p)"
proof -
  let ?r = "demo_request ''POST'' ''/accounts/'' [] (demo_account_json nam neg)"
  have "demo_mux (map fst route_table) (req_Method ?r) (req_Path ?r) = Matched (''POST'', ''/accounts/'') ''2''"
    by (simp add: demo_mux_def route_table_def demo_request_def)
  moreover have "map_of route_table (''POST'', ''/accounts/'') = Some CreateAccount"
    by (simp add: route_table_def)
  moreover have "account_id (demo_http i) = i" by (simp add: demo_http_def)
  ultimately show ?thesis
    using demo_account_decodes [OF assms, of i]
    by (simp add: demo_post_account_def handle_def Routes_def serve_def NewServer_def
        handleCreateAccount_def Service_CreateAccount_lift demo_account_def split: prod.split sum.split)
qed

definition demo_accounts_db :: db where
  "demo_accounts_db =
     snd (Service_CreateAccount (Store_repository (demo_env 0 0)) 2 (demo_account ''alice'' False)
       (snd (Service_CreateAccount (Store_repository (demo_env 0 0)) 1 (demo_account ''external'' True)
         empty_db)))"

lemma demo_api0_eq: "demo_api0 = (demo_accounts_db, [])"
  by (simp add: demo_api0_def demo_post_account_snd demo_accounts_db_def)

text \<open>The transfer succeeds with any body that is not empty; its text is not computed.\<close>

lemma demo_post_any_body:
  "fst (Service_Transfer (Store_repository (demo_env 10 5)) (demo_cmd 2 1 300)
     \<lparr>claim_Key = ''k1'', claim_Endpoint = transactionsEndpoint, claim_Fingerprint = fp\<rparr>
     (\<lambda>t. Inr (201, c # g t)) demo_accounts_db) =
   Inr \<lparr>res_Status = 201, res_Body = c # g (transfer_txn (demo_env 10 5) (demo_cmd 2 1 300)),
        res_Replayed = False, res_Transaction = Some (transfer_txn (demo_env 10 5) (demo_cmd 2 1 300))\<rparr>"
  by code_simp

definition demo_body :: string where
  "demo_body = encode (marshal_transactionResponse (uuid_String demo_texts)
     (newTransactionResponse (transfer_txn (demo_env 10 5) (demo_cmd 2 1 300))))"

lemma render_transaction_Cons:
  "render_transaction T = (\<lambda>t. Inr (201, CHR ''{'' #
     tl (encode (marshal_transactionResponse (uuid_String T) (newTransactionResponse t)))))"
  by (rule ext) (simp add: render_transaction_def marshal_transactionResponse_def)

definition demo_api1 :: "db \<times> Envelope list" where
  "demo_api1 = snd (handleCreateTransaction (env_texts (demo_env 10 5)) (demo_http 0)
     (lift_repository (Store_repository (demo_env 10 5))) demo_post demo_api0)"

lemma demo_post_run:
  "handleCreateTransaction (env_texts (demo_env 10 5)) (demo_http 0)
     (lift_repository (Store_repository (demo_env 10 5))) demo_post demo_api0 =
   (\<lparr>rsp_Status = 201, rsp_Header = [(''Content-Type'', ''application/json'')], rsp_Body = demo_body\<rparr>,
    demo_api1)"
proof -
  let ?T = "env_texts (demo_env 10 5)"
  let ?run = "Service_Transfer (Store_repository (demo_env 10 5)) (demo_cmd 2 1 300) demo_post_claim
    (render_transaction ?T) demo_accounts_db"
  have T: "?T = demo_texts" by (simp add: demo_env_def)
  have body: "CHR ''{'' # tl demo_body = demo_body"
    by (simp add: demo_body_def marshal_transactionResponse_def)
  have "fst ?run = Inr \<lparr>res_Status = 201, res_Body = demo_body, res_Replayed = False,
      res_Transaction = Some (transfer_txn (demo_env 10 5) (demo_cmd 2 1 300))\<rparr>"
    unfolding render_transaction_Cons demo_post_claim_def demo_post_any_body T
    using body by (simp add: demo_body_def)
  then have "handleCreateTransaction ?T (demo_http 0) (lift_repository (Store_repository (demo_env 10 5)))
      demo_post (demo_accounts_db, [] :: Envelope list) =
    (\<lparr>rsp_Status = 201, rsp_Header = [(''Content-Type'', ''application/json'')], rsp_Body = demo_body\<rparr>,
     (snd ?run, []))"
    by (cases ?run) (simp add: handleCreateTransaction_def demo_post_accepted Service_Transfer_lift
        writeResult_def)
  then show ?thesis by (simp add: demo_api1_def demo_api0_eq)
qed

end
