(* ===== verification/Api_Props.thy ===== *)
theory Api_Props
  imports Api_Demo
begin

text \<open>
  The properties of the API: what identifies a request, what a retry gets, what a refusal
  leaves alone, and that every sequence of requests is a run of the system whose reachable
  states the ledger and outbox properties describe. Each is followed by an instance.
\<close>

section \<open>The identity of a request\<close>

text \<open>
  C21. The canonical form of a body identifies its meaning: two bodies have the same
  canonical form exactly when their JSON values differ at most in white space, in the
  order of members and in overridden duplicates; and the form is its own canonical form.
\<close>

theorem canonical_form:
  assumes "Decode b = Some (v, r)" and "Decode b' = Some (v', r')"
  shows "(canonicalJSON J b = canonicalJSON J b' \<longleftrightarrow> same_value v v')
    \<and> (\<exists>c. canonicalJSON J b = Inr c \<and> canonicalJSON J c = Inr c)"
  using encode_any_value_inject [OF assms]
  by (simp add: canonicalJSON_Decode [OF assms(1)] canonicalJSON_Decode [OF assms(2)]
      canonicalJSON_Decode [OF Decode_any_value [OF assms(1)]] any_value_idem)

theorem canonical_form_witness:
  "canonicalJSON (\<lambda>s. ''bad'') ''[1,2]'' = canonicalJSON (\<lambda>s. ''bad'') '' [ 1 , 2 ] ''
   \<and> canonicalJSON (\<lambda>s. ''bad'') ''[1,2]'' \<noteq> canonicalJSON (\<lambda>s. ''bad'') ''[2,1]''"
proof -
  let ?v = "JArr [JNum ''1'', JNum ''2'']" and ?w = "JArr [JNum ''2'', JNum ''1'']"
  have d: "Decode ''[1,2]'' = Some (?v, [])" "Decode '' [ 1 , 2 ] '' = Some (?v, [])"
    "Decode ''[2,1]'' = Some (?w, [])" by code_simp+
  from canonical_form [OF d(1,2), of "\<lambda>s. ''bad''"] canonical_form [OF d(1,3), of "\<lambda>s. ''bad''"] show ?thesis
    by (simp add: same_value_iff)
qed

text \<open>
  C20. A fingerprint stands for the method, the path and the meaning of the body: equal
  fingerprints of two requests mean the same request, unless the two hashed texts are a
  collision of SHA-256; and requests that agree in all three have equal fingerprints.
\<close>

theorem fingerprint_identifies:
  assumes "Decode b = Some (v, r)" and "Decode b' = Some (v', r')"
    and "newline \<notin> set m" and "newline \<notin> set m'" and "newline \<notin> set p" and "newline \<notin> set p'"
    and "x = hashed m p (encode (any_value v))" and "x' = hashed m' p' (encode (any_value v'))"
    and "Sum256 x = Sum256 x' \<longrightarrow> x = x'"
  shows "Fingerprint J m p b = Fingerprint J m' p' b' \<longleftrightarrow> m = m' \<and> p = p' \<and> same_value v v'"
proof -
  have "Fingerprint J m p b = Fingerprint J m' p' b' \<longleftrightarrow> Sum256 x = Sum256 x'"
    by (simp add: Fingerprint_def canonicalJSON_Decode [OF assms(1)] canonicalJSON_Decode [OF assms(2)]
        assms(7,8))
  also have "\<dots> \<longleftrightarrow> x = x'" using assms(9) by auto
  finally show ?thesis
    by (simp add: assms(7,8) hashed_inject [OF assms(3-6)] encode_any_value_inject [OF assms(1,2)])
qed

theorem fingerprint_identifies_witness:
  "Fingerprint (\<lambda>s. ''bad'') ''POST'' ''/transactions'' ''[1,2]''
     = Fingerprint (\<lambda>s. ''bad'') ''POST'' ''/transactions'' '' [ 1 , 2 ] ''"
proof -
  let ?v = "JArr [JNum ''1'', JNum ''2'']"
  have d: "Decode ''[1,2]'' = Some (?v, [])" "Decode '' [ 1 , 2 ] '' = Some (?v, [])"
    by code_simp+
  show ?thesis
    by (subst fingerprint_identifies [OF d _ _ _ _ refl refl])
      (simp_all add: newline_def same_value_iff)
qed

definition amount_twice :: "string \<Rightarrow> string \<Rightarrow> string \<Rightarrow> string \<Rightarrow> json" where
  "amount_twice k i k' j = JObj [(k, JNum i), (k', JNum j)]"

text \<open>
  C37. The fingerprint compares member names exactly while the decoder of the request
  ignores their case. So two bodies with one fingerprint can ask for different amounts: a
  member spelled twice, in either order.
\<close>

theorem fingerprint_ignores_decoding_order:
  "\<exists>b b' v v' q q'. Decode b = Some (v, []) \<and> Decode b' = Some (v', [])
     \<and> Fingerprint J m p b = Fingerprint J m p b'
     \<and> decode_struct createTransactionRequest_fields v createTransactionRequest_zero = Some q
     \<and> decode_struct createTransactionRequest_fields v' createTransactionRequest_zero = Some q'
     \<and> ctr_Amount q = 5 \<and> ctr_Amount q' = 9"
proof -
  let ?v = "amount_twice ''AMOUNT'' ''9'' ''amount'' ''5''"
    and ?v' = "amount_twice ''amount'' ''5'' ''AMOUNT'' ''9''"
  have d: "Decode (encode ?v) = Some (?v, [])" "Decode (encode ?v') = Some (?v', [])"
    by (rule Decode_encode; auto simp: amount_twice_def depth_bounds maxNestingDepth_def byte_def
        valid_number_def is_digit_def num_accepts_def intro!: utf8_ascii_string)+
  have "any_value ?v = any_value ?v'" unfolding amount_twice_def by code_simp
  then have f: "Fingerprint J m p (encode ?v) = Fingerprint J m p (encode ?v')"
    by (simp add: Fingerprint_def canonicalJSON_Decode [OF d(1)] canonicalJSON_Decode [OF d(2)])
  have n: "ParseInt ''9'' = Some 9" "ParseInt ''5'' = Some 5" by code_simp+
  have "decode_struct createTransactionRequest_fields ?v createTransactionRequest_zero
      = Some (createTransactionRequest_zero\<lparr>ctr_Amount := 5\<rparr>)"
    "decode_struct createTransactionRequest_fields ?v' createTransactionRequest_zero
      = Some (createTransactionRequest_zero\<lparr>ctr_Amount := 9\<rparr>)"
    using n by (simp_all add: amount_twice_def createTransactionRequest_fields_def
        createTransactionRequest_zero_def struct_simps)
  with d f show ?thesis by (intro exI conjI) (assumption | simp)+
qed

section \<open>What an accepted request says\<close>



text \<open>
  C19. A refusal changes nothing: when the API answers a request with a client error, the
  database and the publisher are as they were. For this the faults of the server are the
  driver's, and a lost commit is not an error the server reported.
\<close>

theorem rejected_request_changes_nothing:
  assumes "handle E H mux publish ping r (d, p) = (rsp, (d', p'))" and "honest_server E"
    and "400 \<le> rsp_Status rsp" and "rsp_Status rsp < 500"
  shows "d' = d \<and> p' = p"
  using assms by (rule client_error_unchanged)

lemma demo_honest: "honest_server (demo_env b t)"
  by (simp add: honest_server_def driver_faults_def demo_env_def)

theorem rejected_request_changes_nothing_witness:
  "rsp_Status (fst (handle (demo_env 30 9) (demo_http 0) demo_mux LogPublisher_Publish None
      (demo_post\<lparr>req_Header := \<lambda>h. []\<rparr>) demo_api0)) = 400
   \<and> snd (handle (demo_env 30 9) (demo_http 0) demo_mux LogPublisher_Publish None
      (demo_post\<lparr>req_Header := \<lambda>h. []\<rparr>) demo_api0) = demo_api0"
proof -
  let ?r = "demo_post\<lparr>req_Header := \<lambda>h. []\<rparr>"
  let ?h = "handle (demo_env 30 9) (demo_http 0) demo_mux LogPublisher_Publish None ?r demo_api0"
  have "ValidateKey [] = Some (Sentinel ErrKeyRequired)" by (simp add: ValidateKey_def)
  then have "transfer_request T H ?r = Inl (writeDomainError T (Sentinel ErrKeyRequired))" for T H
    by (simp add: transfer_request_def)
  then have "fst ?h = writeDomainError (env_texts (demo_env 30 9)) (Sentinel ErrKeyRequired)"
    by (simp add: handle_def Routes_def demo_mux_def route_table_def serve_def NewServer_def
        handleCreateTransaction_def)
  then have status: "rsp_Status (fst ?h) = 400"
    by (simp add: writeDomainError_def domainErrors_def mapping_def)
  from rejected_request_changes_nothing [OF _ demo_honest, of 30 9 "demo_http 0" demo_mux
      LogPublisher_Publish None ?r "fst demo_api0" "snd demo_api0" "fst ?h" "fst (snd ?h)" "snd (snd ?h)"]
    status show ?thesis by (simp add: prod_eq_iff)
qed



text \<open>
  C23. What goes wrong inside stays inside: the response to an error is the same whatever
  the messages of the database driver say, and an error that is none of the program's own
  is answered with status 500 and a constant body.
\<close>

theorem internal_errors_say_nothing:
  assumes "uuid_String T = uuid_String T'" and "strconv_Quote T = strconv_Quote T'"
  shows "writeDomainError T e = writeDomainError T' e \<and> writeEventError T e = writeEventError T' e
    \<and> ((\<forall>s \<in> set domain_sentinels. \<not> errors_Is e s) \<longrightarrow> writeDomainError T e = internal_response)
    \<and> (\<not> errors_Is e ErrEventNotFound \<longrightarrow> writeEventError T e = internal_response)"
proof (intro conjI impI)
  note msg = Error_text_sentinel_chain [OF assms]
  show "writeDomainError T e = writeDomainError T' e"
  proof (cases rule: writeDomainError_cases [of e T])
    case (domain s m)
    then show ?thesis by (auto simp: writeDomainError_def msg split: option.split)
  next
    case internal
    then show ?thesis using writeDomainError_not_domain [of e T'] by simp
  qed
  show "writeEventError T e = writeEventError T' e"
    by (simp add: writeEventError_def msg)
qed (simp_all add: writeDomainError_not_domain writeEventError_def)

theorem internal_errors_say_nothing_witness:
  "writeDomainError demo_texts (PgError ''57014'' ''secret'')
     = writeDomainError (demo_texts\<lparr>PgError_Error := \<lambda>code constraint. []\<rparr>) (PgError ''57014'' ''secret'')"
  using internal_errors_say_nothing [of demo_texts "demo_texts\<lparr>PgError_Error := \<lambda>code constraint. []\<rparr>"
      "PgError ''57014'' ''secret''"] by simp

section \<open>Runs of the API\<close>

text \<open>
  C9. The API refines the system behind it: whatever requests arrive, in any order and
  between batches of the relay, the state is one the operations of the ledger and of the
  outbox can reach, it satisfies their invariant, every response it keeps is a complete
  JSON document with status 201, and the next request is at most one operation.
\<close>

theorem api_refines_system:
  assumes "api_reachable publish p0 s"
  shows "reachable publish p0 s \<and> system_inv (fst s)
    \<and> (\<forall>k row. idempotency_keys (fst s) k = Some row \<longrightarrow> ir_response_status row = Some 201
        \<and> (\<exists>body v. ir_response_body row = Some body \<and> Decode body = Some (v, [])))
    \<and> (\<forall>E H mux ping r rsp s'. handle E H mux publish ping r s = (rsp, s') \<longrightarrow>
        s' = s \<or> system_step publish s s')"
  using api_reachable_inv [OF assms, unfolded stored_ok_def] api_reachable_reachable [OF assms]
    handle_refines by blast

theorem api_refines_system_witness:
  "reachable LogPublisher_Publish [] demo_api0 \<and> system_inv (fst demo_api0)"
  using api_refines_system [OF demo_api0_reachable] by blast

text \<open>
  C4. A retry gets the very bytes of the first answer: when a transfer request was
  answered with 201, the same request sent again, after any number of other requests and
  batches and whatever the relay did, gets status 201 and the same body, marked as
  replayed, and changes nothing. The retry needs a database without faults and a request
  whose texts PostgreSQL accepts.
\<close>

theorem post_retry_is_identical:
  assumes "api_reachable publish p0 (d, p)"
    and "handleCreateTransaction (env_texts E) H (lift_repository (Store_repository E)) r (d, p)
      = (rsp, (d1, p1))" and "rsp_Status rsp = 201"
    and "transfer_request (env_texts E) H r = Inr (cmd, claim)"
    and "(api_step publish)\<^sup>*\<^sup>* (d1, p1) (d2, p2)"
    and "no_faults E2" and "request_text_ok E2 cmd claim"
  shows "handleCreateTransaction (env_texts E2) H (lift_repository (Store_repository E2)) r (d2, p2)
    = (\<lparr>rsp_Status = 201, rsp_Header = [(HeaderReplayed, ''true''), (''Content-Type'', ''application/json'')],
        rsp_Body = rsp_Body rsp\<rparr>, (d2, p2))"
proof -
  from api_reachable_inv [OF assms(1)] have "stored_ok d" by simp
  note first = post_answered [OF assms(2-4) this]
  from answered_steps [OF api_steps_system [OF assms(5)] first(2)]
  have "answered d2 claim 201 (rsp_Body rsp)" .
  from post_replayed [OF transfer_request_texts [OF assms(4)] assms(6,7) first(1) this] show ?thesis .
qed

theorem post_retry_is_identical_witness:
  "handleCreateTransaction (env_texts (demo_env 30 9)) (demo_http 0)
     (lift_repository (Store_repository (demo_env 30 9))) demo_post demo_api1
   = (\<lparr>rsp_Status = 201, rsp_Header = [(HeaderReplayed, ''true''), (''Content-Type'', ''application/json'')],
       rsp_Body = demo_body\<rparr>, demo_api1)"
proof -
  obtain d p d1 p1 where s: "demo_api0 = (d, p)" "demo_api1 = (d1, p1)"
    by (cases demo_api0; cases demo_api1)
  have "request_text_ok (demo_env 30 9) (demo_cmd 2 1 300) demo_post_claim"
    by (simp add: request_text_ok_def demo_env_def demo_cmd_def demo_post_claim_def
        transactionsEndpoint_def)
  moreover have "no_faults (demo_env 30 9)" by (simp add: no_faults_def demo_env_def)
  ultimately show ?thesis
    using post_retry_is_identical [OF demo_api0_reachable [unfolded s] demo_post_run [unfolded s] _
        demo_post_accepted rtranclp.rtrancl_refl] by (simp add: s)
qed

end
