(* ===== verification/Api_Reads.thy ===== *)
theory Api_Reads
  imports Api_Demo Domain_Props
begin

text \<open>
  Reading through the API what was written through it, after any number of further requests
  and batches of the relay: an accepted transaction and an open account are served for good.
\<close>

section \<open>What the following steps keep\<close>

lemma extends_steps: "(system_step publish)\<^sup>*\<^sup>* (d, p) (d', p') \<Longrightarrow> extends d d'"
proof (induction rule: rtranclp_induct2)
  case (step d1 p1 d2 p2)
  from step(3) system_step_extends [OF step(2)] show ?case by (rule extends_trans)
qed simp

lemma api_reachable_steps:
  assumes "api_reachable publish p0 s" and "(api_step publish)\<^sup>*\<^sup>* s s'"
  shows "api_reachable publish p0 s'"
  using assms(2) assms(1) by (induction rule: rtranclp_induct) (auto intro: api_reachable.step)

text \<open>The rows of a transaction are those it was written with.\<close>

lemma legs_kept:
  assumes "extends d d'" and "zero_sum d" and "zero_sum d'" and "t \<in> set (transactions d)"
  shows "legs_of d' (tr_id t) = legs_of d (tr_id t)"
proof -
  from assms(1) obtain es where es: "ledger_entries d' = ledger_entries d @ es"
    by (auto simp: extends_def prefix_def)
  from assms(1,4) have t: "t \<in> set (transactions d')" by (auto simp: extends_def prefix_def)
  have "map er_direction (legs_of d (tr_id t)) = [Debit_leg, Credit_leg]"
    "map er_direction (legs_of d' (tr_id t)) = [Debit_leg, Credit_leg]"
    using assms(2-4) t by (auto simp: zero_sum_def)
  then have "length (legs_of d' (tr_id t)) = length (legs_of d (tr_id t))"
    by (metis length_map)
  then show ?thesis by (simp add: legs_of_def es)
qed

lemma GetTransaction_kept:
  assumes "extends d d'" and "zero_sum d" and "zero_sum d'" and "transaction_exists d i"
  shows "Service_GetTransaction (Store_repository E) i d' = Service_GetTransaction (Store_repository E) i d"
proof -
  from assms(4) obtain t where t: "t \<in> set (transactions d)" "tr_id t = i"
    by (auto simp: transaction_exists_def)
  from assms(1) obtain ts where ts: "transactions d' = transactions d @ ts"
    by (auto simp: extends_def prefix_def)
  from t have "find (\<lambda>r. tr_id r = i) (transactions d) \<noteq> None" by (auto simp: find_None_iff)
  then have found: "find (\<lambda>r. tr_id r = i) (transactions d') = find (\<lambda>r. tr_id r = i) (transactions d)"
    by (auto simp: ts find_append)
  have legs: "legs_of d' i = legs_of d i" using legs_kept [OF assms(1-3) t(1)] t(2) by simp
  have "Store_GetTransaction E i d' = Store_GetTransaction E i d"
    unfolding Store_GetTransaction_def found legs ..
  then show ?thesis by (simp add: Service_GetTransaction_def Store_repository_def)
qed

text \<open>An account keeps all but its balance, which its entries explain.\<close>

lemma GetAccount_kept:
  assumes "extends d d'" and "ledger_inv d'" and "no_faults E"
    and "Service_GetAccount (Store_repository E) i d = Inr a"
  obtains b u where "Service_GetAccount (Store_repository E) i d' = Inr (a\<lparr>acc_Balance := b, acc_UpdatedAt := u\<rparr>)"
    "sint b = account_total d' i" "acc_AllowNegativeBalance a \<or> 0 \<le> sint b"
proof -
  from assms(3,4) obtain r where r: "accounts d i = Some r" "a = scanAccount i r"
    by (auto simp: Service_GetAccount_def Store_repository_def Store_GetAccount_def split: option.splits)
  with assms(1) obtain r' where r': "accounts d' i = Some r'" "account_static r' = account_static r"
    by (auto simp: extends_def)
  have "scanAccount i r' = a\<lparr>acc_Balance := ar_balance r', acc_UpdatedAt := ar_updated_at r'\<rparr>"
    using r'(2) by (simp add: r(2) scanAccount_def account_static_def)
  moreover have "Service_GetAccount (Store_repository E) i d' = Inr (scanAccount i r')"
    using r'(1) assms(3) by (simp add: Service_GetAccount_def Store_repository_def Store_GetAccount_def)
  moreover have "sint (ar_balance r') = account_total d' i"
    "ar_allow_negative_balance r' \<or> 0 \<le> sint (ar_balance r')"
    using ledger_invD(4,5) [OF assms(2)] r'(1) by (auto simp: balances_agree_def balance_floor_def)
  moreover have "acc_AllowNegativeBalance a = ar_allow_negative_balance r'"
    using r'(2) by (simp add: r(2) scanAccount_def account_static_def)
  ultimately show thesis by (intro that [where b = "ar_balance r'" and u = "ar_updated_at r'"]) simp_all
qed

text \<open>A request that is routed to a handler is a step, whatever routed it.\<close>

lemma post_is_step:
  assumes "handleCreateTransaction (env_texts E) H (lift_repository (Store_repository E)) r s = (rsp, s')"
  shows "api_step publish s s'"
  by (rule api_step.request [where mux = "\<lambda>_ _ _. Matched (''POST'', ''/transactions/'') []"])
    (use assms in \<open>simp add: handle_def Routes_def serve_def NewServer_def route_table_def\<close>)

lemma create_is_step:
  assumes "handleCreateAccount (env_texts E) H (lift_repository (Store_repository E)) r s = (rsp, s')"
  shows "api_step publish s s'"
  by (rule api_step.request [where mux = "\<lambda>_ _ _. Matched (''POST'', ''/accounts/'') []"])
    (use assms in \<open>simp add: handle_def Routes_def serve_def NewServer_def route_table_def\<close>)

section \<open>What a created resource was answered with\<close>

lemma post_fresh:
  assumes post: "handleCreateTransaction (env_texts E) H (lift_repository (Store_repository E)) r (d, p)
      = (rsp, (d1, p1))"
    and "rsp_Status rsp = 201" and "(HeaderReplayed, ''true'') \<notin> set (rsp_Header rsp)"
  obtains cmd claim res t where
    "Service_Transfer (Store_repository E) cmd claim (render_transaction (env_texts E)) d = (Inr res, d1)"
    "res_Transaction res = Some t" "transaction_exists d1 (txn_ID t)" "t = transfer_txn E cmd"
    "transfer_event E cmd \<in> set (outbox_events d1)"
    "rsp_Body rsp = encode (marshal_transactionResponse (uuid_String (env_texts E)) (newTransactionResponse t))"
proof -
  let ?T = "env_texts E"
  from assms(2) have no: "rsp \<noteq> writeDomainError ?T e" "\<not> refusal rsp" for e
    using writeDomainError_status [of ?T e] by (auto simp: refusal_def)
  with post obtain cmd claim where req: "transfer_request ?T H r = Inr (cmd, claim)"
    by (cases "transfer_request ?T H r")
      (auto simp: handleCreateTransaction_def dest: transfer_request_refusal)
  obtain out d2 where run: "Service_Transfer (Store_repository E) cmd claim (render_transaction ?T) d = (out, d2)"
    by (cases "Service_Transfer (Store_repository E) cmd claim (render_transaction ?T) d")
  with post req no obtain res where res: "out = Inr res" "rsp = writeResult res" "d2 = d1"
    by (cases out) (auto simp: handleCreateTransaction_def Service_Transfer_lift)
  with run have run: "Service_Transfer (Store_repository E) cmd claim (render_transaction ?T) d = (Inr res, d1)"
    by simp
  from run show thesis
  proof (cases rule: Service_Transfer_Inr)
    case (fresh currency rd rc bd bc)
    have "res_Transaction res = Some (transfer_txn E cmd)" by (subst fresh(2)) simp
    moreover have "transaction_exists d1 (txn_ID (transfer_txn E cmd))"
      by (simp add: fresh(5) transaction_exists_def row_simps transfer_txn_def transfer_row_def)
    moreover have "rsp_Body rsp = encode (marshal_transactionResponse (uuid_String ?T)
        (newTransactionResponse (transfer_txn E cmd)))"
      using fresh(3) by (simp add: res(2) writeResult_def render_transaction_def)
    moreover have "transfer_event E cmd \<in> set (outbox_events d1)" by (subst fresh(5)) (simp add: row_simps)
    ultimately show thesis using run by (intro that [OF _ _ _ refl])
  next
    case (replay row)
    have "res_Replayed res" by (subst replay(5)) simp
    with assms(3) res(2) show thesis by (simp add: writeResult_def)
  qed
qed

lemma create_fresh:
  assumes post: "handleCreateAccount (env_texts E) H (lift_repository (Store_repository E)) r (d, p)
      = (rsp, (d1, p1))"
    and "rsp_Status rsp = 201"
  obtains cmd a where
    "Service_CreateAccount (Store_repository E) (account_id H) cmd d = (Inr a, d1)"
    "rsp = writeAccount (env_texts E) 201 a"
proof -
  let ?T = "env_texts E"
  from assms(2) have no: "rsp \<noteq> writeDomainError ?T e" "\<not> refusal rsp" for e
    using writeDomainError_status [of ?T e] by (auto simp: refusal_def)
  with post obtain req where req: "decodeJSON H ''createAccountRequest'' createAccountRequest_fields
      createAccountRequest_zero r = Inr req"
    by (cases "decodeJSON H ''createAccountRequest'' createAccountRequest_fields createAccountRequest_zero r")
      (auto simp: handleCreateAccount_def dest: decodeJSON_refusal)
  let ?cmd = "\<lparr>cac_Name = car_Name req, cac_Kind = car_Kind req, cac_Currency = car_Currency req,
    cac_AllowNegativeBalance = car_AllowNegativeBalance req\<rparr>"
  obtain out d2 where run: "Service_CreateAccount (Store_repository E) (account_id H) ?cmd d = (out, d2)"
    by (cases "Service_CreateAccount (Store_repository E) (account_id H) ?cmd d")
  with post req no obtain a where "out = Inr a" "rsp = writeAccount ?T 201 a" "d2 = d1"
    by (cases out) (auto simp: handleCreateAccount_def Service_CreateAccount_lift)
  with run that show thesis by blast
qed

section \<open>Reading it\<close>

text \<open>
  C5. A posted transaction is served for good: once \<open>POST /transactions\<close> answered 201 with
  a document, \<open>GET /transactions/{id}\<close> answers 200 with the same document after any number of
  requests and batches of the relay, but for one thing: the two entries are listed in the
  opposite order. The read needs a database without faults.
\<close>

theorem posted_transaction_is_served:
  assumes "api_reachable publish p0 (d, p)"
    and "handleCreateTransaction (env_texts E) H (lift_repository (Store_repository E)) r (d, p)
      = (rsp, (d1, p1))"
    and "rsp_Status rsp = 201" and "(HeaderReplayed, ''true'') \<notin> set (rsp_Header rsp)"
    and "(api_step publish)\<^sup>*\<^sup>* (d1, p1) (d2, p2)"
    and "no_faults E2"
  shows "\<exists>t. txn_ID t = new_uuid E 0
    \<and> rsp_Body rsp = encode (marshal_transactionResponse (uuid_String (env_texts E)) (newTransactionResponse t))
    \<and> (\<forall>H2 param. uuid_Parse H2 param = Some (txn_ID t) \<longrightarrow>
        handleGetTransaction (env_texts E2) H2 (lift_repository (Store_repository E2)) param (d2, p2) =
          writeJSON 200 (Some (marshal_transactionResponse (uuid_String (env_texts E2))
            (newTransactionResponse (t\<lparr>txn_Entries := rev (txn_Entries t)\<rparr>)))))"
proof -
  from assms(2-4) obtain cmd claim res t where
    run: "Service_Transfer (Store_repository E) cmd claim (render_transaction (env_texts E)) d = (Inr res, d1)"
    and t: "res_Transaction res = Some t" "transaction_exists d1 (txn_ID t)" "t = transfer_txn E cmd"
    and body: "rsp_Body rsp =
      encode (marshal_transactionResponse (uuid_String (env_texts E)) (newTransactionResponse t))"
    by (rule post_fresh)
  have r1: "api_reachable publish p0 (d1, p1)" by (rule api_reachable.step [OF assms(1) post_is_step [OF assms(2)]])
  have inv: "ledger_inv d" "ledger_inv d1" "ledger_inv d2"
    using api_reachable_inv [OF assms(1)] api_reachable_inv [OF r1]
      api_reachable_inv [OF api_reachable_steps [OF r1 assms(5)]] by (simp_all add: system_inv_def)
  have "Service_GetTransaction (Store_repository E2) (txn_ID t) d2 =
      Service_GetTransaction (Store_repository E2) (txn_ID t) d1"
    using inv t(2) extends_steps [OF api_steps_system [OF assms(5)]]
    by (intro GetTransaction_kept) (auto dest: ledger_invD)
  also have "\<dots> = Inr (t\<lparr>txn_Entries := rev (txn_Entries t)\<rparr>)"
    by (rule transaction_reads_back_reversed [OF run t(1) inv(1) assms(6)])
  finally have read: "Service_GetTransaction (Store_repository E2) (txn_ID t) d2 =
    Inr (t\<lparr>txn_Entries := rev (txn_Entries t)\<rparr>)" .
  have "txn_ID t = new_uuid E 0" by (simp add: t(3) transfer_txn_def)
  with read show ?thesis
    using body by (auto simp: handleGetTransaction_def parseUUIDParam_def Service_GetTransaction_def
        lift_repository_def)
qed

theorem posted_transaction_is_served_witness:
  "\<exists>t. txn_ID t = 10 \<and> demo_body = encode (marshal_transactionResponse (uuid_String demo_texts) (newTransactionResponse t))
    \<and> handleGetTransaction demo_texts (demo_http 0)
        (lift_repository (Store_repository (demo_env 30 9))) ''10'' demo_api1 =
      writeJSON 200 (Some (marshal_transactionResponse (uuid_String demo_texts)
        (newTransactionResponse (t\<lparr>txn_Entries := rev (txn_Entries t)\<rparr>))))"
proof -
  obtain d p d1 p1 where s: "demo_api0 = (d, p)" "demo_api1 = (d1, p1)"
    by (cases demo_api0; cases demo_api1)
  have "env_texts (demo_env b t) = demo_texts" "new_uuid (demo_env 10 5) 0 = 10" for b t
    by (simp_all add: demo_env_def)
  moreover have "uuid_Parse (demo_http 0) ''10'' = Some 10" by (simp add: demo_http_def)
  moreover note posted_transaction_is_served [OF demo_api0_reachable [unfolded s] demo_post_run [unfolded s]
      _ _ rtranclp.rtrancl_refl demo_no_faults, of 30 9]
  ultimately show ?thesis by (auto simp: s)
qed

text \<open>
  C12. An account that was opened is served for good: once \<open>POST /accounts\<close> answered 201,
  \<open>GET /accounts/{id}\<close> answers 200 after any number of requests and batches of the relay
  with the same id, name, kind, currency, floor and creation time, and with the balance its
  entries add up to, which respects the floor. The read needs a database without faults.
\<close>

theorem opened_account_is_served:
  assumes "api_reachable publish p0 (d, p)"
    and "handleCreateAccount (env_texts E) H (lift_repository (Store_repository E)) r (d, p)
      = (rsp, (d1, p1))"
    and "rsp_Status rsp = 201"
    and "(api_step publish)\<^sup>*\<^sup>* (d1, p1) (d2, p2)"
    and "no_faults E2"
  shows "\<exists>a. rsp = writeAccount (env_texts E) 201 a \<and> acc_ID a = account_id H \<and> acc_Balance a = 0
    \<and> (\<forall>H2 param. uuid_Parse H2 param = Some (account_id H) \<longrightarrow>
        (\<exists>b u. handleGetAccount (env_texts E2) H2 (lift_repository (Store_repository E2)) param (d2, p2) =
            writeAccount (env_texts E2) 200 (a\<lparr>acc_Balance := b, acc_UpdatedAt := u\<rparr>)
          \<and> sint b = account_total d2 (account_id H)
          \<and> (acc_AllowNegativeBalance a \<or> 0 \<le> sint b)))"
proof -
  from assms(2,3) obtain cmd a where
    run: "Service_CreateAccount (Store_repository E) (account_id H) cmd d = (Inr a, d1)"
    and rsp: "rsp = writeAccount (env_texts E) 201 a"
    by (rule create_fresh)
  from account_reads_back [OF run assms(5)] have a: "Service_GetAccount (Store_repository E2) (account_id H) d1 = Inr a" "acc_Balance a = 0"
    by simp_all
  then have aid: "acc_ID a = account_id H"
    using assms(5) by (auto simp: Service_GetAccount_def Store_repository_def Store_GetAccount_def
        scanAccount_def split: option.splits)
  have "ledger_inv d2"
    using api_reachable_inv [OF api_reachable_steps [OF api_reachable.step [OF assms(1) create_is_step [OF assms(2)]] assms(4)]]
    by (simp add: system_inv_def)
  from GetAccount_kept [OF extends_steps [OF api_steps_system [OF assms(4)]] this assms(5) a(1)]
  obtain b u where
    "Service_GetAccount (Store_repository E2) (account_id H) d2 = Inr (a\<lparr>acc_Balance := b, acc_UpdatedAt := u\<rparr>)"
    "sint b = account_total d2 (account_id H)" "acc_AllowNegativeBalance a \<or> 0 \<le> sint b" .
  then show ?thesis
    using rsp aid a(2) by (intro exI [of _ a])
      (auto simp: handleGetAccount_def parseUUIDParam_def Service_GetAccount_def lift_repository_def)
qed

theorem opened_account_is_served_witness:
  "\<exists>s a b u. handleGetAccount demo_texts (demo_http 0)
      (lift_repository (Store_repository (demo_env 0 3))) ''1'' (s, [] :: Envelope list) =
    writeAccount demo_texts 200 (a\<lparr>acc_Balance := b, acc_UpdatedAt := u\<rparr>) \<and> acc_ID a = 1"
proof -
  let ?r = "Service_CreateAccount (Store_repository (demo_env 0 0)) 1 (demo_account ''external'' True) empty_db"
  let ?req = "demo_request ''POST'' ''/accounts/'' [] (demo_account_json ''external'' True)"
  have "isl (fst ?r) = False" by code_simp
  then obtain a where a: "fst ?r = Inr a" by (cases "fst ?r") simp_all
  have T: "env_texts (demo_env b t) = demo_texts" for b t by (simp add: demo_env_def)
  have http: "account_id (demo_http 1) = 1" "uuid_Parse (demo_http 0) ''1'' = Some 1"
    by (simp_all add: demo_http_def)
  have "handleCreateAccount (env_texts (demo_env 0 0)) (demo_http 1)
      (lift_repository (Store_repository (demo_env 0 0))) ?req (empty_db, [] :: Envelope list) =
    (writeAccount demo_texts 201 a, (snd ?r, []))"
    using demo_account_decodes [of "''external''" True 1] a
    by (cases ?r) (simp add: handleCreateAccount_def Service_CreateAccount_lift demo_account_def T http(1))
  from opened_account_is_served [OF api_reachable.start this _ rtranclp.rtrancl_refl demo_no_faults, of 0 3]
  have "\<exists>a b u. handleGetAccount demo_texts (demo_http 0)
      (lift_repository (Store_repository (demo_env 0 3))) ''1'' (snd ?r, [] :: Envelope list) =
    writeAccount demo_texts 200 (a\<lparr>acc_Balance := b, acc_UpdatedAt := u\<rparr>) \<and> acc_ID a = 1"
    using http T by fastforce
  then show ?thesis by blast
qed

end
