(* ===== verification/Api_Events.thy ===== *)
theory Api_Events
  imports Api_Reads
begin

text \<open>
  From a request to its event: what is posted through the API is announced by the relay,
  whatever happens in between.
\<close>

section \<open>An event waits as it was written until it is published\<close>

definition event_kept :: "event_row \<Rightarrow> event_row \<Rightarrow> bool" where
  "event_kept r r' \<longleftrightarrow> r' = r
     \<or> vr_published_at r' \<noteq> None \<and> Event_Envelope (scanEvent r') = Event_Envelope (scanEvent r)"

definition events_kept :: "db \<Rightarrow> db \<Rightarrow> bool" where
  "events_kept d d' \<longleftrightarrow> (\<forall>r \<in> set (outbox_events d). \<exists>r' \<in> set (outbox_events d'). event_kept r r')"

lemma event_kept_trans: "event_kept a b \<Longrightarrow> event_kept b c \<Longrightarrow> event_kept a c"
  by (auto simp: event_kept_def)

lemma events_kept_trans: "events_kept a b \<Longrightarrow> events_kept b c \<Longrightarrow> events_kept a c"
  unfolding events_kept_def by (meson event_kept_trans)

lemma events_kept_prefix: "prefix (outbox_events d) (outbox_events d') \<Longrightarrow> events_kept d d'"
  by (auto simp: events_kept_def event_kept_def prefix_def)

lemma events_kept_refl [simp]: "events_kept d d"
  by (rule events_kept_prefix) simp

lemma events_kept_burnt: "burnt d d' \<Longrightarrow> events_kept d d'"
  by (rule events_kept_prefix) (auto simp: burnt_def)

lemma events_kept_settled: "events_kept d (settled E e None trigger d)"
  unfolding events_kept_def
proof
  fix r assume r: "r \<in> set (outbox_events d)"
  let ?r = "if vr_id r = ev_ID e then settle_row E (ev_Attempts e + 1) None r else r"
  have "?r \<in> set (outbox_events (settled E e None trigger d))" using r by auto
  moreover have "event_kept r ?r" by (simp add: event_kept_def published_at_settle_row)
  ultimately show "\<exists>r' \<in> set (outbox_events (settled E e None trigger d)). event_kept r r'" by blast
qed

context reliable_publisher
begin

lemma publish_None: "publish e p = (perr, p') \<Longrightarrow> perr = None"
  using never_fails [of e p] by simp

lemma events_kept_settle_all: "events_kept d (snd (settle_all E publish es p d))"
proof (induction es arbitrary: p d)
  case (Cons e es)
  obtain p1 where pub: "publish (Event_Envelope e) p = (None, p1)"
    using publish_None by (metis prod.exhaust)
  from events_kept_trans [OF events_kept_settled Cons.IH] pub show ?case by simp
qed simp

lemma events_kept_step:
  assumes "system_step publish (d, p) (d', p')"
  shows "events_kept d d'"
  using assms
proof (cases rule: system_step_E)
  case (create E new_id cmd r)
  from create(2) show ?thesis
    by (cases rule: Service_CreateAccount_cases)
      (auto simp: insert_account_def intro: events_kept_prefix split: if_splits)
next
  case (transfer E cmd claim render r)
  from transfer(2) show ?thesis
    by (cases rule: Service_Transfer_cases) (auto simp: row_simps intro: events_kept_prefix)
next
  case (dispatch E limit r)
  from dispatch(1) show ?thesis
  proof (cases rule: DispatchBatch_cases)
    case dispatched
    then show ?thesis using events_kept_settle_all by (metis snd_conv)
  next
    case lost
    then show ?thesis using events_kept_settle_all by (metis snd_conv)
  qed (auto intro: events_kept_burnt)
next
  case (replay E eid r)
  from replay show ?thesis
  proof (cases rule: ReplayEvent_cases)
    case (published e perr)
    from published(3) [unfolded publish_None [OF published(2)]] show ?thesis
      by (cases rule: finish_replay_cases) (auto intro: events_kept_burnt events_kept_settled)
  qed simp
qed

lemma events_kept_steps: "(system_step publish)\<^sup>*\<^sup>* (d, p) (d', p') \<Longrightarrow> events_kept d d'"
proof (induction rule: rtranclp_induct2)
  case (step d1 p1 d2 p2)
  from step(3) events_kept_step [OF step(2)] show ?case by (rule events_kept_trans)
qed simp

text \<open>An undisturbed dispatch therefore announces every event written before it.\<close>

lemma dispatch_announces:
  assumes "reachable publish p0 (d1, p1)" and "(system_step publish)\<^sup>*\<^sup>* (d1, p1) (d2, p2)"
    and ev: "ev \<in> set (outbox_events d1)" "vr_status ev = Pending" "vr_available_at ev \<le> now E"
    and nf: "no_faults E" and sc: "scans_all E"
    and free: "\<And>r. r \<in> set (outbox_events d2) \<Longrightarrow> \<not> row_locked E (vr_id r)"
    and room: "int (length (filter (due E) (outbox_events d2))) \<le> limit"
  obtains n p3 d3 where "DispatchBatch E limit publish p2 d2 = (Inr n, p3, d3)"
    "Event_Envelope (scanEvent ev) \<in> accepted p3"
proof -
  have r2: "reachable publish p0 (d2, p2)"
    using assms(2,1) by (induction rule: rtranclp_induct) (auto intro: reachable.step)
  from reachable_delivered [OF r2] have oi: "outbox_inv d2" and dl: "delivered accepted d2 p2"
    by (simp_all add: system_inv_def)
  from dispatch_delivers_due [OF nf sc oi free room] obtain n p3 d3 where
    run: "DispatchBatch E limit publish p2 d2 = (Inr n, p3, d3)"
    and none: "\<forall>r \<in> set (outbox_events d3). \<not> due E r" by blast
  from system_step.dispatch [OF run sc] have "system_step publish (d2, p2) (d3, p3)" .
  from events_kept_trans [OF events_kept_steps [OF assms(2)] events_kept_step [OF this]] ev(1)
  obtain r where r: "r \<in> set (outbox_events d3)" "event_kept ev r"
    unfolding events_kept_def by blast
  have "r \<noteq> ev" using none r(1) ev(2,3) by (auto simp: due_def)
  with r dispatch_inv(2) [OF run sc oi dl] have "Event_Envelope (scanEvent ev) \<in> accepted p3"
    by (auto simp: event_kept_def delivered_def)
  with run show thesis by (rule that)
qed

end

section \<open>A posted transaction\<close>



end
