(* ===== verification/Strconv.thy ===== *)
theory Strconv
  imports Domain
begin

text \<open>
  \<open>strconv.ParseInt\<close> and \<open>strconv.Atoi\<close> for base 10 and 64 bits, with their errors.
\<close>

text \<open>
  \<open>strconv.ParseUint(s, 10, 64)\<close> reads digit by digit and stops at the first character
  that is none, or at the first digit that takes it out of range.
\<close>

datatype parse_failure = SyntaxError | RangeError

fun parse_digits :: "int \<Rightarrow> string \<Rightarrow> parse_failure + int" where
  "parse_digits n [] = Inr n"
| "parse_digits n (c # cs) =
     (case 48 \<le> byte c \<and> byte c \<le> 57 of
        False \<Rightarrow> Inl SyntaxError
      | True \<Rightarrow>
          (case 10 * n + int (byte c - 48) < 2 ^ 64 of
             False \<Rightarrow> Inl RangeError
           | True \<Rightarrow> parse_digits (10 * n + int (byte c - 48)) cs))"

definition parse_signed :: "string \<Rightarrow> parse_failure + int" where
  "parse_signed s =
     (let neg = (s \<noteq> [] \<and> hd s = CHR ''-'');
          ds = (if s \<noteq> [] \<and> hd s \<in> {CHR ''-'', CHR ''+''} then tl s else s) in
      if ds = [] then Inl SyntaxError
      else case parse_digits 0 ds of
        Inl e \<Rightarrow> Inl e
      | Inr n \<Rightarrow>
          let i = (if neg then - n else n) in
          if int64_range i then Inr i else Inl RangeError)"

text \<open>The error names the function and quotes its argument.\<close>

definition strconv_int :: "string \<Rightarrow> string \<Rightarrow> go_error + int64" where
  "strconv_int func s =
     (case parse_signed s of
        Inr i \<Rightarrow> Inr (word_of_int i)
      | Inl e \<Rightarrow> Inl (NewError [Str (''strconv.'' @ func @ '': parsing ''), Quoted s,
          Str (case e of SyntaxError \<Rightarrow> '': invalid syntax'' | RangeError \<Rightarrow> '': value out of range'')]))"

end
