(* ===== verification/Migrate.thy ===== *)
theory Migrate
  imports Sha256 Schema Strconv
begin

text \<open>
  Schema migrations: \<open>internal/storage/postgres/migrate.go\<close> and \<open>cmd/migrate/main.go\<close>. The
  embedded directory is a list of entries in the order \<open>fs.ReadDir\<close> returns them. What a
  migration's SQL does is PostgreSQL's: \<open>me_run\<close> says which schema it leaves, or with
  which error it fails. The state is the schema, the table \<open>schema_migrations\<close> and the
  number of times the session holds the advisory lock.
\<close>

section \<open>The files\<close>

record Migration =
  mig_Version :: int64
  mig_Name :: string
  mig_Up :: string
  mig_Down :: string
  mig_Checksum :: string

record dir_entry =
  de_Name :: string
  de_IsDir :: bool
  de_Body :: string

definition HasSuffix :: "string \<Rightarrow> string \<Rightarrow> bool" where
  "HasSuffix s suf \<longleftrightarrow> length suf \<le> length s \<and> drop (length s - length suf) s = suf"

definition TrimSuffix :: "string \<Rightarrow> string \<Rightarrow> string" where
  "TrimSuffix s suf = (if HasSuffix s suf then take (length s - length suf) s else s)"

text \<open>\<open>path.Ext\<close>: from the last dot of the last element, with the dot.\<close>

definition path_Ext :: "string \<Rightarrow> string" where
  "path_Ext s =
     (let r = takeWhile (\<lambda>c. c \<noteq> CHR ''.'' \<and> c \<noteq> CHR ''/'') (rev s) in
      case drop (length r) (rev s) of
        c # _ \<Rightarrow> if c = CHR ''.'' then CHR ''.'' # rev r else []
      | [] \<Rightarrow> [])"

subsection \<open>Calls that can fail\<close>

datatype mig_site =
    ReadDir | ReadMigrationFile string | AdvisoryLock | AdvisoryUnlock | EnsureTable
  | AppliedQuery | AppliedScan | AppliedRows
  | BeginMigration int64 | RunMigration int64 | RecordMigration int64 | CommitMigration int64
  | VersionQuery

text \<open>
  \<open>me_lost\<close>: a statement or commit whose call failed was carried out all the same;
  \<open>me_range\<close>: the order in which a loop over a Go map visits its values; \<open>me_now\<close>: the
  clock of the transaction that applies a version.
\<close>

record 's mig_env =
  me_fails :: "mig_site \<Rightarrow> go_error option"
  me_lost :: bool
  me_range :: "Migration list \<Rightarrow> Migration list"
  me_run :: "string \<Rightarrow> 's \<Rightarrow> go_error + 's"
  me_now :: "int64 \<Rightarrow> time"

subsection \<open>LoadMigrations\<close>

text \<open>\<open>byVersion\<close>, as a list with one migration for each version.\<close>

fun upd_version :: "int64 \<Rightarrow> string \<Rightarrow> (Migration \<Rightarrow> Migration) \<Rightarrow> Migration list \<Rightarrow> Migration list" where
  "upd_version v nam f [] =
     [f \<lparr>mig_Version = v, mig_Name = nam, mig_Up = [], mig_Down = [], mig_Checksum = []\<rparr>]"
| "upd_version v nam f (m # ms) =
     (if mig_Version m = v then f m # ms else m # upd_version v nam f ms)"

definition load_entry :: "'s mig_env \<Rightarrow> dir_entry \<Rightarrow> Migration list \<Rightarrow> go_error + Migration list" where
  "load_entry E e byVersion =
     (if de_IsDir e \<or> \<not> HasSuffix (de_Name e) ''.sql'' then Inr byVersion
      else
        let base = TrimSuffix (de_Name e) ''.sql'';
            direction = path_Ext base;
            stem = TrimSuffix base direction;
            digits = takeWhile (\<lambda>c. c \<noteq> CHR ''_'') stem in
        if digits = [] \<or> digits = stem
        then Inl (NewError [Str ''migration '', Quoted (de_Name e),
               Str '': expected NNNN_name.(up|down).sql''])
        else case strconv_int ''ParseInt'' digits of
          Inl err \<Rightarrow> Inl (Wrapf [Str ''migration '', Quoted (de_Name e), Str '': bad version: ''] err [])
        | Inr version \<Rightarrow>
            (case me_fails E (ReadMigrationFile (de_Name e)) of
               Some err \<Rightarrow> Inl (Wrapf [Str ''read '', Quoted (de_Name e), Str '': ''] err [])
             | None \<Rightarrow>
                 let nam = drop (Suc (length digits)) stem in
                 if direction = ''.up''
                 then Inr (upd_version version nam (mig_Up_update (\<lambda>_. de_Body e)) byVersion)
                 else if direction = ''.down''
                 then Inr (upd_version version nam (mig_Down_update (\<lambda>_. de_Body e)) byVersion)
                 else Inl (NewError [Str ''migration '', Quoted (de_Name e),
                        Str '': expected .up.sql or .down.sql''])))"

fun load_entries :: "'s mig_env \<Rightarrow> dir_entry list \<Rightarrow> Migration list \<Rightarrow> go_error + Migration list" where
  "load_entries E [] byVersion = Inr byVersion"
| "load_entries E (e # es) byVersion =
     (case load_entry E e byVersion of
        Inl err \<Rightarrow> Inl err
      | Inr byVersion' \<Rightarrow> load_entries E es byVersion')"

fun with_checksums :: "Migration list \<Rightarrow> go_error + Migration list" where
  "with_checksums [] = Inr []"
| "with_checksums (m # ms) =
     (if mig_Up m = []
      then Inl (NewError [Str ''migration '', Dec (sint (mig_Version m)), Str '' ('',
             Str (mig_Name m), Str ''): missing .up.sql''])
      else case with_checksums ms of
        Inl err \<Rightarrow> Inl err
      | Inr out \<Rightarrow>
          Inr (m\<lparr>mig_Checksum := hex_EncodeToString (Sum256 (mig_Up m))\<rparr> # out))"

text \<open>\<open>sort.Slice\<close> need not be stable, but no two of the versions are equal.\<close>

definition LoadMigrations :: "'s mig_env \<Rightarrow> dir_entry list \<Rightarrow> go_error + Migration list" where
  "LoadMigrations E entries =
     (case me_fails E ReadDir of
        Some err \<Rightarrow> Inl (wrap ''read migrations dir: '' err)
      | None \<Rightarrow>
     (case load_entries E entries [] of
        Inl err \<Rightarrow> Inl err
      | Inr byVersion \<Rightarrow>
     (case with_checksums (me_range E byVersion) of
        Inl err \<Rightarrow> Inl err
      | Inr out \<Rightarrow> Inr (sort_key (\<lambda>m. sint (mig_Version m)) out))))"

section \<open>The database\<close>

record mig_row =
  mr_version :: int64
  mr_name :: string
  mr_checksum :: string
  mr_applied_at :: time

record 's mig_db =
  md_schema :: 's
  md_rows :: "mig_row list option"
  md_locks :: nat

definition create_if_missing :: "'s mig_db \<Rightarrow> 's mig_db" where
  "create_if_missing d = (case md_rows d of None \<Rightarrow> d\<lparr>md_rows := Some []\<rparr> | Some _ \<Rightarrow> d)"

definition ensureMigrationTable :: "'s mig_env \<Rightarrow> 's mig_db \<Rightarrow> go_error option \<times> 's mig_db" where
  "ensureMigrationTable E d =
     (case me_fails E EnsureTable of
        Some err \<Rightarrow> (Some err, if me_lost E then create_if_missing d else d)
      | None \<Rightarrow> (None, create_if_missing d))"

definition undefined_table :: go_error where
  "undefined_table = PgError ''42P01'' []"

definition appliedMigrations :: "'s mig_env \<Rightarrow> 's mig_db \<Rightarrow> go_error + (int64 \<rightharpoonup> string)" where
  "appliedMigrations E d =
     (case me_fails E AppliedQuery of
        Some err \<Rightarrow> Inl err
      | None \<Rightarrow>
     (case md_rows d of
        None \<Rightarrow> Inl undefined_table
      | Some rows \<Rightarrow>
     (case if rows = [] then None else me_fails E AppliedScan of
        Some err \<Rightarrow> Inl err
      | None \<Rightarrow>
     (case me_fails E AppliedRows of
        Some err \<Rightarrow> Inl err
      | None \<Rightarrow> Inr (map_of (map (\<lambda>r. (mr_version r, mr_checksum r)) rows))))))"

subsection \<open>applyOne\<close>

definition migration_row :: "'s mig_env \<Rightarrow> Migration \<Rightarrow> mig_row" where
  "migration_row E m = \<lparr>mr_version = mig_Version m, mr_name = mig_Name m,
     mr_checksum = mig_Checksum m, mr_applied_at = me_now E (mig_Version m)\<rparr>"

definition record_migration ::
    "'s mig_env \<Rightarrow> Migration \<Rightarrow> bool \<Rightarrow> mig_row list option \<Rightarrow> go_error + mig_row list" where
  "record_migration E m up rows =
     (case me_fails E (RecordMigration (mig_Version m)) of
        Some err \<Rightarrow> Inl err
      | None \<Rightarrow>
     (case rows of
        None \<Rightarrow> Inl undefined_table
      | Some rs \<Rightarrow>
          if \<not> up then Inr (filter (\<lambda>r. mr_version r \<noteq> mig_Version m) rs)
          else if mig_Version m \<in> set (map mr_version rs)
          then Inl (PgError unique_violation ''schema_migrations_pkey'')
          else Inr (rs @ [migration_row E m])))"

text \<open>One transaction: the deferred rollback leaves the state as it was.\<close>

definition applyOne ::
    "'s mig_env \<Rightarrow> Migration \<Rightarrow> bool \<Rightarrow> 's mig_db \<Rightarrow> go_error option \<times> 's mig_db" where
  "applyOne E m up d =
     (case me_fails E (BeginMigration (mig_Version m)) of
        Some err \<Rightarrow> (Some (Wrapf [Str ''begin migration '', Dec (sint (mig_Version m)), Str '': ''] err []), d)
      | None \<Rightarrow>
     (let body = (if up then mig_Up m else mig_Down m);
          direction = (if up then ''up'' else ''down'') in
      case (case me_fails E (RunMigration (mig_Version m)) of
              Some err \<Rightarrow> Inl err | None \<Rightarrow> me_run E body (md_schema d)) of
        Inl err \<Rightarrow> (Some (Wrapf [Str ''migration '', Dec (sint (mig_Version m)), Str '' ('',
            Str (mig_Name m), Str '') '', Str direction, Str '': ''] err []), d)
      | Inr schema' \<Rightarrow>
     (case record_migration E m up (md_rows d) of
        Inl err \<Rightarrow> (Some (Wrapf [Str ''record migration '', Dec (sint (mig_Version m)), Str '': ''] err []), d)
      | Inr rows' \<Rightarrow>
          let d' = d\<lparr>md_schema := schema', md_rows := Some rows'\<rparr> in
          (case me_fails E (CommitMigration (mig_Version m)) of
             Some err \<Rightarrow> (Some err, if me_lost E then d' else d)
           | None \<Rightarrow> (None, d')))))"

section \<open>Up, Down and Version\<close>

text \<open>\<open>f\<close> runs between taking the lock and the deferred unlock, whose error is dropped.\<close>

definition with_lock ::
    "'s mig_env \<Rightarrow> ('s mig_db \<Rightarrow> (int \<times> go_error option) \<times> 's mig_db) \<Rightarrow> 's mig_db
       \<Rightarrow> (int \<times> go_error option) \<times> 's mig_db" where
  "with_lock E f d =
     (case me_fails E AdvisoryLock of
        Some err \<Rightarrow> ((0, Some (wrap ''acquire migration lock: '' err)), d)
      | None \<Rightarrow>
          (case f (d\<lparr>md_locks := md_locks d + 1\<rparr>) of
             (res, d') \<Rightarrow>
               (res, if me_fails E AdvisoryUnlock = None then d'\<lparr>md_locks := md_locks d' - 1\<rparr> else d')))"

fun up_loop ::
    "'s mig_env \<Rightarrow> (int64 \<rightharpoonup> string) \<Rightarrow> Migration list \<Rightarrow> int \<Rightarrow> 's mig_db
       \<Rightarrow> (int \<times> go_error option) \<times> 's mig_db" where
  "up_loop E applied [] k d = ((k, None), d)"
| "up_loop E applied (m # ms) k d =
     (case applied (mig_Version m) of
        Some csum \<Rightarrow>
          if csum \<noteq> mig_Checksum m
          then ((k, Some (NewError [Str ''migration '', Dec (sint (mig_Version m)), Str '' ('',
                  Str (mig_Name m), Str '') was modified after being applied (checksum '', Str csum,
                  Str '' != '', Str (mig_Checksum m), Str '')''])), d)
          else up_loop E applied ms k d
      | None \<Rightarrow>
          (case applyOne E m True d of
             (Some err, d') \<Rightarrow> ((k, Some err), d')
           | (None, d') \<Rightarrow> up_loop E applied ms (k + 1) d'))"

definition up_locked ::
    "'s mig_env \<Rightarrow> Migration list \<Rightarrow> 's mig_db \<Rightarrow> (int \<times> go_error option) \<times> 's mig_db" where
  "up_locked E migrations d =
     (case ensureMigrationTable E d of
        (Some err, d1) \<Rightarrow> ((0, Some (wrap ''ensure schema_migrations: '' err)), d1)
      | (None, d1) \<Rightarrow>
          (case appliedMigrations E d1 of
             Inl err \<Rightarrow> ((0, Some (wrap ''read schema_migrations: '' err)), d1)
           | Inr applied \<Rightarrow> up_loop E applied migrations 0 d1))"

definition Up :: "'s mig_env \<Rightarrow> dir_entry list \<Rightarrow> 's mig_db \<Rightarrow> (int \<times> go_error option) \<times> 's mig_db" where
  "Up E entries d =
     (case LoadMigrations E entries of
        Inl err \<Rightarrow> ((0, Some err), d)
      | Inr migrations \<Rightarrow> with_lock E (up_locked E migrations) d)"

text \<open>\<open>ms\<close> is what remains of the list, last migration first.\<close>

fun down_loop ::
    "'s mig_env \<Rightarrow> (int64 \<rightharpoonup> string) \<Rightarrow> int \<Rightarrow> Migration list \<Rightarrow> int \<Rightarrow> 's mig_db
       \<Rightarrow> (int \<times> go_error option) \<times> 's mig_db" where
  "down_loop E applied n [] k d = ((k, None), d)"
| "down_loop E applied n (m # ms) k d =
     (if \<not> k < n then ((k, None), d)
      else if applied (mig_Version m) = None then down_loop E applied n ms k d
      else if mig_Down m = []
      then ((k, Some (NewError [Str ''migration '', Dec (sint (mig_Version m)), Str '' ('',
              Str (mig_Name m), Str '') has no down migration''])), d)
      else case applyOne E m False d of
        (Some err, d') \<Rightarrow> ((k, Some err), d')
      | (None, d') \<Rightarrow> down_loop E applied n ms (k + 1) d')"

definition down_locked ::
    "'s mig_env \<Rightarrow> Migration list \<Rightarrow> int \<Rightarrow> 's mig_db \<Rightarrow> (int \<times> go_error option) \<times> 's mig_db" where
  "down_locked E migrations n d =
     (case ensureMigrationTable E d of
        (Some err, d1) \<Rightarrow> ((0, Some err), d1)
      | (None, d1) \<Rightarrow>
          (case appliedMigrations E d1 of
             Inl err \<Rightarrow> ((0, Some err), d1)
           | Inr applied \<Rightarrow> down_loop E applied n (rev migrations) 0 d1))"

definition Down ::
    "'s mig_env \<Rightarrow> dir_entry list \<Rightarrow> int \<Rightarrow> 's mig_db \<Rightarrow> (int \<times> go_error option) \<times> 's mig_db" where
  "Down E entries n d =
     (case LoadMigrations E entries of
        Inl err \<Rightarrow> ((0, Some err), d)
      | Inr migrations \<Rightarrow> with_lock E (down_locked E migrations n) d)"

definition Version :: "'s mig_env \<Rightarrow> 's mig_db \<Rightarrow> (go_error + int) \<times> 's mig_db" where
  "Version E d =
     (case ensureMigrationTable E d of
        (Some err, d1) \<Rightarrow> (Inl err, d1)
      | (None, d1) \<Rightarrow>
          (case me_fails E VersionQuery of
             Some err \<Rightarrow> (Inl err, d1)
           | None \<Rightarrow>
               (case md_rows d1 of
                  None \<Rightarrow> (Inl undefined_table, d1)
                | Some [] \<Rightarrow> (Inr 0, d1)
                | Some (r # rs) \<Rightarrow>
                    (Inr (fold max (map (\<lambda>r. sint (mr_version r)) rs) (sint (mr_version r))), d1))))"

section \<open>cmd/migrate\<close>

text \<open>
  \<open>args\<close> are the arguments after the program name, \<open>connected\<close> is the outcome of
  \<open>pgx.Connect\<close>. The result is the error of \<open>run\<close> and what it prints; closing the
  connection ends the session and with it its locks.
\<close>

definition counted :: "string \<Rightarrow> (int \<times> go_error option) \<Rightarrow> go_error option \<times> string" where
  "counted verb res =
     (case res of (n, Some err) \<Rightarrow> (Some err, [])
      | (n, None) \<Rightarrow> (None, verb @ '' '' @ show_int n @ '' migration(s)'' @ [CHR 0x0A]))"

definition migrate_command ::
    "'s mig_env \<Rightarrow> dir_entry list \<Rightarrow> string \<Rightarrow> string list \<Rightarrow> 's mig_db
       \<Rightarrow> (go_error option \<times> string) \<times> 's mig_db" where
  "migrate_command E entries cmd rest d =
     (if cmd = ''up'' then apfst (counted ''applied'') (Up E entries d)
      else if cmd = ''down'' then
        (case (case rest of [] \<Rightarrow> Inr 1 | s # _ \<Rightarrow>
                 map_sum (\<lambda>err. Wrapf [Str ''down: bad step count '', Quoted s, Str '': ''] err []) sint
                   (strconv_int ''Atoi'' s)) of
           Inl err \<Rightarrow> ((Some err, []), d)
         | Inr steps \<Rightarrow> apfst (counted ''rolled back'') (Down E entries steps d))
      else if cmd = ''version'' then
        (case Version E d of
           (Inl err, d') \<Rightarrow> ((Some err, []), d')
         | (Inr v, d') \<Rightarrow> ((None, ''schema version: '' @ show_int v @ [CHR 0x0A]), d'))
      else ((Some (NewError [Str ''unknown command '', Quoted cmd]), []), d))"

definition migrate_run ::
    "'s mig_env \<Rightarrow> dir_entry list \<Rightarrow> string list \<Rightarrow> string \<Rightarrow> go_error option \<Rightarrow> 's mig_db
       \<Rightarrow> (go_error option \<times> string) \<times> 's mig_db" where
  "migrate_run E entries args databaseURL connected d =
     (case args of
        [] \<Rightarrow> ((Some (NewError [Str ''usage: migrate (up|down [n]|version)'']), []), d)
      | cmd # rest \<Rightarrow>
          if databaseURL = [] then ((Some (NewError [Str ''DATABASE_URL is required'']), []), d)
          else (case connected of
            Some err \<Rightarrow> ((Some (wrap ''connect: '' err), []), d)
          | None \<Rightarrow> apsnd (md_locks_update (\<lambda>_. 0)) (migrate_command E entries cmd rest d)))"

end
