(* ===== verification/Migrate_Facts.thy ===== *)
theory Migrate_Facts
  imports Migrate
begin

text \<open>
  Facts about migrations: what \<open>LoadMigrations\<close> returns, and the runs of \<open>Up\<close> and \<open>Down\<close>
  as sequences of whole migrations, whatever call fails.
\<close>

section \<open>Loaded migrations\<close>

definition ascending :: "Migration list \<Rightarrow> bool" where
  "ascending ms \<longleftrightarrow> sorted_wrt (<) (map (\<lambda>m. sint (mig_Version m)) ms)"

definition one_per_version :: "Migration list \<Rightarrow> bool" where
  "one_per_version ms \<longleftrightarrow> distinct (map mig_Version ms)"

lemma versions_upd_version:
  "(\<And>m. mig_Version (f m) = mig_Version m) \<Longrightarrow>
   map mig_Version (upd_version v nam f ms) =
     (if v \<in> set (map mig_Version ms) then map mig_Version ms else map mig_Version ms @ [v])"
  by (induction ms) auto

lemma load_entry_versions:
  "load_entry E e ms = Inr ms' \<Longrightarrow> one_per_version ms \<Longrightarrow> one_per_version ms'"
  by (auto simp: load_entry_def Let_def one_per_version_def versions_upd_version
      split: if_splits sum.splits option.splits)

lemma load_entries_versions:
  "load_entries E es ms = Inr ms' \<Longrightarrow> one_per_version ms \<Longrightarrow> one_per_version ms'"
  by (induction E es ms rule: load_entries.induct) (auto intro: load_entry_versions split: sum.splits)

lemma with_checksums_Inr:
  "with_checksums ms = Inr out \<Longrightarrow>
     map mig_Version out = map mig_Version ms
     \<and> (\<forall>m \<in> set out. mig_Up m \<noteq> [] \<and> mig_Checksum m = hex_EncodeToString (Sum256 (mig_Up m)))"
proof (induction ms arbitrary: out)
  case (Cons m ms)
  then show ?case by (auto split: if_splits sum.splits)
qed simp

definition range_permutes :: "'s mig_env \<Rightarrow> bool" where
  "range_permutes E \<longleftrightarrow> (\<forall>ms. mset (me_range E ms) = mset ms)"

lemma LoadMigrations_Inr:
  assumes "LoadMigrations E entries = Inr ms" and "range_permutes E"
  shows "ascending ms"
    and "\<forall>m \<in> set ms. mig_Up m \<noteq> [] \<and> mig_Checksum m = hex_EncodeToString (Sum256 (mig_Up m))"
proof -
  from assms(1) obtain byVersion out where l: "load_entries E entries [] = Inr byVersion"
    "with_checksums (me_range E byVersion) = Inr out" and ms: "ms = sort_key (\<lambda>m. sint (mig_Version m)) out"
    by (auto simp: LoadMigrations_def split: option.splits sum.splits)
  note cs = with_checksums_Inr [OF l(2)]
  from cs ms show "\<forall>m \<in> set ms. mig_Up m \<noteq> [] \<and> mig_Checksum m = hex_EncodeToString (Sum256 (mig_Up m))"
    by simp
  from load_entries_versions [OF l(1)] have "distinct (map mig_Version byVersion)"
    by (simp add: one_per_version_def)
  moreover have "mset (map mig_Version out) = mset (map mig_Version byVersion)"
    using cs assms(2) by (simp add: range_permutes_def)
  ultimately have "distinct (map mig_Version out)"
    using mset_eq_imp_distinct_iff by blast
  then have "distinct (map (\<lambda>m. sint (mig_Version m)) out)"
    by (auto simp: distinct_map inj_on_def sint64_inject)
  moreover have "mset (map (\<lambda>m. sint (mig_Version m)) ms) = mset (map (\<lambda>m. sint (mig_Version m)) out)"
    by (simp add: ms)
  ultimately have "distinct (map (\<lambda>m. sint (mig_Version m)) ms)"
    using mset_eq_imp_distinct_iff by blast
  moreover have "sorted (map (\<lambda>m. sint (mig_Version m)) ms)"
    unfolding ms by (rule sorted_sort_key)
  ultimately show "ascending ms"
    by (simp add: ascending_def strict_sorted_iff)
qed

section \<open>One migration\<close>

text \<open>The effect of a migration whose calls all succeed; \<open>None\<close> when it is refused.\<close>

definition upgrade :: "'s mig_env \<Rightarrow> Migration \<Rightarrow> 's mig_db \<Rightarrow> 's mig_db option" where
  "upgrade E m d =
     (case (me_run E (mig_Up m) (md_schema d), md_rows d) of
        (Inr schema', Some rows) \<Rightarrow>
          if mig_Version m \<in> set (map mr_version rows) then None
          else Some (d\<lparr>md_schema := schema', md_rows := Some (rows @ [migration_row E m])\<rparr>)
      | _ \<Rightarrow> None)"

fun upgrades :: "'s mig_env \<Rightarrow> Migration list \<Rightarrow> 's mig_db \<Rightarrow> 's mig_db option" where
  "upgrades E [] d = Some d"
| "upgrades E (m # ms) d = Option.bind (upgrade E m d) (upgrades E ms)"

lemma upgrades_append: "upgrades E (ms @ ns) d = Option.bind (upgrades E ms d) (upgrades E ns)"
  by (induction ms arbitrary: d) (auto split: bind_split)

lemma applyOne_up:
  assumes "applyOne E m True d = (err, d')"
  shows "(err = None \<longrightarrow> upgrade E m d = Some d')
    \<and> (err \<noteq> None \<longrightarrow> d' = d \<or> me_lost E \<and> upgrade E m d = Some d')"
  using assms
  by (auto simp: applyOne_def record_migration_def upgrade_def Let_def
      split: option.splits sum.splits if_splits)

definition pending :: "(int64 \<rightharpoonup> string) \<Rightarrow> Migration list \<Rightarrow> Migration list" where
  "pending applied ms = filter (\<lambda>m. applied (mig_Version m) = None) ms"

definition unedited :: "(int64 \<rightharpoonup> string) \<Rightarrow> Migration list \<Rightarrow> bool" where
  "unedited applied ms \<longleftrightarrow>
     (\<forall>m \<in> set ms. applied (mig_Version m) \<in> {None, Some (mig_Checksum m)})"

lemma up_loop_upgrades:
  assumes "up_loop E applied ms n d = ((k, err), d')"
  shows "\<exists>i \<le> length (pending applied ms). upgrades E (take i (pending applied ms)) d = Some d'
    \<and> (err = None \<longrightarrow> i = length (pending applied ms) \<and> k = n + int i \<and> unedited applied ms)
    \<and> (err \<noteq> None \<longrightarrow> k = n + int i \<or> me_lost E \<and> k + 1 = n + int i)"
  using assms
proof (induction ms arbitrary: n d)
  case Nil
  then show ?case by (simp add: pending_def unedited_def)
next
  case (Cons m ms)
  show ?case
  proof (cases "applied (mig_Version m)")
    case (Some csum)
    show ?thesis
    proof (cases "csum = mig_Checksum m")
      case True
      with Cons.prems Some have "up_loop E applied ms n d = ((k, err), d')" by simp
      from Cons.IH [OF this] Some True show ?thesis by (simp add: pending_def unedited_def)
    next
      case False
      with Cons.prems Some show ?thesis by (intro exI [of _ 0]) auto
    qed
  next
    case None
    then have pend: "pending applied (m # ms) = m # pending applied ms" by (simp add: pending_def)
    obtain err1 d1 where one: "applyOne E m True d = (err1, d1)" by (cases "applyOne E m True d")
    note eff = applyOne_up [OF one]
    show ?thesis
    proof (cases err1)
      case err1: None
      with Cons.prems None one have "up_loop E applied ms (n + 1) d1 = ((k, err), d')" by simp
      from Cons.IH [OF this] obtain i where i: "i \<le> length (pending applied ms)"
        "upgrades E (take i (pending applied ms)) d1 = Some d'"
        "err = None \<longrightarrow> i = length (pending applied ms) \<and> k = n + 1 + int i \<and> unedited applied ms"
        "err \<noteq> None \<longrightarrow> k = n + 1 + int i \<or> me_lost E \<and> k + 1 = n + 1 + int i" by blast
      with eff err1 pend None show ?thesis
        by (intro exI [of _ "Suc i"]) (auto simp: unedited_def)
    next
      case (Some e)
      with Cons.prems None one have "k = n" "err = Some e" "d' = d1" by simp_all
      with eff Some pend show ?thesis
        by (cases "d' = d") (auto intro: exI [of _ 0] exI [of _ "Suc 0"])
    qed
  qed
qed

section \<open>A whole run\<close>

text \<open>The state without the lock of the session.\<close>

definition unlocked :: "'s mig_db \<Rightarrow> 's mig_db" where
  "unlocked d = d\<lparr>md_locks := 0\<rparr>"

definition recorded :: "'s mig_db \<Rightarrow> int64 \<rightharpoonup> string" where
  "recorded d = map_of (map (\<lambda>r. (mr_version r, mr_checksum r))
     (case md_rows d of None \<Rightarrow> [] | Some rows \<Rightarrow> rows))"

lemma upgrade_locks: "upgrade E m d = Some d' \<Longrightarrow> md_locks d' = md_locks d"
  by (auto simp: upgrade_def split: sum.splits option.splits if_splits)

lemma upgrades_locks: "upgrades E ms d = Some d' \<Longrightarrow> md_locks d' = md_locks d"
  by (induction ms arbitrary: d) (auto dest: upgrade_locks split: bind_splits)

lemma upgrades_with_locks:
  "upgrades E ms (d\<lparr>md_locks := l\<rparr>) = map_option (md_locks_update (\<lambda>_. l)) (upgrades E ms d)"
proof (induction ms arbitrary: d)
  case (Cons m ms)
  have "upgrade E m (d\<lparr>md_locks := l\<rparr>) = map_option (md_locks_update (\<lambda>_. l)) (upgrade E m d)"
    by (auto simp: upgrade_def split: sum.split option.split)
  with Cons.IH show ?case by (cases "upgrade E m d") simp_all
qed simp

lemma upgrades_rows: "upgrades E ms d = Some d' \<Longrightarrow> md_rows d \<noteq> None \<Longrightarrow> md_rows d' \<noteq> None"
proof (induction ms arbitrary: d)
  case (Cons m ms)
  then obtain d1 where d1: "upgrade E m d = Some d1" "upgrades E ms d1 = Some d'"
    by (auto split: bind_splits)
  then have "md_rows d1 \<noteq> None"
    by (auto simp: upgrade_def split: sum.splits option.splits if_splits)
  with Cons.IH [OF d1(2)] show ?case .
qed simp

lemma upgrades_unlocked: "upgrades E ms (unlocked d) = map_option unlocked (upgrades E ms d)"
  by (cases "upgrades E ms d") (simp_all add: unlocked_def upgrades_with_locks)

lemma appliedMigrations_Inr:
  "appliedMigrations E d = Inr applied \<Longrightarrow> applied = recorded d"
  by (auto simp: appliedMigrations_def recorded_def split: option.splits if_splits)

lemma create_if_missing_sel [simp]:
  "md_schema (create_if_missing d) = md_schema d" "md_locks (create_if_missing d) = md_locks d"
  "md_rows (create_if_missing d) = Some (case md_rows d of None \<Rightarrow> [] | Some rows \<Rightarrow> rows)"
  by (simp_all add: create_if_missing_def split: option.split)

lemma recorded_create [simp]: "recorded (create_if_missing d) = recorded d"
  by (simp add: recorded_def)

lemma recorded_locks [simp]: "recorded (d\<lparr>md_locks := l\<rparr>) = recorded d"
  by (simp add: recorded_def)

lemma create_if_missing_locks [simp]:
  "create_if_missing (d\<lparr>md_locks := l\<rparr>) = (create_if_missing d)\<lparr>md_locks := l\<rparr>"
  by (simp add: create_if_missing_def split: option.split)

lemma unlocked_locks [simp]: "unlocked (d\<lparr>md_locks := l\<rparr>) = unlocked d"
  by (simp add: unlocked_def)

lemma unlocked_same [simp]: "md_locks d = 0 \<Longrightarrow> unlocked d = d"
  by (simp add: unlocked_def)

definition locks_left :: "'s mig_env \<Rightarrow> nat" where
  "locks_left E = (if me_fails E AdvisoryLock = None \<and> me_fails E AdvisoryUnlock \<noteq> None then 1 else 0)"

lemma with_lock_cases:
  assumes "with_lock E f d = ((n, err), d')"
    and keep: "\<And>r d1. f (d\<lparr>md_locks := md_locks d + 1\<rparr>) = (r, d1) \<Longrightarrow> md_locks d1 = md_locks d + 1"
  obtains (refused) "n = 0" "err \<noteq> None" "d' = d" "md_locks d' = md_locks d + locks_left E"
    | (run) d1 where "f (d\<lparr>md_locks := md_locks d + 1\<rparr>) = ((n, err), d1)" "unlocked d' = unlocked d1"
      "md_locks d' = md_locks d + locks_left E"
proof (cases "me_fails E AdvisoryLock")
  case (Some e)
  with assms(1) show thesis
    by (intro refused) (auto simp: with_lock_def locks_left_def)
next
  case None
  obtain r d1 where f: "f (d\<lparr>md_locks := md_locks d + 1\<rparr>) = (r, d1)" by (rule prod.exhaust)
  from assms(1) None f have "r = (n, err)"
    "d' = (if me_fails E AdvisoryUnlock = None then d1\<lparr>md_locks := md_locks d1 - 1\<rparr> else d1)"
    by (simp_all add: with_lock_def)
  with f None keep [OF f] show thesis
    by (intro run [of d1]) (simp_all add: locks_left_def)
qed

text \<open>A run that applied a prefix of the pending migrations, all of them if it succeeded.\<close>

definition upgraded_prefix ::
    "'s mig_env \<Rightarrow> (int64 \<rightharpoonup> string) \<Rightarrow> Migration list \<Rightarrow> 's mig_db \<Rightarrow> int \<Rightarrow> go_error option \<Rightarrow> 's mig_db \<Rightarrow> bool"
where
  "upgraded_prefix E applied ms d n err d' \<longleftrightarrow>
     (\<exists>i \<le> length (pending applied ms). upgrades E (take i (pending applied ms)) d = Some d'
        \<and> (err = None \<longrightarrow> i = length (pending applied ms) \<and> n = int i \<and> unedited applied ms)
        \<and> (err \<noteq> None \<longrightarrow> n = int i \<or> me_lost E \<and> n + 1 = int i))"

lemma upgraded_prefix_refused: "upgraded_prefix E applied ms d 0 (Some e) d"
  unfolding upgraded_prefix_def by (intro exI [of _ 0]) simp

lemma upgraded_prefix_loop:
  "up_loop E applied ms 0 d = ((n, err), d') \<Longrightarrow> upgraded_prefix E applied ms d n err d'"
  unfolding upgraded_prefix_def using up_loop_upgrades [of E applied ms 0 d n err d'] by simp

lemma upgraded_prefix_unlocked:
  "upgraded_prefix E applied ms d n err d' \<Longrightarrow> upgraded_prefix E applied ms (unlocked d) n err (unlocked d')"
  unfolding upgraded_prefix_def by (auto simp: upgrades_unlocked)

lemma upgraded_prefix_locks: "upgraded_prefix E applied ms d n err d' \<Longrightarrow> md_locks d' = md_locks d"
  unfolding upgraded_prefix_def using upgrades_locks by blast

lemma up_locked_prefix:
  assumes "up_locked E ms d = ((n, err), d')"
  shows "err \<noteq> None \<and> n = 0 \<and> d' = d \<or> upgraded_prefix E (recorded d) ms (create_if_missing d) n err d'"
proof (cases "me_fails E EnsureTable")
  case (Some e)
  with assms show ?thesis
    by (cases "me_lost E")
      (auto simp: up_locked_def ensureMigrationTable_def upgraded_prefix_refused)
next
  case None
  then have e: "ensureMigrationTable E d = (None, create_if_missing d)"
    by (simp add: ensureMigrationTable_def)
  show ?thesis
  proof (cases "appliedMigrations E (create_if_missing d)")
    case (Inl x)
    with assms e show ?thesis by (auto simp: up_locked_def upgraded_prefix_refused)
  next
    case (Inr applied)
    from appliedMigrations_Inr [OF this] have "applied = recorded d" by simp
    with assms e Inr show ?thesis by (auto simp: up_locked_def intro: upgraded_prefix_loop)
  qed
qed

lemma up_locked_locks: "up_locked E ms d = (r, d') \<Longrightarrow> md_locks d' = md_locks d"
  using up_locked_prefix [of E ms d "fst r" "snd r" d'] by (auto dest: upgraded_prefix_locks)

lemma Up_upgrades:
  assumes run: "Up E entries d = ((n, err), d')" and load: "LoadMigrations E entries = Inr ms"
  shows "md_locks d' = md_locks d + locks_left E
    \<and> (err \<noteq> None \<and> n = 0 \<and> unlocked d' = unlocked d
    \<or> upgraded_prefix E (recorded d) ms (unlocked (create_if_missing d)) n err (unlocked d'))"
proof -
  have keep: "md_locks d1 = md_locks d + 1"
    if "up_locked E ms (d\<lparr>md_locks := md_locks d + 1\<rparr>) = (r, d1)" for r d1
    using up_locked_locks [OF that] by simp
  from run load have "with_lock E (up_locked E ms) d = ((n, err), d')" by (simp add: Up_def)
  then show ?thesis
  proof (rule with_lock_cases [OF _ keep])
    fix d1
    assume 2: "up_locked E ms (d\<lparr>md_locks := md_locks d + 1\<rparr>) = ((n, err), d1)"
      "unlocked d' = unlocked d1" "md_locks d' = md_locks d + locks_left E"
    from up_locked_prefix [OF 2(1)] show ?thesis
    proof (elim disjE)
      assume "upgraded_prefix E (recorded (d\<lparr>md_locks := md_locks d + 1\<rparr>)) ms
          (create_if_missing (d\<lparr>md_locks := md_locks d + 1\<rparr>)) n err d1"
      from upgraded_prefix_unlocked [OF this] 2(2,3) show ?thesis by simp
    qed (use 2(2,3) in simp)
  qed simp_all
qed

section \<open>Running again and back\<close>

lemma upgradeE:
  assumes "upgrade E m d = Some d'"
  obtains schema' rows where "me_run E (mig_Up m) (md_schema d) = Inr schema'" "md_rows d = Some rows"
    "\<forall>r \<in> set rows. mr_version r \<noteq> mig_Version m"
    "d' = d\<lparr>md_schema := schema', md_rows := Some (rows @ [migration_row E m])\<rparr>"
  using assms by (force simp: upgrade_def split: sum.splits option.splits if_splits)

lemma upgrade_recorded:
  assumes "upgrade E m d = Some d'"
  shows "recorded d (mig_Version m) = None \<and> recorded d' = (recorded d)(mig_Version m \<mapsto> mig_Checksum m)"
  using assms
proof (rule upgradeE)
  fix schema' rows
  assume rows: "md_rows d = Some rows" "\<forall>r \<in> set rows. mr_version r \<noteq> mig_Version m"
    and d': "d' = d\<lparr>md_schema := schema', md_rows := Some (rows @ [migration_row E m])\<rparr>"
  from rows have none: "recorded d (mig_Version m) = None"
    by (auto simp: recorded_def map_of_eq_None_iff)
  have "recorded d' = recorded d ++ [mig_Version m \<mapsto> mig_Checksum m] ++ recorded d"
    using rows(1) by (simp add: d' recorded_def migration_row_def fun_eq_iff map_add_def split: option.split)
  also have "\<dots> = (recorded d)(mig_Version m \<mapsto> mig_Checksum m)"
    using none by (auto simp: fun_eq_iff map_add_def split: option.split)
  finally show ?thesis using none by simp
qed

lemma upgrades_recorded:
  "upgrades E ms d = Some d' \<Longrightarrow>
     recorded d \<subseteq>\<^sub>m recorded d' \<and> (\<forall>m \<in> set ms. recorded d' (mig_Version m) = Some (mig_Checksum m))
     \<and> (\<forall>v. v \<notin> mig_Version ` set ms \<longrightarrow> recorded d' v = recorded d v)"
proof (induction ms arbitrary: d)
  case (Cons m ms)
  from Cons.prems obtain d1 where d1: "upgrade E m d = Some d1" "upgrades E ms d1 = Some d'"
    by (auto split: bind_splits)
  from Cons.IH [OF d1(2)] upgrade_recorded [OF d1(1)] show ?case
    by (auto simp: map_le_def dom_def split: if_splits)
qed simp

text \<open>After a run every migration of the list is recorded with its checksum.\<close>

lemma upgrades_known:
  assumes ups: "upgrades E (pending (recorded d) ms) (create_if_missing d) = Some d'"
    and m: "m \<in> set ms" and ue: "unedited (recorded d) ms"
  shows "recorded d' (mig_Version m) = Some (mig_Checksum m)"
proof (cases "recorded d (mig_Version m)")
  case None
  with m upgrades_recorded [OF ups] show ?thesis by (simp add: pending_def)
next
  case (Some c)
  with m ue have "recorded d (mig_Version m) = Some (mig_Checksum m)"
    by (auto simp: unedited_def)
  with upgrades_recorded [OF ups] show ?thesis by (metis domI map_le_def recorded_create)
qed

lemma up_loop_current:
  "pending applied ms = [] \<Longrightarrow> unedited applied ms \<Longrightarrow> up_loop E applied ms n d = ((n, None), d)"
  by (induction ms arbitrary: n) (auto simp: pending_def unedited_def split: if_splits)

definition mig_no_faults :: "'s mig_env \<Rightarrow> bool" where
  "mig_no_faults E \<longleftrightarrow> (\<forall>s. me_fails E s = None)"

lemma locked_no_faults:
  assumes "mig_no_faults E" and "md_rows d = Some rows"
  shows "up_locked E ms d = up_loop E (recorded d) ms 0 d"
    and "down_locked E ms n d = down_loop E (recorded d) n (rev ms) 0 d"
  using assms by (simp_all add: up_locked_def down_locked_def ensureMigrationTable_def
      create_if_missing_def appliedMigrations_def recorded_def mig_no_faults_def)

lemma with_lock_no_faults:
  "mig_no_faults E \<Longrightarrow> f (d\<lparr>md_locks := md_locks d + 1\<rparr>) = (r, d1) \<Longrightarrow>
     with_lock E f d = (r, d1\<lparr>md_locks := md_locks d1 - 1\<rparr>)"
  by (simp add: with_lock_def mig_no_faults_def)

text \<open>A down script that undoes its up script.\<close>

definition undoes :: "'s mig_env \<Rightarrow> Migration \<Rightarrow> bool" where
  "undoes E m \<longleftrightarrow> mig_Down m \<noteq> []
     \<and> (\<forall>s s'. me_run E (mig_Up m) s = Inr s' \<longrightarrow> me_run E (mig_Down m) s' = Inr s)"

lemma applyOne_undo:
  assumes "upgrade E m d = Some d'" and "undoes E m" and "mig_no_faults E"
  shows "applyOne E m False d' = (None, d)"
  using assms(1)
proof (rule upgradeE)
  fix schema' rows
  assume s: "me_run E (mig_Up m) (md_schema d) = Inr schema'" "md_rows d = Some rows"
    and new: "\<forall>r \<in> set rows. mr_version r \<noteq> mig_Version m"
    and d': "d' = d\<lparr>md_schema := schema', md_rows := Some (rows @ [migration_row E m])\<rparr>"
  from new have "filter (\<lambda>r. mr_version r \<noteq> mig_Version m) rows = rows"
    by (simp add: filter_id_conv)
  with s assms(2,3) show ?thesis
    by (simp add: applyOne_def record_migration_def d' undoes_def mig_no_faults_def migration_row_def)
qed

lemma down_loop_stop: "down_loop E applied k ms k d = ((k, None), d)"
  by (cases ms) simp_all

lemma down_loop_undo:
  assumes "upgrades E ps d = Some d'" and "mig_no_faults E"
    and "\<And>m. m \<in> set ps \<Longrightarrow> undoes E m \<and> applied (mig_Version m) \<noteq> None"
  shows "down_loop E applied (k + int (length ps)) (rev ps @ rest) k d'
    = ((k + int (length ps), None), d)"
  using assms(1,3)
proof (induction ps arbitrary: k d' rule: rev_induct)
  case Nil
  then show ?case by (simp add: down_loop_stop)
next
  case (snoc m ps)
  from snoc.prems(1) obtain d1 where d1: "upgrades E ps d = Some d1" "upgrade E m d1 = Some d'"
    by (auto simp: upgrades_append split: bind_splits)
  from snoc.prems(2) have m: "undoes E m" "applied (mig_Version m) \<noteq> None" by simp_all
  have "down_loop E applied (k + 1 + int (length ps)) (rev ps @ rest) (k + 1) d1
      = ((k + 1 + int (length ps), None), d)"
    by (rule snoc.IH [OF d1(1)]) (use snoc.prems(2) in simp)
  with applyOne_undo [OF d1(2) m(1) assms(2)] m show ?case
    by (auto simp: undoes_def algebra_simps)
qed

text \<open>When the pending migrations are the newest, they are the end of the list.\<close>

lemma pending_newest:
  assumes "ascending ms"
    and "\<And>m m'. m \<in> set ms \<Longrightarrow> m' \<in> set ms \<Longrightarrow> applied (mig_Version m) = None \<Longrightarrow>
      applied (mig_Version m') \<noteq> None \<Longrightarrow> sint (mig_Version m') < sint (mig_Version m)"
  shows "\<exists>old. ms = old @ pending applied ms"
  using assms
proof (induction ms)
  case (Cons m ms)
  from Cons.prems(1) have asc: "ascending ms" and less: "\<forall>m' \<in> set ms. sint (mig_Version m) < sint (mig_Version m')"
    by (auto simp: ascending_def)
  have ih: "\<exists>old. ms = old @ pending applied ms"
    by (rule Cons.IH [OF asc]) (use Cons.prems(2) in simp)
  show ?case
  proof (cases "applied (mig_Version m)")
    case None
    have "applied (mig_Version m') = None" if "m' \<in> set ms" for m'
      using Cons.prems(2) [of m m'] None less that by force
    with None show ?thesis by (simp add: pending_def)
  next
    case (Some c)
    with ih show ?thesis by (auto simp: pending_def intro: exI [of _ "m # _"])
  qed
qed (simp add: pending_def)

end
