(* ===== verification/Migrate_Props.thy ===== *)
theory Migrate_Props
  imports Migrate_Facts
begin

text \<open>
  The properties of schema migrations: what a run of \<open>Up\<close> leaves, however it ends, and
  that \<open>Down\<close> takes it back.
\<close>

section \<open>A concrete history\<close>

text \<open>A schema is the list of its objects; a script adds one or drops the last one.\<close>

definition demo_run :: "string \<Rightarrow> string list \<Rightarrow> go_error + string list" where
  "demo_run script schema =
     (if script = ''drop'' then (case rev schema of [] \<Rightarrow> Inl (DriverError ''empty'') | _ # r \<Rightarrow> Inr (rev r))
      else Inr (schema @ [script]))"

definition demo_mig_env :: "string list mig_env" where
  "demo_mig_env = \<lparr>me_fails = (\<lambda>s. None), me_lost = False, me_range = rev, me_run = demo_run,
     me_now = (\<lambda>v. 0)\<rparr>"

definition demo_files :: "dir_entry list" where
  "demo_files =
     [\<lparr>de_Name = ''0001_init.down.sql'', de_IsDir = False, de_Body = ''drop''\<rparr>,
      \<lparr>de_Name = ''0001_init.up.sql'', de_IsDir = False, de_Body = ''a''\<rparr>,
      \<lparr>de_Name = ''0002_more.down.sql'', de_IsDir = False, de_Body = ''drop''\<rparr>,
      \<lparr>de_Name = ''0002_more.up.sql'', de_IsDir = False, de_Body = ''b''\<rparr>]"

definition demo_migrations :: "Migration list" where
  "demo_migrations =
     [\<lparr>mig_Version = 1, mig_Name = ''init'', mig_Up = ''a'', mig_Down = ''drop'',
       mig_Checksum = hex_EncodeToString (Sum256 ''a'')\<rparr>,
      \<lparr>mig_Version = 2, mig_Name = ''more'', mig_Up = ''b'', mig_Down = ''drop'',
       mig_Checksum = hex_EncodeToString (Sum256 ''b'')\<rparr>]"

lemma demo_parse: "parse_signed ''0001'' = Inr 1" "parse_signed ''0002'' = Inr 2"
  by code_simp+

lemma demo_names:
  "HasSuffix ''0001_init.up.sql'' ''.sql''" "HasSuffix ''0002_more.up.sql'' ''.sql''"
  by code_simp+

lemma demo_load: "LoadMigrations demo_mig_env demo_files = Inr demo_migrations"
  by (simp add: LoadMigrations_def demo_files_def demo_mig_env_def demo_migrations_def load_entry_def
      HasSuffix_def TrimSuffix_def path_Ext_def strconv_int_def demo_parse)

lemma demo_env_ok: "range_permutes demo_mig_env" "mig_no_faults demo_mig_env"
  by (simp_all add: range_permutes_def mig_no_faults_def demo_mig_env_def)

definition demo_mig_db :: "string list mig_db" where
  "demo_mig_db = \<lparr>md_schema = [], md_rows = None, md_locks = 0\<rparr>"

definition demo_mig_db2 :: "string list mig_db" where
  "demo_mig_db2 = \<lparr>md_schema = [''a'', ''b''],
     md_rows = Some (map (migration_row demo_mig_env) demo_migrations), md_locks = 0\<rparr>"

lemma demo_up: "Up demo_mig_env demo_files demo_mig_db = ((2, None), demo_mig_db2)"
proof -
  have "me_run demo_mig_env ''a'' [] = Inr [''a'']" "me_run demo_mig_env ''b'' [''a''] = Inr [''a'', ''b'']"
    "me_fails demo_mig_env s = None" for s
    by (simp_all add: demo_mig_env_def demo_run_def)
  then show ?thesis
    by (simp add: Up_def demo_load with_lock_def up_locked_def ensureMigrationTable_def
        appliedMigrations_def create_if_missing_def demo_mig_db_def demo_migrations_def applyOne_def
        record_migration_def demo_mig_db2_def migration_row_def)
qed

section \<open>Up\<close>

text \<open>
  C38. Whatever fails during \<open>Up\<close>, the schema and its bookkeeping stay together: the run
  has applied and recorded a prefix of the pending migrations in strictly ascending order
  of their versions, each once and as a whole. A run without error has applied them all,
  counted them, and found no recorded migration whose text was edited. An error leaves a
  prefix of the counted length, one longer only when a commit was carried out although
  its call failed. The session keeps the advisory lock only when unlocking fails.
\<close>

theorem up_applies_pending:
  assumes "LoadMigrations E entries = Inr ms" and "range_permutes E"
    and "Up E entries d = ((n, err), d')"
  shows "ascending ms
    \<and> (\<forall>m \<in> set ms. mig_Up m \<noteq> [] \<and> mig_Checksum m = hex_EncodeToString (Sum256 (mig_Up m)))
    \<and> md_locks d' = md_locks d + locks_left E
    \<and> (err \<noteq> None \<and> n = 0 \<and> unlocked d' = unlocked d
       \<or> (\<exists>i \<le> length (pending (recorded d) ms).
            upgrades E (take i (pending (recorded d) ms)) (unlocked (create_if_missing d)) = Some (unlocked d')
            \<and> (err = None \<longrightarrow> i = length (pending (recorded d) ms) \<and> n = int i \<and> unedited (recorded d) ms)
            \<and> (err \<noteq> None \<longrightarrow> n = int i \<or> me_lost E \<and> n + 1 = int i)))"
  using LoadMigrations_Inr [OF assms(1,2)] Up_upgrades [OF assms(3,1)]
  unfolding upgraded_prefix_def by blast

theorem up_applies_pending_witness:
  "ascending demo_migrations
   \<and> upgrades demo_mig_env (pending (recorded demo_mig_db) demo_migrations)
       (unlocked (create_if_missing demo_mig_db)) = Some (unlocked demo_mig_db2)"
  using up_applies_pending [OF demo_load demo_env_ok(1) demo_up] by auto



text \<open>
  \<open>Down\<close> looks only at migrations it has files for. When the newest applied version is
  unknown to the program, an older one is rolled back in its place.
\<close>

lemma down_skips_unknown:
  "\<exists>d'. Down demo_mig_env (take 2 demo_files) 1 demo_mig_db2 = ((1, None), d')
     \<and> map_option (map mr_version) (md_rows d') = Some [2]"
proof -
  have load: "LoadMigrations demo_mig_env (take 2 demo_files) = Inr (take 1 demo_migrations)"
    by (simp add: LoadMigrations_def demo_files_def demo_mig_env_def demo_migrations_def load_entry_def
        HasSuffix_def TrimSuffix_def path_Ext_def strconv_int_def demo_parse)
  have "me_run demo_mig_env ''drop'' [''a'', ''b''] = Inr [''a'']" "me_fails demo_mig_env s = None" for s
    by (simp_all add: demo_mig_env_def demo_run_def)
  with load show ?thesis
    by (simp add: Down_def with_lock_def down_locked_def ensureMigrationTable_def
        appliedMigrations_def create_if_missing_def demo_mig_db2_def demo_migrations_def applyOne_def
        record_migration_def migration_row_def)
qed

end
