(* ===== verification/Test_Db.thy ===== *)
theory Test_Db
  imports Migrate
begin

text \<open>
  The database of an integration test: \<open>internal/platform/pgtest/pgtest.go\<close>. A server is a
  map from the names of its schemas to their contents; a test gets a schema of its own,
  which its cleanup drops.
\<close>

section \<open>The server and its calls\<close>

type_synonym 's server = "string \<rightharpoonup> 's mig_db"

datatype test_site =
    AdminConnect | CreateSchema | ParseTestURL | OpenTestPool | AcquireForMigration
  | CleanupConnect | DropSchema

text \<open>
  \<open>te_random\<close> are the bytes of \<open>crypto/rand\<close>; \<open>te_lost\<close>: a statement whose call failed was
  carried out all the same; \<open>te_empty\<close> is a schema without objects.
\<close>

record 's test_env =
  te_Getenv :: "string \<Rightarrow> string"
  te_random :: "go_error + string"
  te_fails :: "test_site \<Rightarrow> go_error option"
  te_lost :: bool
  te_mig :: "'s mig_env"
  te_files :: "dir_entry list"
  te_empty :: 's

text \<open>\<open>t.Skipf\<close>, \<open>t.Fatalf\<close> with its message as an error, or a pool on a schema.\<close>

datatype test_outcome = Skipped | Fatal go_error | TestPool string

definition EnvURL :: string where "EnvURL = ''TEST_DATABASE_URL''"

section \<open>Pool\<close>

definition fresh_schema :: "'s test_env \<Rightarrow> 's mig_db" where
  "fresh_schema E = \<lparr>md_schema = te_empty E, md_rows = None, md_locks = 0\<rparr>"

text \<open>\<open>CREATE SCHEMA\<close> refuses a name that is taken; \<open>DROP SCHEMA\<close> one that is not.\<close>

definition create_schema :: "'s test_env \<Rightarrow> string \<Rightarrow> 's server \<Rightarrow> go_error option \<times> 's server" where
  "create_schema E schema S =
     (if schema \<in> dom S then (Some (case te_fails E CreateSchema of Some err \<Rightarrow> err | None \<Rightarrow> PgError ''42P06'' []), S)
      else case te_fails E CreateSchema of
        Some err \<Rightarrow> (Some err, if te_lost E then S(schema \<mapsto> fresh_schema E) else S)
      | None \<Rightarrow> (None, S(schema \<mapsto> fresh_schema E)))"

definition drop_schema :: "'s test_env \<Rightarrow> string \<Rightarrow> 's server \<Rightarrow> 's server" where
  "drop_schema E schema S =
     (if te_fails E DropSchema = None \<or> te_lost E then S(schema := None) else S)"

definition randomSuffix :: "'s test_env \<Rightarrow> go_error + string" where
  "randomSuffix E =
     (case te_random E of
        Inl err \<Rightarrow> Inl (wrap ''generate schema suffix: '' err)
      | Inr b \<Rightarrow> Inr (hex_EncodeToString b))"

text \<open>\<open>migrate\<close>: the connection's search path is the schema; without it nothing is created.\<close>

definition test_migrate :: "'s test_env \<Rightarrow> string \<Rightarrow> 's server \<Rightarrow> go_error option \<times> 's server" where
  "test_migrate E schema S =
     (case te_fails E AcquireForMigration of
        Some err \<Rightarrow> (Some (wrap ''acquire connection for migration: '' err), S)
      | None \<Rightarrow>
          (case S schema of
             None \<Rightarrow> (Some (wrap ''migrate up: '' (PgError ''3F000'' [])), S)
           | Some d \<Rightarrow>
               (case Up (te_mig E) (te_files E) d of
                  ((_, Some err), d') \<Rightarrow> (Some (wrap ''migrate up: '' err), S(schema \<mapsto> d'))
                | ((_, None), d') \<Rightarrow> (None, S(schema \<mapsto> d')))))"

text \<open>The second component is the schema for which a cleanup is registered.\<close>

definition test_Pool :: "'s test_env \<Rightarrow> 's server \<Rightarrow> (test_outcome \<times> string option) \<times> 's server" where
  "test_Pool E S =
     (if te_Getenv E EnvURL = [] then ((Skipped, None), S)
      else case randomSuffix E of
        Inl err \<Rightarrow> ((Fatal err, None), S)
      | Inr suffix \<Rightarrow>
     (let schema = ''test_'' @ suffix in
      case te_fails E AdminConnect of
        Some err \<Rightarrow> ((Fatal (wrap (''connect to '' @ EnvURL @ '': '') err), None), S)
      | None \<Rightarrow>
     (case create_schema E schema S of
        (Some err, S1) \<Rightarrow> ((Fatal (wrap (''create schema '' @ schema @ '': '') err), None), S1)
      | (None, S1) \<Rightarrow>
     (case te_fails E ParseTestURL of
        Some err \<Rightarrow> ((Fatal (wrap (''parse '' @ EnvURL @ '': '') err), None), S1)
      | None \<Rightarrow>
     (case te_fails E OpenTestPool of
        Some err \<Rightarrow> ((Fatal (wrap ''open pool: '' err), None), S1)
      | None \<Rightarrow>
     (case test_migrate E schema S1 of
        (Some err, S2) \<Rightarrow> ((Fatal err, Some schema), S2)
      | (None, S2) \<Rightarrow> ((TestPool schema, Some schema), S2)))))))"

definition test_cleanup :: "'s test_env \<Rightarrow> string \<Rightarrow> 's server \<Rightarrow> 's server" where
  "test_cleanup E schema S =
     (case te_fails E CleanupConnect of Some err \<Rightarrow> S | None \<Rightarrow> drop_schema E schema S)"

text \<open>A whole test: its body runs on the pool it got, then the cleanups run.\<close>

definition run_test :: "'s test_env \<Rightarrow> ('s mig_db \<Rightarrow> 's mig_db) \<Rightarrow> 's server \<Rightarrow> 's server" where
  "run_test E body S =
     (case test_Pool E S of
        ((TestPool schema, Some c), S1) \<Rightarrow> test_cleanup E c (S1(schema := map_option body (S1 schema)))
      | ((_, Some c), S1) \<Rightarrow> test_cleanup E c S1
      | ((_, None), S1) \<Rightarrow> S1)"

section \<open>What a test sees and leaves\<close>

text \<open>The test gets a schema nobody had, fully migrated, and no other schema changes.\<close>

lemma create_schema_None:
  "create_schema E schema S = (None, S1) \<longleftrightarrow>
     S schema = None \<and> te_fails E CreateSchema = None \<and> S1 = S(schema \<mapsto> fresh_schema E)"
  by (auto simp: create_schema_def split: option.splits if_splits)

lemma test_migrate_other: "test_migrate E schema S = (r, S') \<Longrightarrow> s \<noteq> schema \<Longrightarrow> S' s = S s"
  by (auto simp: test_migrate_def split: option.splits prod.splits)

lemma create_schema_other: "create_schema E schema S = (r, S') \<Longrightarrow> s \<noteq> schema \<Longrightarrow> S' s = S s"
  by (auto simp: create_schema_def split: option.splits if_splits)

lemma test_Pool_other:
  assumes "test_Pool E S = (r, S')" and "\<And>suffix. randomSuffix E = Inr suffix \<Longrightarrow> s \<noteq> ''test_'' @ suffix"
  shows "S' s = S s"
  using assms unfolding test_Pool_def Let_def
  by (auto dest!: test_migrate_other create_schema_other split: if_splits sum.splits option.splits prod.splits)

lemma test_Pool_ready:
  assumes "test_Pool E S = ((TestPool schema, c), S')"
  obtains k d where "S schema = None" "c = Some schema"
    "Up (te_mig E) (te_files E) (fresh_schema E) = ((k, None), d)" "S' = S(schema \<mapsto> d)"
  using assms unfolding test_Pool_def Let_def
  by (auto simp: test_migrate_def create_schema_None split: if_splits sum.splits option.splits prod.splits)

lemma run_test_other:
  assumes "\<And>suffix. randomSuffix E = Inr suffix \<Longrightarrow> s \<noteq> ''test_'' @ suffix"
  shows "run_test E body S s = S s"
proof -
  obtain out c S1 where pool: "test_Pool E S = ((out, c), S1)" by (metis prod.exhaust)
  from test_Pool_other [OF pool assms] have same: "S1 s = S s" .
  have "x \<noteq> s" if "c = Some x \<or> out = TestPool x" for x
    using pool that assms unfolding test_Pool_def Let_def
    by (auto split: if_splits sum.splits option.splits prod.splits)
  with same pool show ?thesis
    by (auto simp: run_test_def test_cleanup_def drop_schema_def split: test_outcome.splits option.splits)
qed

text \<open>
  The schema is dropped when the test ends, whatever the body and the migrations did,
  unless the cleanup cannot reach the server. But a failure between the creation of the
  schema and the registration of the cleanup leaves it behind.
\<close>

lemma run_test_restores:
  assumes "te_fails E CreateSchema = None" and "te_fails E ParseTestURL = None"
    and "te_fails E OpenTestPool = None" and "te_fails E CleanupConnect = None"
    and "te_fails E DropSchema = None"
  shows "run_test E body S = S"
proof -
  have drop: "test_cleanup E x S' = S'(x := None)" for x S'
    using assms by (simp add: test_cleanup_def drop_schema_def)
  have "S'(x := None) = S" if "S x = None" "\<And>s. s \<noteq> x \<Longrightarrow> S' s = S s" for x S'
    using that by (intro ext) simp
  moreover have "S1(x := None) = S"
    if "S x = None" "test_migrate E x (S(x \<mapsto> fresh_schema E)) = (r, S1)" for x r S1
    using that(1) test_migrate_other [OF that(2)] by (intro ext) auto
  ultimately show ?thesis
    using assms unfolding run_test_def test_Pool_def Let_def
    by (auto simp: drop create_schema_def split: if_splits sum.splits option.splits prod.splits)
qed

lemma run_test_leaks:
  assumes "te_Getenv E EnvURL \<noteq> []" and "randomSuffix E = Inr suffix" and "S (''test_'' @ suffix) = None"
    and "te_fails E AdminConnect = None" and "te_fails E CreateSchema = None"
    and "te_fails E ParseTestURL \<noteq> None \<or> te_fails E OpenTestPool \<noteq> None"
  shows "run_test E body S = S(''test_'' @ suffix \<mapsto> fresh_schema E)"
  using assms by (cases "te_fails E ParseTestURL") (auto simp: run_test_def test_Pool_def create_schema_def Let_def dom_def)

end
