(* ===== verification/Config.thy ===== *)
theory Config
  imports Errors
begin

text \<open>
  Process configuration: \<open>internal/config/config.go\<close>. The environment is what
  \<open>os.Getenv\<close> returns, the empty string for an unset variable. Durations are nanoseconds;
  \<open>time.ParseDuration\<close>, which rounds fractions with floating-point arithmetic, is the
  parameter \<open>parse\<close>.
\<close>

record Config =
  cfg_DatabaseURL :: string
  cfg_HTTPAddr :: string
  cfg_LogLevel :: string
  cfg_ShutdownTimeout :: int

definition envOr :: "(string \<Rightarrow> string) \<Rightarrow> string \<Rightarrow> string \<Rightarrow> string" where
  "envOr getenv k fallback = (let v = getenv k in if v \<noteq> [] then v else fallback)"

definition Config_Load ::
    "(string \<Rightarrow> go_error + int) \<Rightarrow> (string \<Rightarrow> string) \<Rightarrow> go_error + Config" where
  "Config_Load parse getenv =
     (let c = \<lparr>cfg_DatabaseURL = getenv ''DATABASE_URL'',
               cfg_HTTPAddr = envOr getenv ''HTTP_ADDR'' '':8080'',
               cfg_LogLevel = envOr getenv ''LOG_LEVEL'' ''info'',
               cfg_ShutdownTimeout = 15 * 10 ^ 9\<rparr>;
          v = getenv ''SHUTDOWN_TIMEOUT'' in
      case (if v = [] then Inr c
            else case parse v of
              Inl err \<Rightarrow> Inl (wrap ''SHUTDOWN_TIMEOUT: '' err)
            | Inr d \<Rightarrow> Inr (c\<lparr>cfg_ShutdownTimeout := d\<rparr>)) of
        Inl err \<Rightarrow> Inl err
      | Inr c \<Rightarrow>
          if cfg_DatabaseURL c = [] then Inl (NewError [Str ''DATABASE_URL is required'']) else Inr c)"

text \<open>A configuration that loads has an address, a level and a database.\<close>

lemma Config_Load_Inr:
  assumes "Config_Load parse getenv = Inr c"
  shows "cfg_DatabaseURL c = getenv ''DATABASE_URL'' \<and> cfg_DatabaseURL c \<noteq> []
    \<and> cfg_HTTPAddr c \<noteq> [] \<and> cfg_LogLevel c \<noteq> []
    \<and> (if getenv ''SHUTDOWN_TIMEOUT'' = [] then cfg_ShutdownTimeout c = 15000000000
       else parse (getenv ''SHUTDOWN_TIMEOUT'') = Inr (cfg_ShutdownTimeout c))"
  using assms by (auto simp: Config_Load_def envOr_def Let_def split: if_splits sum.splits)

text \<open>It loads exactly when a database is named and the timeout, if set, is a duration.\<close>

lemma Config_Load_total:
  "(\<exists>c. Config_Load parse getenv = Inr c) \<longleftrightarrow>
     getenv ''DATABASE_URL'' \<noteq> []
     \<and> (getenv ''SHUTDOWN_TIMEOUT'' \<noteq> [] \<longrightarrow> (\<exists>d. parse (getenv ''SHUTDOWN_TIMEOUT'') = Inr d))"
  by (auto simp: Config_Load_def Let_def split: sum.split)

end
