(* ===== verification/Process.thy ===== *)
theory Process
  imports Api Config Strconv
begin

text \<open>
  The processes: \<open>internal/storage/postgres/db.go\<close>, \<open>cmd/api/main.go\<close> and
  \<open>cmd/relay/main.go\<close>, with the request log of \<open>internal/httpapi/router.go\<close>. Start-up is a function of the environment; the running API is a
  machine whose steps are those of its goroutines: requests, the relay and the main one,
  which waits, shuts down and closes the pool.
\<close>

section \<open>The connection pool\<close>

text \<open>Durations are in nanoseconds; the other settings of pgxpool come from the URL.\<close>

definition Seconds :: "int \<Rightarrow> int" where "Seconds n = n * 10 ^ 9"

record pool_config =
  pc_URL :: string
  pc_MaxConns :: int
  pc_MaxConnLifetime :: int
  pc_MaxConnIdleTime :: int
  pc_ConnectTimeout :: int

text \<open>What pgxpool answers to the three calls of \<open>NewPool\<close>.\<close>

record pgxpool =
  pgx_ParseConfig :: "string \<Rightarrow> go_error + pool_config"
  pgx_NewWithConfig :: "pool_config \<Rightarrow> go_error option"
  pgx_Ping :: "go_error option"

text \<open>The second component is the number of pools that are left open.\<close>

definition NewPool :: "pgxpool \<Rightarrow> string \<Rightarrow> (go_error + pool_config) \<times> nat" where
  "NewPool P databaseURL =
     (case pgx_ParseConfig P databaseURL of
        Inl err \<Rightarrow> (Inl (wrap ''parse database url: '' err), 0)
      | Inr parsed \<Rightarrow>
          let cfg = parsed\<lparr>pc_MaxConns := 10, pc_MaxConnLifetime := Seconds 3600,
            pc_MaxConnIdleTime := Seconds 300, pc_ConnectTimeout := Seconds 5\<rparr> in
          (case pgx_NewWithConfig P cfg of
             Some err \<Rightarrow> (Inl (wrap ''create pool: '' err), 0)
           | None \<Rightarrow>
               (case pgx_Ping P of
                  Some err \<Rightarrow> (Inl (wrap ''ping database: '' err), 0)
                | None \<Rightarrow> (Inr cfg, 1))))"

lemma NewPool_open: "snd (NewPool P url) = (if isl (fst (NewPool P url)) then 0 else 1)"
  by (simp add: NewPool_def Let_def split: sum.split option.split)

section \<open>Logging\<close>

text \<open>
  \<open>slog.Level.UnmarshalText\<close>: a name in any case and an optional offset. Of the runes
  outside ASCII only U+0131 and U+017F have an ASCII upper case.
\<close>

definition upper_rune :: "nat \<Rightarrow> nat" where
  "upper_rune r = (if 97 \<le> r \<and> r \<le> 122 then r - 32 else if r = 305 then 73 else if r = 383 then 83 else r)"

definition upper_name :: "string \<Rightarrow> nat list" where
  "upper_name s = map upper_rune (runes (map byte s))"

definition level_names :: "(string \<times> int64) list" where
  "level_names = [(''DEBUG'', -4), (''INFO'', 0), (''WARN'', 4), (''ERROR'', 8)]"

definition UnmarshalText :: "string \<Rightarrow> int64 option" where
  "UnmarshalText s =
     (let nam = takeWhile (\<lambda>c. c \<noteq> CHR ''+'' \<and> c \<noteq> CHR ''-'') s;
          rest = drop (length nam) s in
      case (if rest = [] then Inr 0 else strconv_int ''Atoi'' rest) of
        Inl err \<Rightarrow> None
      | Inr offset \<Rightarrow>
          (case find (\<lambda>l. map byte (fst l) = upper_name nam) level_names of
             None \<Rightarrow> None
           | Some (_, l) \<Rightarrow> Some (l + offset)))"

definition LevelInfo :: int64 where "LevelInfo = 0"

text \<open>The level of the default logger.\<close>

definition setupLogging :: "string \<Rightarrow> int64" where
  "setupLogging level = (case UnmarshalText level of None \<Rightarrow> LevelInfo | Some l \<Rightarrow> l)"

section \<open>Starting the API\<close>

definition RequestTimeout :: int where "RequestTimeout = Seconds 30"

record http_Server =
  hs_Addr :: string
  hs_ReadHeaderTimeout :: int
  hs_ReadTimeout :: int
  hs_WriteTimeout :: int
  hs_IdleTimeout :: int

record api_setup =
  as_LogLevel :: int64
  as_Pool :: pool_config
  as_Relay :: RelayConfig
  as_Server :: http_Server
  as_ShutdownTimeout :: int

text \<open>\<open>duration\<close> is \<open>time.ParseDuration\<close>.\<close>

definition api_start ::
    "(string \<Rightarrow> go_error + int) \<Rightarrow> (string \<Rightarrow> string) \<Rightarrow> pgxpool \<Rightarrow> go_error + api_setup" where
  "api_start duration getenv P =
     (case Config_Load duration getenv of
        Inl err \<Rightarrow> Inl err
      | Inr cfg \<Rightarrow>
          (case fst (NewPool P (cfg_DatabaseURL cfg)) of
             Inl err \<Rightarrow> Inl err
           | Inr pool \<Rightarrow> Inr
               \<lparr>as_LogLevel = setupLogging (cfg_LogLevel cfg), as_Pool = pool,
                as_Relay = NewRelay \<lparr>opt_Interval = 0, opt_BatchSize = 0\<rparr>,
                as_Server = \<lparr>hs_Addr = cfg_HTTPAddr cfg, hs_ReadHeaderTimeout = Seconds 5,
                  hs_ReadTimeout = Seconds 15, hs_WriteTimeout = RequestTimeout + Seconds 5,
                  hs_IdleTimeout = Seconds 60\<rparr>,
                as_ShutdownTimeout = cfg_ShutdownTimeout cfg\<rparr>))"

section \<open>The running API\<close>

text \<open>
  Where the main goroutine is: in the first \<open>select\<close>, in \<open>srv.Shutdown\<close>, in the second
  \<open>select\<close>, in the deferred \<open>pool.Close\<close> with the error \<open>run\<close> returns, or done.
\<close>

datatype main_at =
    Selecting | InShutdown | AwaitingRelay | ClosingPool "go_error option" | Returned "go_error option"

datatype relay_at = Polling | InBatch | Stopped

text \<open>
  \<open>ap_in_flight\<close> counts the requests whose handler has not returned, \<open>ap_busy\<close> those of them
  that hold a connection of the pool. \<open>ap_ctx_done\<close>: the context of the signals is
  cancelled; \<open>ap_deadline\<close>: the context of the shutdown has expired.
\<close>

record api_proc =
  ap_main :: main_at
  ap_relay :: relay_at
  ap_serving :: bool
  ap_errCh :: "go_error option"
  ap_in_flight :: nat
  ap_busy :: nat
  ap_ctx_done :: bool
  ap_deadline :: bool

definition api_proc_start :: api_proc where
  "api_proc_start = \<lparr>ap_main = Selecting, ap_relay = Polling, ap_serving = True, ap_errCh = None,
     ap_in_flight = 0, ap_busy = 0, ap_ctx_done = False, ap_deadline = False\<rparr>"

fun pool_accepts :: "main_at \<Rightarrow> bool" where
  "pool_accepts (ClosingPool _) = False"
| "pool_accepts (Returned _) = False"
| "pool_accepts _ = True"

text \<open>
  Connections stay open when the listener fails or the shutdown is late, and a request may
  still come on one that is idle when \<open>Shutdown\<close> begins.
\<close>

fun takes_requests :: "main_at \<Rightarrow> bool" where
  "takes_requests AwaitingRelay = False"
| "takes_requests (ClosingPool None) = False"
| "takes_requests (Returned _) = False"
| "takes_requests _ = True"

fun process_runs :: "main_at \<Rightarrow> bool" where
  "process_runs (Returned _) = False"
| "process_runs _ = True"

text \<open>
  The steps of the other goroutines. A connection is acquired only from a pool that is not
  being closed, and by the relay only under a live context. \<open>ListenAndServe\<close> that fails
  reports its error; one that \<open>Shutdown\<close> ended does not.
\<close>

inductive side_step :: "api_proc \<Rightarrow> api_proc \<Rightarrow> bool" where
  signal: "side_step a (a\<lparr>ap_ctx_done := True\<rparr>)"
| accept: "takes_requests (ap_main a) \<Longrightarrow> side_step a (a\<lparr>ap_in_flight := ap_in_flight a + 1\<rparr>)"
| listen_error: "ap_serving a \<Longrightarrow> side_step a (a\<lparr>ap_serving := False, ap_errCh := Some e\<rparr>)"
| acquire: "pool_accepts (ap_main a) \<Longrightarrow> ap_busy a < ap_in_flight a \<Longrightarrow>
    side_step a (a\<lparr>ap_busy := ap_busy a + 1\<rparr>)"
| release: "0 < ap_busy a \<Longrightarrow> side_step a (a\<lparr>ap_busy := ap_busy a - 1\<rparr>)"
| respond: "ap_busy a < ap_in_flight a \<Longrightarrow> side_step a (a\<lparr>ap_in_flight := ap_in_flight a - 1\<rparr>)"
| relay_begin: "ap_relay a = Polling \<Longrightarrow> pool_accepts (ap_main a) \<Longrightarrow> \<not> ap_ctx_done a \<Longrightarrow>
    side_step a (a\<lparr>ap_relay := InBatch\<rparr>)"
| relay_end: "ap_relay a = InBatch \<Longrightarrow> side_step a (a\<lparr>ap_relay := Polling\<rparr>)"
| relay_stop: "ap_relay a = Polling \<Longrightarrow> ap_ctx_done a \<Longrightarrow> side_step a (a\<lparr>ap_relay := Stopped\<rparr>)"
| expire: "ap_main a \<in> {InShutdown, AwaitingRelay} \<Longrightarrow> side_step a (a\<lparr>ap_deadline := True\<rparr>)"

text \<open>
  The steps of the main goroutine. \<open>Shutdown\<close> returns \<open>nil\<close> when no request is in flight and
  the error of its context when that expires; \<open>pool.Close\<close> returns when every connection
  is back. A \<open>select\<close> with several branches ready takes any of them.
\<close>

inductive main_step :: "api_proc \<Rightarrow> api_proc \<Rightarrow> bool" where
  failed: "ap_main a = Selecting \<Longrightarrow> ap_errCh a = Some e \<Longrightarrow>
    main_step a (a\<lparr>ap_main := ClosingPool (Some e)\<rparr>)"
| interrupted: "ap_main a = Selecting \<Longrightarrow> ap_ctx_done a \<Longrightarrow>
    main_step a (a\<lparr>ap_main := InShutdown, ap_serving := False\<rparr>)"
| drained: "ap_main a = InShutdown \<Longrightarrow> ap_in_flight a = 0 \<Longrightarrow>
    main_step a (a\<lparr>ap_main := AwaitingRelay\<rparr>)"
| late: "ap_main a = InShutdown \<Longrightarrow> ap_deadline a \<Longrightarrow>
    main_step a (a\<lparr>ap_main := ClosingPool (Some (Sentinel DeadlineExceeded))\<rparr>)"
| relay_done: "ap_main a = AwaitingRelay \<Longrightarrow> ap_relay a = Stopped \<or> ap_deadline a \<Longrightarrow>
    main_step a (a\<lparr>ap_main := ClosingPool None\<rparr>)"
| closed: "ap_main a = ClosingPool r \<Longrightarrow> ap_busy a = 0 \<Longrightarrow> ap_relay a \<noteq> InBatch \<Longrightarrow>
    main_step a (a\<lparr>ap_main := Returned r\<rparr>)"

text \<open>
  The process with the database: a request changes it while its handler holds a connection,
  the relay while it is in a batch.
\<close>

inductive proc_step ::
    "'p publisher \<Rightarrow> api_proc \<times> db \<times> 'p \<Rightarrow> api_proc \<times> db \<times> 'p \<Rightarrow> bool" for publish where
  side: "process_runs (ap_main a) \<Longrightarrow> side_step a a' \<Longrightarrow> proc_step publish (a, s) (a', s)"
| main: "main_step a a' \<Longrightarrow> proc_step publish (a, s) (a', s)"
| request: "process_runs (ap_main a) \<Longrightarrow> 0 < ap_busy a \<Longrightarrow>
    handle E H mux publish ping r s = (rsp, s') \<Longrightarrow> proc_step publish (a, s) (a, s')"
| batch: "process_runs (ap_main a) \<Longrightarrow> ap_relay a = InBatch \<Longrightarrow> scans_all E \<Longrightarrow>
    DispatchBatch E limit publish p d = (r, p', d') \<Longrightarrow> proc_step publish (a, d, p) (a, d', p')"

inductive proc_reachable ::
    "'p publisher \<Rightarrow> db \<times> 'p \<Rightarrow> api_proc \<times> db \<times> 'p \<Rightarrow> bool" for publish s0 where
  start: "proc_reachable publish s0 (api_proc_start, s0)"
| step: "proc_reachable publish s0 c \<Longrightarrow> proc_step publish c c' \<Longrightarrow> proc_reachable publish s0 c'"

text \<open>\<open>main\<close> of both commands.\<close>

definition exit_code :: "go_error option \<Rightarrow> int" where
  "exit_code err = (case err of None \<Rightarrow> 0 | Some _ \<Rightarrow> 1)"

section \<open>The request log\<close>

text \<open>
  \<open>requestLogger\<close> of \<open>internal/httpapi/router.go\<close>: the line it emits about what the wrapped
  handler did. The duration and the id of the request come from outside.
\<close>

record request_log =
  rlg_Method :: string
  rlg_Path :: string
  rlg_Status :: int
  rlg_Bytes :: nat
  rlg_DurationMs :: int
  rlg_RequestID :: string

definition requestLogger ::
    "(Request \<Rightarrow> 's \<Rightarrow> Response \<times> 's) \<Rightarrow> int \<Rightarrow> string \<Rightarrow> Request \<Rightarrow> 's \<Rightarrow> (Response \<times> request_log) \<times> 's" where
  "requestLogger handler duration reqID r s =
     (case handler r s of
        (rsp, s') \<Rightarrow>
          ((rsp, \<lparr>rlg_Method = req_Method r, rlg_Path = req_Path r, rlg_Status = rsp_Status rsp,
             rlg_Bytes = length (rsp_Body rsp), rlg_DurationMs = duration, rlg_RequestID = reqID\<rparr>), s'))"

section \<open>The relay command\<close>

text \<open>
  \<open>D\<close> is the dispatcher of the store, \<open>ws\<close> what its \<open>select\<close> receives; \<open>None\<close> is a run that
  never returns.
\<close>

definition relay_run ::
    "(string \<Rightarrow> go_error + int) \<Rightarrow> (string \<Rightarrow> string) \<Rightarrow> pgxpool \<Rightarrow> 's dispatcher \<Rightarrow> wakeup list \<Rightarrow> 's
       \<Rightarrow> (go_error option \<times> 's) option" where
  "relay_run duration getenv P D ws s =
     (case Config_Load duration getenv of
        Inl err \<Rightarrow> Some (Some err, s)
      | Inr cfg \<Rightarrow>
          (case fst (NewPool P (cfg_DatabaseURL cfg)) of
             Inl err \<Rightarrow> Some (Some err, s)
           | Inr pool \<Rightarrow>
               (case Run D (sint (rl_batchSize (NewRelay \<lparr>opt_Interval = 0, opt_BatchSize = 0\<rparr>))) ws 0 s of
                  None \<Rightarrow> None
                | Some (es, s') \<Rightarrow> Some (None, s'))))"

definition relay_main ::
    "(string \<Rightarrow> go_error + int) \<Rightarrow> (string \<Rightarrow> string) \<Rightarrow> pgxpool \<Rightarrow> 's dispatcher \<Rightarrow> wakeup list \<Rightarrow> 's
       \<Rightarrow> (int \<times> 's) option" where
  "relay_main duration getenv P D ws s =
     map_option (apfst exit_code) (relay_run duration getenv P D ws s)"

end
