(* ===== verification/Process_Props.thy ===== *)
theory Process_Props
  imports Process Api_Demo
begin

text \<open>
  Start-up and shutdown: what a process that started has checked, and what is true when
  it exits.
\<close>

section \<open>Start-up\<close>

text \<open>
  The write timeout leaves a handler that times out five seconds for its answer, and the
  relay runs with its defaults.
\<close>

lemma api_start_Inr:
  assumes "api_start duration getenv P = Inr st"
  shows "getenv ''DATABASE_URL'' \<noteq> [] \<and> pgx_Ping P = None \<and> pc_MaxConns (as_Pool st) = 10
    \<and> hs_Addr (as_Server st) \<noteq> [] \<and> RequestTimeout < hs_WriteTimeout (as_Server st)
    \<and> rl_batchSize (as_Relay st) = DefaultBatchSize \<and> rl_interval (as_Relay st) = DefaultInterval"
proof -
  from assms obtain cfg pool where cfg: "Config_Load duration getenv = Inr cfg"
    and pool: "fst (NewPool P (cfg_DatabaseURL cfg)) = Inr pool"
    and st: "as_Pool st = pool" "hs_Addr (as_Server st) = cfg_HTTPAddr cfg"
      "hs_WriteTimeout (as_Server st) = RequestTimeout + Seconds 5"
      "as_Relay st = NewRelay \<lparr>opt_Interval = 0, opt_BatchSize = 0\<rparr>"
    by (auto simp: api_start_def split: sum.splits)
  from pool have "pgx_Ping P = None" "pc_MaxConns pool = 10"
    by (auto simp: NewPool_def Let_def split: sum.splits option.splits)
  with Config_Load_Inr [OF cfg] st show ?thesis
    by (auto simp: Seconds_def NewRelay_def)
qed

text \<open>
  The relay command returns for every sequence of ticks; when it starts, without an error.
\<close>

lemma relay_run_ends:
  assumes "outbox_inv d" and "within_second Es T"
  shows "\<exists>res s'. relay_run duration getenv P (store_dispatcher Es publish) ws (d, p) = Some (res, s')
    \<and> (res = None \<longleftrightarrow> (\<exists>st. api_start duration getenv P = Inr st))"
proof -
  let ?R = "NewRelay \<lparr>opt_Interval = 0, opt_BatchSize = 0\<rparr>"
  have "0 < sint (rl_batchSize ?R)" by (simp add: NewRelay_def DefaultBatchSize_def)
  from relay.Run_returns [of "(d, p)" Es T, OF _ this] assms
  obtain es s' where "Run (store_dispatcher Es publish) (sint (rl_batchSize ?R)) ws 0 (d, p) = Some (es, s')"
    by fastforce
  then show ?thesis
    by (auto simp: relay_run_def api_start_def split: sum.split)
qed

text \<open>
  A level that cannot be read is not refused at start-up: it becomes \<open>info\<close>, and so does one
  with an offset too large.
\<close>

lemma unreadable_level: "UnmarshalText level = None \<Longrightarrow> setupLogging level = LevelInfo"
  by (simp add: setupLogging_def)

lemma level_examples:
  "setupLogging ''verbose'' = 0" "setupLogging ''warn'' = 4" "setupLogging ''Error-4'' = 4"
  "UnmarshalText ''verbose'' = None"
  by code_simp+

section \<open>The invariant of the process\<close>

definition proc_inv :: "api_proc \<Rightarrow> bool" where
  "proc_inv a \<longleftrightarrow>
     ap_busy a \<le> ap_in_flight a
     \<and> (ap_serving a \<longrightarrow> ap_main a = Selecting)
     \<and> (ap_relay a = Stopped \<longrightarrow> ap_ctx_done a)
     \<and> (case ap_main a of
          Selecting \<Rightarrow> True
        | InShutdown \<Rightarrow> ap_ctx_done a
        | AwaitingRelay \<Rightarrow> ap_ctx_done a \<and> ap_in_flight a = 0
        | ClosingPool None \<Rightarrow> ap_ctx_done a \<and> ap_in_flight a = 0 \<and> (ap_relay a = Stopped \<or> ap_deadline a)
        | ClosingPool (Some e) \<Rightarrow> ap_errCh a = Some e \<or> e = Sentinel DeadlineExceeded \<and> ap_ctx_done a \<and> ap_deadline a
        | Returned r \<Rightarrow> ap_busy a = 0 \<and> ap_relay a \<noteq> InBatch
            \<and> (case r of
                 None \<Rightarrow> ap_ctx_done a \<and> ap_in_flight a = 0 \<and> (ap_relay a = Stopped \<or> ap_deadline a)
               | Some e \<Rightarrow> ap_errCh a = Some e \<or> e = Sentinel DeadlineExceeded \<and> ap_ctx_done a \<and> ap_deadline a))
     \<and> (ap_errCh a \<noteq> None \<longrightarrow> \<not> ap_serving a)"

lemma proc_inv_start: "proc_inv api_proc_start"
  by (simp add: proc_inv_def api_proc_start_def)

lemma side_step_inv:
  assumes "side_step a a'" and "process_runs (ap_main a)" and "proc_inv a"
  shows "proc_inv a'"
  using assms
  by cases (auto simp: proc_inv_def split: main_at.splits option.splits)

lemma main_step_inv:
  assumes "main_step a a'" and "proc_inv a"
  shows "proc_inv a'"
  using assms
  by cases (auto simp: proc_inv_def split: main_at.splits option.splits)

lemma side_step_main: "side_step a a' \<Longrightarrow> ap_main a' = ap_main a"
  by (cases rule: side_step.cases) auto

lemma main_step_runs: "main_step a a' \<Longrightarrow> process_runs (ap_main a)"
  by (cases rule: main_step.cases) auto

lemma proc_reachable_inv:
  assumes "proc_reachable publish s0 c" and "api_reachable publish p0 s0"
  shows "proc_inv (fst c) \<and> api_reachable publish p0 (snd c)"
  using assms(1)
proof induction
  case start
  then show ?case using assms(2) by (simp add: proc_inv_start)
next
  case (step c c')
  from step.hyps(2) show ?case
  proof cases
    case (side a a' s)
    with step.IH show ?thesis by (auto intro: side_step_inv)
  next
    case (main a a' s)
    with step.IH show ?thesis by (auto intro: main_step_inv)
  next
    case (request a E H mux ping r s rsp s')
    with step.IH show ?thesis
      by (auto intro: api_reachable.step [OF _ api_step.request])
  next
    case (batch a E limit p d r p' d')
    with step.IH show ?thesis
      by (auto intro: api_reachable.step [OF _ api_step.relay])
  qed
qed

lemma returned_stuck:
  assumes "ap_main (fst c) = Returned r"
  shows "\<not> proc_step publish c c'"
proof
  assume "proc_step publish c c'"
  then show False using assms by cases (auto dest: main_step_runs)
qed

section \<open>A signal can always be followed\<close>

text \<open>The requests under way end, and so does the batch of the relay.\<close>

lemma release_all: "side_step\<^sup>*\<^sup>* a (a\<lparr>ap_busy := 0\<rparr>)"
proof (induction "ap_busy a" arbitrary: a)
  case (Suc n)
  then have "side_step a (a\<lparr>ap_busy := n\<rparr>)" using side_step.release [of a] by (simp flip: Suc(2))
  with Suc(1) [of "a\<lparr>ap_busy := n\<rparr>"] show ?case by (simp add: converse_rtranclp_into_rtranclp)
next
  case 0
  then have "a\<lparr>ap_busy := 0\<rparr> = a" by (cases a) simp
  then show ?case by simp
qed

lemma respond_all: "ap_busy a = 0 \<Longrightarrow> side_step\<^sup>*\<^sup>* a (a\<lparr>ap_in_flight := 0\<rparr>)"
proof (induction "ap_in_flight a" arbitrary: a)
  case (Suc n)
  then have "side_step a (a\<lparr>ap_in_flight := n\<rparr>)" using side_step.respond [of a] by (simp flip: Suc(2))
  with Suc(1) [of "a\<lparr>ap_in_flight := n\<rparr>"] Suc(3) show ?case
    by (simp add: converse_rtranclp_into_rtranclp)
next
  case 0
  then have "a\<lparr>ap_in_flight := 0\<rparr> = a" by (cases a) simp
  then show ?case by simp
qed

lemma relay_stops: "ap_ctx_done a \<Longrightarrow> side_step\<^sup>*\<^sup>* a (a\<lparr>ap_relay := Stopped\<rparr>)"
proof (cases "ap_relay a")
  case InBatch
  assume "ap_ctx_done a"
  with side_step.relay_end [OF InBatch] side_step.relay_stop [of "a\<lparr>ap_relay := Polling\<rparr>"]
  show ?thesis by (simp add: converse_rtranclp_into_rtranclp)
next
  case Polling
  assume "ap_ctx_done a"
  from side_step.relay_stop [OF Polling this] show ?thesis by blast
next
  case Stopped
  then have "a\<lparr>ap_relay := Stopped\<rparr> = a" by simp
  then show ?thesis by simp
qed

definition quiet :: "api_proc \<Rightarrow> api_proc" where
  "quiet a = a\<lparr>ap_busy := 0, ap_in_flight := 0, ap_relay := Stopped\<rparr>"

lemma quiet_sel [simp]:
  "ap_busy (quiet a) = 0" "ap_in_flight (quiet a) = 0" "ap_relay (quiet a) = Stopped"
  "ap_main (quiet a) = ap_main a" "ap_ctx_done (quiet a) = ap_ctx_done a"
  by (simp_all add: quiet_def)

lemma becomes_quiet:
  assumes "ap_ctx_done a"
  shows "side_step\<^sup>*\<^sup>* a (quiet a)"
proof -
  note release_all [of a]
  also note respond_all [of "a\<lparr>ap_busy := 0\<rparr>"]
  also note relay_stops [of "a\<lparr>ap_busy := 0, ap_in_flight := 0\<rparr>"]
  finally show ?thesis using assms by (simp add: quiet_def)
qed

text \<open>Then the main goroutine runs through.\<close>

definition can_return :: "api_proc \<Rightarrow> bool" where
  "can_return a \<longleftrightarrow> (\<exists>a' r. main_step\<^sup>*\<^sup>* a a' \<and> ap_main a' = Returned r)"

lemma can_return_step: "main_step a a' \<Longrightarrow> can_return a' \<Longrightarrow> can_return a"
  unfolding can_return_def by (meson converse_rtranclp_into_rtranclp)

lemma can_return_closing:
  "ap_main a = ClosingPool r \<Longrightarrow> ap_busy a = 0 \<Longrightarrow> ap_relay a = Stopped \<Longrightarrow> can_return a"
  by (rule can_return_step [OF main_step.closed]) (auto simp: can_return_def)

lemma can_return_awaiting:
  "ap_main a = AwaitingRelay \<Longrightarrow> ap_busy a = 0 \<Longrightarrow> ap_relay a = Stopped \<Longrightarrow> can_return a"
  by (rule can_return_step [OF main_step.relay_done]) (auto intro: can_return_closing)

lemma can_return_shutdown:
  "ap_main a = InShutdown \<Longrightarrow> ap_busy a = 0 \<Longrightarrow> ap_in_flight a = 0 \<Longrightarrow> ap_relay a = Stopped \<Longrightarrow>
     can_return a"
  by (rule can_return_step [OF main_step.drained]) (auto intro: can_return_awaiting)

lemma can_return_quiet:
  assumes "ap_ctx_done a"
  shows "can_return (quiet a)"
proof (cases "ap_main a")
  case Selecting
  then show ?thesis
    using assms by - (rule can_return_step [OF main_step.interrupted], auto intro!: can_return_shutdown)
next
  case (Returned r)
  then show ?thesis unfolding can_return_def by (intro exI [of _ "quiet a"]) simp
qed (simp_all add: can_return_shutdown can_return_awaiting can_return_closing)

lemma side_steps_main: "side_step\<^sup>*\<^sup>* a a' \<Longrightarrow> ap_main a' = ap_main a"
  by (induction rule: rtranclp_induct) (auto dest: side_step_main)

lemma side_steps_proc:
  assumes "side_step\<^sup>*\<^sup>* a a'" and "process_runs (ap_main a)"
  shows "(proc_step publish)\<^sup>*\<^sup>* (a, s) (a', s)"
  using assms(1)
proof (induction rule: rtranclp_induct)
  case (step b c)
  have "process_runs (ap_main b)" using assms(2) by (simp add: side_steps_main [OF step(1)])
  from step.IH proc_step.side [OF this step(2)] show ?case by (rule rtranclp.rtrancl_into_rtrancl)
qed simp

lemma main_steps_proc: "main_step\<^sup>*\<^sup>* a a' \<Longrightarrow> (proc_step publish)\<^sup>*\<^sup>* (a, s) (a', s)"
proof (induction rule: rtranclp_induct)
  case (step b c)
  from step.IH proc_step.main [OF step(2)] show ?case by (rule rtranclp.rtrancl_into_rtrancl)
qed simp

lemma signal_can_exit:
  assumes "process_runs (ap_main a)"
  shows "\<exists>a' r. (proc_step publish)\<^sup>*\<^sup>* (a, s) (a', s) \<and> ap_main a' = Returned r"
proof -
  let ?a = "a\<lparr>ap_ctx_done := True\<rparr>"
  have "side_step a ?a" by (rule side_step.signal)
  with becomes_quiet [of ?a] have "side_step\<^sup>*\<^sup>* a (quiet ?a)"
    by (simp add: converse_rtranclp_into_rtranclp)
  then have "(proc_step publish)\<^sup>*\<^sup>* (a, s) (quiet ?a, s)" using assms by (rule side_steps_proc)
  moreover obtain a' r where "main_step\<^sup>*\<^sup>* (quiet ?a) a'" "ap_main a' = Returned r"
    using can_return_quiet [of ?a] unfolding can_return_def by auto
  ultimately show ?thesis using main_steps_proc by (meson rtranclp_trans)
qed

section \<open>The exit\<close>

text \<open>
  C11. An exit leaves nothing half done: when the API process returns, for whatever reason,
  no request and no batch of the relay holds a connection, the state of the database is
  one the API can reach, and nothing of the process moves any more. An exit without error
  follows a signal; every request has been answered and the relay has stopped, unless the
  deadline of the shutdown passed first. An error is the one of the listener or the
  deadline. And from every state in between the process can get to its exit.
\<close>

theorem clean_exit:
  assumes "proc_reachable publish s0 (a, s)" and "api_reachable publish p0 s0"
  shows "api_reachable publish p0 s
    \<and> (process_runs (ap_main a) \<longrightarrow>
        (\<exists>a' r. (proc_step publish)\<^sup>*\<^sup>* (a, s) (a', s) \<and> ap_main a' = Returned r))
    \<and> (\<forall>r. ap_main a = Returned r \<longrightarrow>
        ap_busy a = 0 \<and> ap_relay a \<noteq> InBatch \<and> (\<forall>c. \<not> proc_step publish (a, s) c)
        \<and> (r = None \<longrightarrow> ap_ctx_done a \<and> ap_in_flight a = 0 \<and> (ap_relay a = Stopped \<or> ap_deadline a))
        \<and> (\<forall>e. r = Some e \<longrightarrow> ap_errCh a = Some e
            \<or> e = Sentinel DeadlineExceeded \<and> ap_ctx_done a \<and> ap_deadline a))"
proof (intro conjI)
  note inv = proc_reachable_inv [OF assms, simplified]
  show "api_reachable publish p0 s" using inv by simp
  show "process_runs (ap_main a) \<longrightarrow>
      (\<exists>a' r. (proc_step publish)\<^sup>*\<^sup>* (a, s) (a', s) \<and> ap_main a' = Returned r)"
    using signal_can_exit by blast
  show "\<forall>r. ap_main a = Returned r \<longrightarrow>
      ap_busy a = 0 \<and> ap_relay a \<noteq> InBatch \<and> (\<forall>c. \<not> proc_step publish (a, s) c)
      \<and> (r = None \<longrightarrow> ap_ctx_done a \<and> ap_in_flight a = 0 \<and> (ap_relay a = Stopped \<or> ap_deadline a))
      \<and> (\<forall>e. r = Some e \<longrightarrow> ap_errCh a = Some e
          \<or> e = Sentinel DeadlineExceeded \<and> ap_ctx_done a \<and> ap_deadline a)"
    using inv returned_stuck [of "(a, s)"] by (auto simp: proc_inv_def split: option.splits)
qed

text \<open>A signal reaches a process that serves nothing.\<close>

definition demo_exit :: api_proc where
  "demo_exit = api_proc_start\<lparr>ap_ctx_done := True, ap_relay := Stopped, ap_serving := False,
     ap_main := Returned None\<rparr>"

lemma demo_exit_reachable: "proc_reachable LogPublisher_Publish demo_api0 (demo_exit, demo_api0)"
proof -
  let ?reach = "\<lambda>a. proc_reachable LogPublisher_Publish demo_api0 (a, demo_api0)"
  have side: "?reach a'" if "?reach a" "side_step a a'" "process_runs (ap_main a)" for a a'
    using proc_reachable.step [OF that(1) proc_step.side] that by blast
  have main: "?reach a'" if "?reach a" "main_step a a'" for a a'
    using proc_reachable.step [OF that(1) proc_step.main] that by blast
  let ?a1 = "api_proc_start\<lparr>ap_ctx_done := True, ap_relay := Stopped\<rparr>"
  have "?reach (api_proc_start\<lparr>ap_ctx_done := True\<rparr>)"
    by (rule side [OF proc_reachable.start side_step.signal]) (simp add: api_proc_start_def)
  from side [OF this side_step.relay_stop] have "?reach ?a1" by (simp add: api_proc_start_def)
  from main [OF this main_step.interrupted]
  have "?reach (?a1\<lparr>ap_main := InShutdown, ap_serving := False\<rparr>)" by (simp add: api_proc_start_def)
  from main [OF this main_step.drained] have "?reach (?a1\<lparr>ap_main := AwaitingRelay, ap_serving := False\<rparr>)"
    by (simp add: api_proc_start_def)
  from main [OF this main_step.relay_done] have "?reach (?a1\<lparr>ap_main := ClosingPool None, ap_serving := False\<rparr>)"
    by (simp add: api_proc_start_def)
  from main [OF this main_step.closed] show ?thesis by (simp add: demo_exit_def api_proc_start_def)
qed

theorem clean_exit_witness:
  "ap_main demo_exit = Returned None \<and> ap_busy demo_exit = 0 \<and> ap_in_flight demo_exit = 0"
proof -
  have "ap_main demo_exit = Returned None" by (simp add: demo_exit_def)
  with clean_exit [OF demo_exit_reachable demo_api0_reachable] show ?thesis by blast
qed

end
