(* ===== verification/Locking.thy ===== *)
theory Locking
  imports Demo
begin

text \<open>
  Waiting between concurrent database transactions. Elsewhere an operation is one atomic
  step; here it is the sequence of locks its statements take, interleaved with those of
  others. A lock is taken when no other transaction holds it and is held until the end.
\<close>

section \<open>What a transaction locks\<close>

text \<open>
  A row of \<open>idempotency_keys\<close> that an insert has claimed, a row of \<open>accounts\<close> locked
  \<open>FOR UPDATE\<close>, the entry of an external reference in its unique index, and a row of
  \<open>outbox_events\<close>. New rows with fresh ids lock nothing another transaction asks for.
\<close>

datatype resource =
    KeyRow "string \<times> string" | AccountRow uuid | ReferenceEntry string | EventRow uuid

text \<open>
  \<open>Store.Transfer\<close>: the claim, the two accounts, the transaction with its reference. The
  later statements touch rows the transaction has locked or made.
\<close>

definition transfer_locks :: "TransferCommand \<Rightarrow> Claim \<Rightarrow> resource list" where
  "transfer_locks cmd claim =
     [KeyRow (claim_of claim)]
     @ map AccountRow (lock_order [cmd_DebitAccountID cmd, cmd_CreditAccountID cmd])
     @ (case cmd_ExternalRef cmd of None \<Rightarrow> [] | Some x \<Rightarrow> [ReferenceEntry x])"

definition replay_locks :: "uuid \<Rightarrow> resource list" where
  "replay_locks eid = [EventRow eid]"

section \<open>Interleavings\<close>

text \<open>A transaction: the locks it holds, and those it will still ask for, in order.\<close>

record session =
  held :: "resource list"
  asks :: "resource list"

definition unheld :: "session list \<Rightarrow> resource \<Rightarrow> bool" where
  "unheld ss r \<longleftrightarrow> (\<forall>s \<in> set ss. r \<notin> set (held s))"

text \<open>
  A dispatch takes its rows with \<open>SKIP LOCKED\<close>: only such as nobody holds, and without
  waiting. A transaction may end at any point, by its commit or by an error.
\<close>

inductive lock_step :: "session list \<Rightarrow> session list \<Rightarrow> bool" where
  transfer: "lock_step ss (ss @ [\<lparr>held = [], asks = transfer_locks cmd claim\<rparr>])"
| replay: "lock_step ss (ss @ [\<lparr>held = [], asks = replay_locks eid\<rparr>])"
| dispatch: "distinct eids \<Longrightarrow> list_all (unheld ss) (map EventRow eids) \<Longrightarrow>
    lock_step ss (ss @ [\<lparr>held = map EventRow eids, asks = []\<rparr>])"
| acquire: "i < length ss \<Longrightarrow> asks (ss ! i) = r # rs \<Longrightarrow> unheld ss r \<Longrightarrow>
    lock_step ss (ss[i := \<lparr>held = held (ss ! i) @ [r], asks = rs\<rparr>])"
| finish: "i < length ss \<Longrightarrow> lock_step ss (ss[i := \<lparr>held = [], asks = []\<rparr>])"

inductive lock_reachable :: "session list \<Rightarrow> bool" where
  start: "lock_reachable []"
| step: "lock_reachable ss \<Longrightarrow> lock_step ss ss' \<Longrightarrow> lock_reachable ss'"

text \<open>\<open>i\<close> waits for \<open>j\<close>: the next lock it asks for is held by \<open>j\<close>.\<close>

definition waits :: "session list \<Rightarrow> nat \<Rightarrow> nat \<Rightarrow> bool" where
  "waits ss i j \<longleftrightarrow> i < length ss \<and> j < length ss \<and> i \<noteq> j
     \<and> (case asks (ss ! i) of [] \<Rightarrow> False | r # _ \<Rightarrow> r \<in> set (held (ss ! j)))"

section \<open>The order of the locks\<close>

fun lock_class :: "resource \<Rightarrow> nat" where
  "lock_class (KeyRow _) = 0"
| "lock_class (AccountRow _) = 1"
| "lock_class (ReferenceEntry _) = 2"
| "lock_class (EventRow _) = 3"

fun before :: "resource \<Rightarrow> resource \<Rightarrow> bool" where
  "before (AccountRow a) (AccountRow b) = (a < b)"
| "before r s = (lock_class r < lock_class s)"

lemma before_trans: "before r s \<Longrightarrow> before s t \<Longrightarrow> before r t"
  by (cases r; cases s; cases t) auto

lemma before_irrefl [simp]: "\<not> before r r"
  by (cases r) auto

lemma sorted_accounts: "sorted_wrt (<) as \<Longrightarrow> sorted_wrt before (map AccountRow as)"
  by (simp add: sorted_wrt_map)

lemma lock_order_strict: "sorted_wrt (<) (lock_order ids)"
  by (simp add: strict_sorted_iff)

lemma transfer_locks_sorted: "sorted_wrt before (transfer_locks cmd claim)"
  using sorted_accounts [OF lock_order_strict]
  by (auto simp: transfer_locks_def sorted_wrt_append split: option.split)

text \<open>
  The order of a transaction that waits: what it holds comes before what it asks for.
  A dispatch holds its rows in any order and asks for nothing.
\<close>

definition ordered :: "session \<Rightarrow> bool" where
  "ordered s \<longleftrightarrow> sorted_wrt before (asks s) \<and> (\<forall>h \<in> set (held s). \<forall>a \<in> set (asks s). before h a)"

definition exclusive :: "session list \<Rightarrow> bool" where
  "exclusive ss \<longleftrightarrow>
     (\<forall>i < length ss. \<forall>j < length ss. i \<noteq> j \<longrightarrow> set (held (ss ! i)) \<inter> set (held (ss ! j)) = {})"

lemma ordered_new [simp]:
  "ordered \<lparr>held = [], asks = rs\<rparr> \<longleftrightarrow> sorted_wrt before rs" "ordered \<lparr>held = hs, asks = []\<rparr>"
  by (simp_all add: ordered_def)

lemma ordered_acquire: "ordered s \<Longrightarrow> asks s = r # rs \<Longrightarrow> ordered \<lparr>held = held s @ [r], asks = rs\<rparr>"
  by (auto simp: ordered_def)

lemma ordered_step:
  assumes "lock_step ss ss'" and "\<forall>s \<in> set ss. ordered s"
  shows "\<forall>s \<in> set ss'. ordered s"
  using assms
proof cases
  case (acquire i r rs)
  with assms(2) show ?thesis
    by (auto dest!: set_update_subset_insert [THEN subsetD] intro: ordered_acquire)
qed (auto simp: transfer_locks_sorted replay_locks_def dest!: set_update_subset_insert [THEN subsetD])

lemma exclusive_append:
  "exclusive ss \<Longrightarrow> list_all (unheld ss) (held s) \<Longrightarrow> exclusive (ss @ [s])"
proof -
  assume ex: "exclusive ss" and new: "list_all (unheld ss) (held s)"
  have free: "set (held (ss ! i)) \<inter> set (held s) = {}" if "i < length ss" for i
    using new nth_mem [OF that] by (auto simp: list_all_iff unheld_def)
  show ?thesis
    using ex free by (simp add: exclusive_def less_Suc_eq all_conj_distrib nth_append Int_commute)
qed

lemma exclusive_update:
  assumes "exclusive ss" and "\<And>j. j < length ss \<Longrightarrow> j \<noteq> i \<Longrightarrow> set (held s) \<inter> set (held (ss ! j)) = {}"
  shows "exclusive (ss[i := s])"
  unfolding exclusive_def
proof (intro allI impI)
  fix j k assume "j < length (ss[i := s])" "k < length (ss[i := s])" "j \<noteq> k"
  moreover from this assms(1) have "set (held (ss ! j)) \<inter> set (held (ss ! k)) = {}"
    by (simp add: exclusive_def)
  ultimately show "set (held (ss[i := s] ! j)) \<inter> set (held (ss[i := s] ! k)) = {}"
    using assms(2) [of j] assms(2) [of k] by (cases "i = j"; cases "i = k") (simp_all add: Int_commute)
qed

lemma exclusive_step:
  assumes "lock_step ss ss'" and "exclusive ss"
  shows "exclusive ss'"
  using assms(1)
proof cases
  case (acquire i r rs)
  have "set (held (ss ! i) @ [r]) \<inter> set (held (ss ! j)) = {}" if "j < length ss" "j \<noteq> i" for j
    using that acquire assms(2) unfolding exclusive_def unheld_def by auto
  then show ?thesis unfolding acquire(1) by (intro exclusive_update [OF assms(2)]) simp
next
  case (finish i)
  then show ?thesis by (simp add: exclusive_update [OF assms(2)])
qed (simp_all add: exclusive_append [OF assms(2)])

lemma lock_reachable_inv:
  "lock_reachable ss \<Longrightarrow> (\<forall>s \<in> set ss. ordered s) \<and> exclusive ss"
proof (induction rule: lock_reachable.induct)
  case start
  then show ?case by (simp add: exclusive_def)
next
  case (step ss ss')
  then show ?case using ordered_step exclusive_step by blast
qed

section \<open>No cycle of waiting\<close>

lemma waits_ahead:
  assumes "\<forall>s \<in> set ss. ordered s" and "waits ss i j" and "waits ss j k"
  shows "before (hd (asks (ss ! i))) (hd (asks (ss ! j)))"
proof -
  from assms(2,3) obtain r rs q qs where "asks (ss ! i) = r # rs" "r \<in> set (held (ss ! j))"
    "asks (ss ! j) = q # qs" "j < length ss"
    by (auto simp: waits_def split: list.splits)
  moreover from this(4) assms(1) have "ordered (ss ! j)" by simp
  ultimately show ?thesis by (simp add: ordered_def)
qed

lemma waits_path:
  assumes "\<forall>s \<in> set ss. ordered s"
  shows "(waits ss)\<^sup>+\<^sup>+ i j \<Longrightarrow> waits ss j k \<Longrightarrow> before (hd (asks (ss ! i))) (hd (asks (ss ! j)))"
proof (induction arbitrary: k rule: tranclp_induct)
  case (base j)
  then show ?case by (rule waits_ahead [OF assms])
next
  case (step j l)
  from step.IH [OF step(2)] waits_ahead [OF assms step(2,4)] show ?case by (rule before_trans)
qed

lemma waits_acyclic:
  assumes "\<forall>s \<in> set ss. ordered s"
  shows "\<not> (waits ss)\<^sup>+\<^sup>+ i i"
proof
  assume cyc: "(waits ss)\<^sup>+\<^sup>+ i i"
  then obtain j where "waits ss i j" by (meson tranclpD)
  from waits_path [OF assms cyc this] show False by simp
qed

lemma waits_ends:
  assumes "\<forall>s \<in> set ss. ordered s"
  shows "\<exists>j. (waits ss)\<^sup>*\<^sup>* i j \<and> (\<forall>k. \<not> waits ss j k)"
proof -
  let ?R = "{(i, j). waits ss i j}"
  have "finite ?R"
    by (rule finite_subset [of _ "{..<length ss} \<times> {..<length ss}"]) (auto simp: waits_def)
  moreover have "acyclic ?R"
    using waits_acyclic [OF assms] by (simp add: acyclic_def tranclp_unfold)
  ultimately have "wf (?R\<inverse>)" by (rule finite_acyclic_wf_converse)
  then show ?thesis
  proof (induction i rule: wf_induct_rule)
    case (less i)
    show ?case
    proof (cases "\<exists>k. waits ss i k")
      case True
      then obtain k where k: "waits ss i k" by blast
      with less.IH obtain j where "(waits ss)\<^sup>*\<^sup>* k j" "\<forall>l. \<not> waits ss j l" by blast
      with k show ?thesis by (meson converse_rtranclp_into_rtranclp)
    qed blast
  qed
qed

text \<open>
  Two transfers between the same accounts in opposite directions: the first holds its key
  and the lower account, the second holds its key and waits for the first.
\<close>

definition demo_sessions :: "session list" where
  "demo_sessions =
     [\<lparr>held = [KeyRow (''a'', ''POST /transactions''), AccountRow 1], asks = [AccountRow 2]\<rparr>,
      \<lparr>held = [KeyRow (''b'', ''POST /transactions'')], asks = [AccountRow 1, AccountRow 2]\<rparr>]"

lemma demo_sessions_reachable: "lock_reachable demo_sessions"
proof -
  let ?k = "\<lambda>k. KeyRow (k, ''POST /transactions'')" and ?as = "[AccountRow 1, AccountRow 2]"
  have order: "lock_order [2, 1] = [1, 2]" "lock_order [1, 2] = [1, 2]" by code_simp+
  have locks: "transfer_locks (demo_cmd 2 1 300) (demo_claim ''a'' f) = ?k ''a'' # ?as"
    "transfer_locks (demo_cmd 1 2 300) (demo_claim ''b'' f) = ?k ''b'' # ?as" for f
    by (simp_all add: transfer_locks_def demo_cmd_def demo_claim_def claim_of_def order)
  let ?A0 = "\<lparr>held = [], asks = ?k ''a'' # ?as\<rparr>" and ?A1 = "\<lparr>held = [?k ''a''], asks = ?as\<rparr>"
    and ?B0 = "\<lparr>held = [], asks = ?k ''b'' # ?as\<rparr>"
  have "lock_reachable [?A0]"
    using lock_reachable.step [OF lock_reachable.start lock_step.transfer] locks(1) by (metis append_Nil)
  from lock_reachable.step [OF this lock_step.acquire [of 0]]
  have "lock_reachable [?A1]" by (simp add: unheld_def)
  from lock_reachable.step [OF this lock_step.transfer [of _ "demo_cmd 1 2 300" "demo_claim ''b'' []"]]
  have "lock_reachable [?A1, ?B0]" by (simp add: locks)
  from lock_reachable.step [OF this lock_step.acquire [of 0]]
  have "lock_reachable [demo_sessions ! 0, ?B0]" by (simp add: unheld_def demo_sessions_def)
  from lock_reachable.step [OF this lock_step.acquire [of 1]]
  show ?thesis by (simp add: unheld_def demo_sessions_def)
qed

text \<open>
  C10. Operations that run at the same time cannot deadlock: whatever transfers, replays
  and dispatches are under way and however their locks interleave, no lock has two holders
  and no transaction waits for itself through others; each chain of waiting ends at a
  transaction that waits for nobody. Transfers lock their two accounts in the same order
  whichever of them is debited.
\<close>

theorem no_deadlock:
  assumes "lock_reachable ss"
  shows "exclusive ss \<and> \<not> (waits ss)\<^sup>+\<^sup>+ i i \<and> (\<exists>j. (waits ss)\<^sup>*\<^sup>* i j \<and> (\<forall>k. \<not> waits ss j k))"
  using lock_reachable_inv [OF assms] waits_acyclic waits_ends by blast

theorem no_deadlock_witness:
  "waits demo_sessions 1 0 \<and> exclusive demo_sessions \<and> \<not> (waits demo_sessions)\<^sup>+\<^sup>+ 1 1"
proof -
  have "waits demo_sessions 1 0" by (simp add: waits_def demo_sessions_def)
  with no_deadlock [OF demo_sessions_reachable] show ?thesis by blast
qed

end
