(* ===== verification/Time_Order.thy ===== *)
theory Time_Order
  imports Go_Time "HOL-Library.Char_ord" "HOL-Library.List_Lexorder" "HOL-Library.Product_Lexorder"
begin

text \<open>
  The order of formatted times: the strings of \<open>timeFormat\<close> have one width and sort, byte by
  byte, like the times they stand for. The calendar is taken apart into eras of 400 years,
  years from March and days of the year.
\<close>

section \<open>Strings of one width\<close>

lemma append_less:
  "length xs = length ys \<Longrightarrow> xs < ys \<Longrightarrow> xs @ us < ys @ (vs :: 'a :: linorder list)"
  by (induction xs ys rule: list_induct2) auto

lemma append_less_same: "xs @ us < xs @ vs \<longleftrightarrow> us < (vs :: 'a :: linorder list)"
  by (induction xs) auto

lemma digit_less: "d < e \<Longrightarrow> e < 10 \<Longrightarrow> digit d < digit e"
  by (simp add: less_char_def digit_def)

fun fixed_digits :: "nat \<Rightarrow> nat \<Rightarrow> string" where
  "fixed_digits 0 n = []"
| "fixed_digits (Suc w) n = fixed_digits w (n div 10) @ [digit (n mod 10)]"

lemma length_fixed_digits [simp]: "length (fixed_digits w n) = w"
  by (induction w arbitrary: n) auto

lemma replicate_Suc_conv_snoc: "replicate (Suc n) x = replicate n x @ [x]"
  by (simp add: replicate_append_same)

lemma fixed_digits_0: "fixed_digits w 0 = replicate w CHR ''0''"
proof (induction w)
  case (Suc w)
  have "digit 0 = CHR ''0''" by code_simp
  with Suc show ?case by (simp del: replicate.simps add: replicate_Suc_conv_snoc)
qed simp

lemma pad_fixed_digits: "n < 10 ^ w \<Longrightarrow> 0 < w \<Longrightarrow> pad w n = fixed_digits w n"
proof (induction w arbitrary: n)
  case (Suc w)
  show ?case
  proof (cases "n < 10")
    case True
    then show ?thesis by (simp add: pad_def show_nat.simps [of n] fixed_digits_0)
  next
    case False
    with Suc.prems have "n div 10 < 10 ^ w" "0 < w" by (cases w; auto)+
    with Suc.IH [of "n div 10"] False show ?thesis by (simp add: pad_def show_nat.simps [of n])
  qed
qed simp

lemma fixed_digits_less: "n < m \<Longrightarrow> m < 10 ^ w \<Longrightarrow> fixed_digits w n < fixed_digits w m"
proof (induction w arbitrary: n m)
  case (Suc w)
  show ?case
  proof (cases "n div 10 < m div 10")
    case True
    with Suc show ?thesis by (auto intro!: append_less)
  next
    case False
    moreover have "n div 10 \<le> m div 10" using Suc.prems by (simp add: div_le_mono)
    ultimately have "n div 10 = m div 10" by simp
    moreover from this Suc.prems have "n mod 10 < m mod 10"
      using div_mult_mod_eq [of n 10] div_mult_mod_eq [of m 10] by linarith
    ultimately show ?thesis by (auto simp: append_less_same intro!: digit_less)
  qed
qed simp

lemma pad_less: "n < m \<Longrightarrow> m < 10 ^ w \<Longrightarrow> 0 < w \<Longrightarrow> pad w n < pad w m"
  by (simp add: pad_fixed_digits fixed_digits_less)

lemma pad_width: "n < 10 ^ w \<Longrightarrow> 0 < w \<Longrightarrow> length (pad w n) = w"
  by (simp add: pad_fixed_digits)

section \<open>The calendar\<close>

text \<open>Day \<open>doe\<close> of an era is day \<open>doe - year_start y\<close> of its year \<open>y\<close>, counted from March.\<close>

definition year_start :: "int \<Rightarrow> int" where
  "year_start y = 365 * y + y div 4 - y div 100 + y div 400"

definition year_of :: "int \<Rightarrow> int" where
  "year_of doe = (doe - doe div 1460 + doe div 36524 - doe div 146096) div 365"

definition month_day :: "int \<Rightarrow> int \<times> nat \<times> nat" where
  "month_day doy =
     (let mp = (5 * doy + 2) div 153; month = (if mp < 10 then mp + 3 else mp - 9)
      in (if month \<le> 2 then 1 else 0, nat month, nat (doy - (153 * mp + 2) div 5 + 1)))"

lemma div_grows_slower:
  assumes "a \<le> (b :: int)"
  shows "a - a div 1460 \<le> b - b div 1460"
  using assms div_mult_mod_eq [of a 1460] div_mult_mod_eq [of b 1460]
    pos_mod_bound [of 1460 a] pos_mod_sign [of 1460 b] by linarith

lemma year_of_mono:
  assumes "0 \<le> a" and "a \<le> b" and "b < 146097"
  shows "year_of a \<le> year_of b"
proof -
  have "a div 36524 - a div 146096 \<le> b div 36524 - b div 146096"
  proof (cases "b = 146096")
    case True
    moreover have "a div 36524 \<le> 3 \<and> a div 146096 = 0" if "a \<noteq> 146096"
      using zdiv_mono1 [of a 146095 36524] that assms True by simp
    ultimately show ?thesis by fastforce
  next
    case False
    with assms show ?thesis by (simp add: zdiv_mono1)
  qed
  with div_grows_slower [OF assms(2)] show ?thesis
    unfolding year_of_def by (intro zdiv_mono1) auto
qed

lemma year_checks:
  "list_all (\<lambda>y. year_of (year_start y) = y \<and> year_of (year_start (y + 1) - 1) = y
     \<and> year_start (y + 1) - year_start y \<le> 366) [0..399]"
  by code_simp

lemma year_facts:
  assumes "0 \<le> y" and "y \<le> 399"
  shows "year_of (year_start y) = y" "year_of (year_start (y + 1) - 1) = y"
    "year_start (y + 1) - year_start y \<le> 366"
  using year_checks assms by (auto simp: list_all_iff)

lemma year_start_checks: "list_all (\<lambda>y. 0 \<le> year_start y \<and> year_start y \<le> 146097) [0..400]"
  by code_simp

lemma year_start_range: "0 \<le> y \<Longrightarrow> y \<le> 400 \<Longrightarrow> 0 \<le> year_start y \<and> year_start y \<le> 146097"
  using year_start_checks by (auto simp: list_all_iff)

lemma month_checks:
  "list_all (\<lambda>d. month_day d < month_day (d + 1) \<and> month_day d < (1, 3, 1)) [0..364]
     \<and> month_day 365 < (1, 3, 1) \<and> month_day 0 = (0, 3, 1)"
  by code_simp

lemma month_day_Suc: "0 \<le> d \<Longrightarrow> d < 365 \<Longrightarrow> month_day d < month_day (d + 1)"
  using month_checks by (auto simp: list_all_iff)

lemma month_day_bound: "0 \<le> d \<Longrightarrow> d \<le> 365 \<Longrightarrow> month_day d < (1, 3, 1)"
  using month_checks by (cases "d = 365") (auto simp: list_all_iff)

lemma year_ends: "year_of 0 = 0" "year_of 146096 = 399" "year_start 0 = 0" "year_start 400 = 146097"
  by code_simp+

lemma year_of_range: "0 \<le> doe \<Longrightarrow> doe < 146097 \<Longrightarrow> 0 \<le> year_of doe \<and> year_of doe \<le> 399"
  using year_of_mono [of 0 doe] year_of_mono [of doe 146096] by (simp add: year_ends)

lemma year_of_interval:
  assumes "0 \<le> doe" and "doe < 146097"
  shows "year_start (year_of doe) \<le> doe" and "doe < year_start (year_of doe + 1)"
proof -
  let ?y = "year_of doe"
  note range = year_of_range [OF assms]
  show "year_start ?y \<le> doe"
  proof (cases "?y = 0")
    case False
    show ?thesis
    proof (rule ccontr)
      assume "\<not> year_start ?y \<le> doe"
      moreover have "year_start ?y \<le> 146097"
        using range year_start_range [of ?y] by simp
      ultimately have "?y \<le> year_of (year_start ?y - 1)" using assms by (intro year_of_mono) auto
      then show False using year_facts(2) [of "?y - 1"] range False by simp
    qed
  qed (use assms in \<open>simp add: year_ends\<close>)
  show "doe < year_start (?y + 1)"
  proof (cases "?y = 399")
    case False
    show ?thesis
    proof (rule ccontr)
      assume "\<not> doe < year_start (?y + 1)"
      moreover have "0 \<le> year_start (?y + 1)" using range year_start_range [of "?y + 1"] by simp
      ultimately have "year_of (year_start (?y + 1)) \<le> ?y" using assms by (intro year_of_mono) auto
      then show False using year_facts(1) [of "?y + 1"] range False by simp
    qed
  qed (use assms in \<open>simp add: year_ends\<close>)
qed

definition civil_at :: "int \<Rightarrow> int \<Rightarrow> int \<times> nat \<times> nat" where
  "civil_at era doe =
     (let y = year_of doe in
      case month_day (doe - year_start y) of (c, m, d) \<Rightarrow> (y + era * 400 + c, m, d))"

lemma civil_of_days_parts:
  "civil_of_days days = civil_at ((days + 719468) div 146097) ((days + 719468) mod 146097)"
proof -
  let ?doe = "(days + 719468) mod 146097"
  have "year_of ?doe div 400 = 0" using year_of_range [of ?doe] by simp
  then have start: "year_start (year_of ?doe) = 365 * year_of ?doe + year_of ?doe div 4 - year_of ?doe div 100"
    by (simp add: year_start_def)
  show ?thesis
    unfolding civil_of_days_def civil_at_def Let_def year_of_def [symmetric] start month_day_def prod.case
    by (rule refl)
qed

lemma next_day_of_era:
  fixes z :: int
  shows "z mod 146097 + 1 < 146097 \<Longrightarrow>
      (z + 1) mod 146097 = z mod 146097 + 1 \<and> (z + 1) div 146097 = z div 146097"
    and "z mod 146097 = 146096 \<Longrightarrow> (z + 1) mod 146097 = 0 \<and> (z + 1) div 146097 = z div 146097 + 1"
proof -
  have "z + 1 = (z mod 146097 + 1) + z div 146097 * 146097" by simp
  then have div: "(z + 1) div 146097 = z div 146097 + (z mod 146097 + 1) div 146097"
    by (metis div_mult_self1 zero_neq_numeral)
  have "(z + 1) mod 146097 = (z mod 146097 + 1) mod 146097" by (simp add: mod_add_left_eq)
  with div show "z mod 146097 + 1 < 146097 \<Longrightarrow>
      (z + 1) mod 146097 = z mod 146097 + 1 \<and> (z + 1) div 146097 = z div 146097"
    and "z mod 146097 = 146096 \<Longrightarrow> (z + 1) mod 146097 = 0 \<and> (z + 1) div 146097 = z div 146097 + 1"
    by simp_all
qed

lemma civil_at_Suc:
  assumes "0 \<le> doe" and "doe + 1 < 146097"
  shows "civil_at era doe < civil_at era (doe + 1)"
proof -
  let ?y = "year_of doe" let ?doy = "doe - year_start ?y"
  have doe: "doe < 146097" using assms(2) by simp
  note range = year_of_range [OF assms(1) doe] and interval = year_of_interval [OF assms(1) doe]
  note start = year_start_range [of "?y + 1"]
  have doy: "0 \<le> ?doy" "?doy \<le> 365" using interval year_facts(3) [of ?y] range by auto
  obtain c m d where md: "month_day ?doy = (c, m, d)" by (cases "month_day ?doy")
  show ?thesis
  proof (cases "doe + 1 < year_start (?y + 1)")
    case True
    then have "year_of (doe + 1) \<le> year_of (year_start (?y + 1) - 1)"
      using assms range start by (intro year_of_mono) auto
    with year_facts(2) [of ?y] range year_of_mono [of doe "doe + 1"] assms
    have "year_of (doe + 1) = ?y" by simp
    moreover have "?doy < 365" using True year_facts(3) [of ?y] range by simp
    moreover have "doe + 1 - year_start ?y = ?doy + 1" by simp
    ultimately have "month_day ?doy < month_day (doe + 1 - year_start ?y)" "year_of (doe + 1) = ?y"
      using month_day_Suc [of ?doy] doy(1) by (simp_all only:)
    with md show ?thesis
      by (cases "month_day (doe + 1 - year_start ?y)") (auto simp: civil_at_def Let_def)
  next
    case False
    with interval have last: "doe + 1 = year_start (?y + 1)" by simp
    have "?y \<noteq> 399" using last assms(2) year_ends(4) by auto
    with range have "0 \<le> ?y + 1" "?y + 1 \<le> 399" by auto
    from year_facts(1) [OF this] have "year_of (doe + 1) = ?y + 1" using last by simp
    moreover have "(c, m, d) < (1, 3, 1)" using month_day_bound [OF doy] md by simp
    ultimately show ?thesis
      using md month_checks last by (auto simp: civil_at_def Let_def)
  qed
qed

lemma civil_at_next_era: "civil_at era 146096 < civil_at (era + 1) 0"
proof -
  have "month_day (146096 - year_start (year_of 146096)) = (1, 2, 29)" "month_day (0 - year_start (year_of 0)) = (0, 3, 1)"
    by code_simp+
  then show ?thesis by (simp add: civil_at_def Let_def year_ends)
qed

lemma civil_of_days_Suc: "civil_of_days days < civil_of_days (days + 1)"
proof -
  let ?z = "days + 719468"
  have eq: "days + 1 + 719468 = ?z + 1" by simp
  show ?thesis
  proof (cases "?z mod 146097 = 146096")
    case True
    with next_day_of_era(2) [of ?z] civil_at_next_era [of "?z div 146097"]
    show ?thesis unfolding civil_of_days_parts eq by simp
  next
    case False
    moreover have "?z mod 146097 < 146097" by simp
    ultimately have lt: "?z mod 146097 + 1 < 146097" by linarith
    from next_day_of_era(1) [OF this] civil_at_Suc [OF _ lt, of "?z div 146097"]
    show ?thesis unfolding civil_of_days_parts eq by simp
  qed
qed

lemma civil_of_days_less: "a < b \<Longrightarrow> civil_of_days a < civil_of_days b"
proof (induction b rule: int_gr_induct)
  case base
  show ?case by (rule civil_of_days_Suc)
next
  case (step b)
  from step(2) civil_of_days_Suc show ?case by (rule less_trans)
qed


section \<open>The layout\<close>

text \<open>Its fields, with the time of day in milliseconds.\<close>

definition in_layout :: "time \<Rightarrow> bool" where
  "in_layout t \<longleftrightarrow> 0 \<le> Year t \<and> Year t \<le> 9999"

lemma month_day_small:
  assumes "month_day doy = (c, m, d)" and "0 \<le> doy" and "doy \<le> 365"
  shows "m < 100 \<and> d < 100"
proof -
  have "list_all (\<lambda>doy. case month_day doy of (c, m, d) \<Rightarrow> m < 100 \<and> d < 100) [0..365]" by code_simp
  with assms(2,3) have "case month_day doy of (c, m, d) \<Rightarrow> m < 100 \<and> d < 100" by (simp add: list_all_iff)
  with assms(1) show ?thesis by simp
qed

lemma civil_of_days_small:
  assumes "civil_of_days days = (y, m, d)"
  shows "m < 100" and "d < 100"
proof -
  let ?doe = "(days + 719468) mod 146097" let ?y = "year_of ?doe"
  have doe: "0 \<le> ?doe" "?doe < 146097" by simp_all
  obtain c where "month_day (?doe - year_start ?y) = (c, m, d)"
    using assms by (auto simp: civil_of_days_parts civil_at_def Let_def split: prod.splits)
  with month_day_small [OF this] year_of_interval [OF doe] year_facts(3) [of ?y] year_of_range [OF doe]
  show "m < 100" "d < 100" by auto
qed

definition day_string :: "int \<Rightarrow> string" where
  "day_string days = (case civil_of_days days of (y, m, d) \<Rightarrow>
     pad 4 (nat y) @ ''-'' @ pad 2 m @ ''-'' @ pad 2 d)"

definition clock_string :: "nat \<Rightarrow> string" where
  "clock_string ms =
     pad 2 (ms div 3600000) @ '':'' @ pad 2 (ms div 60000 mod 60) @ '':'' @ pad 2 (ms div 1000 mod 60)
       @ ''.'' @ pad 3 (ms mod 1000)"

lemma day_string_less:
  assumes "a < b" and "0 \<le> fst (civil_of_days a)" and "fst (civil_of_days b) \<le> 9999"
  shows "day_string a < day_string b"
proof -
  obtain y m d where a: "civil_of_days a = (y, m, d)" by (cases "civil_of_days a")
  obtain y' m' d' where b: "civil_of_days b = (y', m', d')" by (cases "civil_of_days b")
  from civil_of_days_less [OF assms(1)] have less: "(y, m, d) < (y', m', d')" by (simp add: a b)
  have y: "nat y < 10 ^ 4" "nat y' < 10 ^ 4" using less assms a b by auto
  note small = civil_of_days_small [OF a] civil_of_days_small [OF b]
  consider "y < y'" | "y = y'" "m < m'" | "y = y'" "m = m'" "d < d'"
    using less by (cases "y = y'"; cases "m = m'"; auto)
  then show ?thesis
  proof cases
    case 1
    then show ?thesis using assms a y
      by (simp add: day_string_def b append_less pad_less pad_width)
  next
    case 2
    then show ?thesis using small
      by (simp add: day_string_def a b append_less_same append_less pad_less pad_width)
  next
    case 3
    then show ?thesis using small
      by (simp add: day_string_def a b append_less_same pad_less)
  qed
qed

lemma div_mod_less: "i < j \<Longrightarrow> i div k < j div k \<or> i div k = j div k \<and> i mod k < j mod (k :: nat)"
  by (metis div_le_mono div_mult_mod_eq le_neq_implies_less less_imp_le nat_add_left_cancel_less)

lemma clock_string_less:
  assumes "i < j" and "j < 86400000"
  shows "clock_string i < clock_string j"
proof -
  have minutes: "k div 60000 = k div 1000 div 60" and hours: "k div 3600000 = k div 60000 div 60" for k :: nat
    by (simp_all flip: div_mult2_eq)
  have minute: "i div 60000 < j div 60000 \<or> i div 60000 = j div 60000 \<and> i div 1000 mod 60 < j div 1000 mod 60"
    if "i div 1000 < j div 1000" using div_mod_less [OF that, of 60] by (simp only: minutes)
  have hour_of: "i div 3600000 < j div 3600000
      \<or> i div 3600000 = j div 3600000 \<and> i div 60000 mod 60 < j div 60000 mod 60"
    if "i div 60000 < j div 60000" using div_mod_less [OF that, of 60] by (simp only: hours)
  have hour: "j div 3600000 < 10 ^ 2" using assms by simp
  consider "i div 3600000 < j div 3600000"
    | "i div 3600000 = j div 3600000" "i div 60000 mod 60 < j div 60000 mod 60"
    | "i div 3600000 = j div 3600000" "i div 60000 = j div 60000" "i div 1000 mod 60 < j div 1000 mod 60"
    | "i div 3600000 = j div 3600000" "i div 60000 = j div 60000" "i div 1000 = j div 1000" "i mod 1000 < j mod 1000"
    using div_mod_less [OF assms(1), of 1000] minute hour_of by (metis minutes hours)
  then show ?thesis
  proof cases
    case 1
    with hour show ?thesis by (simp add: clock_string_def append_less pad_less pad_width)
  next
    case 2
    then show ?thesis by (simp add: clock_string_def append_less_same append_less pad_less pad_width)
  next
    case 3
    moreover have "i div 1000 mod 60 < 10 ^ 2" "j div 1000 mod 60 < 10 ^ 2" by simp_all
    ultimately show ?thesis by (simp add: clock_string_def append_less_same append_less pad_less pad_width)
  next
    case 4
    then show ?thesis by (simp add: clock_string_def append_less_same append_less pad_less pad_width)
  qed
qed

text \<open>A time is its day and the milliseconds of the day.\<close>

lemma Format_timeFormat_parts:
  assumes "0 \<le> Year t"
  shows "Format_timeFormat t =
    day_string (t div us_per_day) @ ''T'' @ clock_string (nat (t mod us_per_day div 1000)) @ ''Z''"
proof -
  let ?u = "t mod us_per_day"
  obtain y m d where c: "civil_of_days (t div us_per_day) = (y, m, d)"
    by (cases "civil_of_days (t div us_per_day)")
  with assms have y: "\<not> y < 0" by (simp add: Year_def)
  have u: "0 \<le> ?u" by (simp add: us_per_day_def)
  let ?ms = "nat (?u div 1000)"
  have "t mod 1000000 = ?u mod 1000000"
    by (simp add: us_per_day_def mod_mod_cancel)
  also have "\<dots> = 1000 * (?u div 1000 mod 1000) + ?u mod 1000"
    using zmod_zmult2_eq [of 1000 ?u 1000] by simp
  finally have "t mod 1000000 div 1000 = ?u div 1000 mod 1000" by simp
  then have ms: "nat (t mod 1000000 div 1000) = ?ms mod 1000"
    using u by (simp add: nat_mod_distrib)
  have "?u div 1000000 = ?u div 1000 div 1000"
    using zdiv_zmult2_eq [of 1000 ?u 1000] by simp
  then have s: "nat (?u div 1000000) = ?ms div 1000"
    using u by (simp add: nat_div_distrib)
  have div: "k div 1000 div 3600 = k div 3600000" "k div 1000 div 60 = k div 60000" for k :: nat
    by (simp_all flip: div_mult2_eq)
  show ?thesis
    unfolding Format_timeFormat_def date_time_def day_string_def clock_string_def c prod.case
      Let_def s ms pad_int_def if_not_P [OF y] div append_assoc
    by (rule refl)
qed

lemma Format_timeFormat_length:
  assumes "in_layout t"
  shows "length (Format_timeFormat t) = 24"
proof -
  have "nat (t mod us_per_day div 1000) div 3600000 < 10 ^ 2"
    by (simp add: us_per_day_def nat_less_iff div_less_iff_less_mult)
  with assms civil_of_days_small show ?thesis
    by (auto simp: Format_timeFormat_parts in_layout_def Year_def day_string_def clock_string_def
      pad_width split: prod.splits)
qed

lemma ms_of_day:
  "v div 1000 div 86400000 = v div us_per_day" "v mod us_per_day div 1000 = v div 1000 mod 86400000"
proof -
  have day: "us_per_day = 1000 * 86400000" by (simp add: us_per_day_def)
  show "v div 1000 div 86400000 = v div us_per_day"
    unfolding day by (rule zdiv_zmult2_eq [symmetric]) simp
  have "v mod us_per_day = 1000 * (v div 1000 mod 86400000) + v mod 1000"
    unfolding day by (rule zmod_zmult2_eq) simp
  then show "v mod us_per_day div 1000 = v div 1000 mod 86400000" by (simp only:)
qed

lemma Format_timeFormat_ms:
  assumes "in_layout t" and "in_layout u" and "t div 1000 = u div 1000"
  shows "Format_timeFormat t = Format_timeFormat u"
  using assms by (simp add: Format_timeFormat_parts in_layout_def ms_of_day flip: ms_of_day(1))

lemma Format_timeFormat_less:
  assumes "in_layout t" and "in_layout u" and "t div 1000 < u div 1000"
  shows "Format_timeFormat t < Format_timeFormat u"
proof -
  have width: "length (day_string (t div us_per_day)) = length (day_string (u div us_per_day))"
    if "in_layout t" "in_layout u" for t u
    using that civil_of_days_small
    by (auto simp: day_string_def in_layout_def Year_def pad_width split: prod.splits)
  show ?thesis
  proof (cases "t div us_per_day < u div us_per_day")
    case True
    with assms day_string_less [of "t div us_per_day" "u div us_per_day"] width [OF assms(1,2)]
    show ?thesis by (simp add: Format_timeFormat_parts in_layout_def Year_def append_less)
  next
    case False
    have "t div us_per_day \<le> u div us_per_day"
      using zdiv_mono1 [of "t div 1000" "u div 1000" 86400000] assms(3) by (simp add: ms_of_day)
    with False have same: "t div us_per_day = u div us_per_day" by simp
    have "t div 1000 mod 86400000 < u div 1000 mod 86400000"
      using assms(3) same div_mult_mod_eq [of "t div 1000" 86400000] div_mult_mod_eq [of "u div 1000" 86400000]
      unfolding ms_of_day(1) [symmetric] by linarith
    then have "clock_string (nat (t mod us_per_day div 1000)) < clock_string (nat (u mod us_per_day div 1000))"
      unfolding ms_of_day(2) by (intro clock_string_less) (simp_all add: nat_less_iff)
    moreover have "length (clock_string (nat (v mod us_per_day div 1000))) = 12" for v
      by (simp add: clock_string_def pad_width us_per_day_def nat_less_iff div_less_iff_less_mult)
    ultimately show ?thesis
      using assms same by (simp add: Format_timeFormat_parts in_layout_def append_less_same append_less)
  qed
qed

text \<open>
  C40. Timestamps sort as strings: \<open>timeFormat\<close> gives every time of a year of at most four
  digits a text of 24 bytes, and byte by byte two texts are in the order of their times at the
  precision of the layout, the millisecond; times of the same millisecond have the same text.
\<close>

theorem timestamps_sort:
  assumes "0 \<le> Year t" and "Year t \<le> 9999" and "0 \<le> Year u" and "Year u \<le> 9999"
  shows "length (Format_timeFormat t) = 24
    \<and> (Format_timeFormat t \<le> Format_timeFormat u \<longleftrightarrow> t div 1000 \<le> u div 1000)"
proof
  show "length (Format_timeFormat t) = 24"
    using assms(1,2) by (simp add: Format_timeFormat_length in_layout_def)
  show "Format_timeFormat t \<le> Format_timeFormat u \<longleftrightarrow> t div 1000 \<le> u div 1000"
    using assms Format_timeFormat_less [of t u] Format_timeFormat_less [of u t]
      Format_timeFormat_ms [of t u]
    by (cases "t div 1000" "u div 1000" rule: linorder_cases) (auto simp: in_layout_def)
qed

theorem timestamps_sort_witness:
  "Format_timeFormat 1709164800123456 = ''2024-02-29T00:00:00.123Z''
     \<and> Format_timeFormat 1709164800123456 < Format_timeFormat 1709251200000000"
proof -
  have "0 \<le> Year 1709164800123456" "Year 1709164800123456 \<le> 9999"
    "0 \<le> Year 1709251200000000" "Year 1709251200000000 \<le> 9999"
    by code_simp+
  note sort = timestamps_sort [OF this(3,4) this(1,2)]
  have "Format_timeFormat 1709164800123456 = ''2024-02-29T00:00:00.123Z''" by code_simp
  with sort show ?thesis by (simp add: linorder_not_le)
qed

end
