(* ===== verification/Spec2Isabelle.thy ===== *)
theory Spec2Isabelle
  imports Domain_Props Outbox_Props Api_Props Api_Events Migrate_Props Test_Db Process_Props
    Config Locking Time_Order
begin

text \<open>
  A verification library for \<open>go-ledger\<close> (sumzero): a double-entry ledger over
  PostgreSQL with an HTTP API, idempotent transfers and a transactional outbox.

  The program. A request to move money goes through \<open>internal/ledger/service.go\<close>, which
  validates it, to \<open>internal/storage/postgres/store.go\<close>, which does everything in one
  database transaction: claim the idempotency key, lock the two accounts in id order,
  check currency and funds, insert the transaction and its two entries, move the cached
  balances, insert an outbox event, render and store the response, commit. A second
  request under the same key gets the stored response. The relay of
  \<open>internal/outbox/relay.go\<close> polls \<open>DispatchBatch\<close> of
  \<open>internal/storage/postgres/outbox.go\<close>, which claims due events, publishes each and
  records the attempt; \<open>ReplayEvent\<close> publishes one event again on demand. The HTTP layer
  of \<open>internal/httpapi\<close> turns requests into these calls and errors into \<open>problem+json\<close>
  documents; \<open>internal/idempotency\<close> gives a request the fingerprint its key is bound to.
  \<open>cmd/migrate\<close> brings the schema up to date, \<open>internal/config\<close> reads the environment;
  \<open>cmd/api\<close> and \<open>cmd/relay\<close> open the pool, run the parts and shut them down on a signal.

  The theories, in import order, and what they model.
  \<^item> \<open>Prelude\<close>: Go and SQL scalars, 64-bit arithmetic, sums over filtered rows.
  \<^item> \<open>Decimal\<close>: decimal literals; \<open>Json\<close>: JSON values and the order of \<open>jsonb\<close>.
  \<^item> \<open>Errors\<close>: error values, \<open>errors.Is\<close> and \<open>errors.As\<close>, what the driver may return.
  \<^item> \<open>Domain\<close>: \<open>internal/ledger\<close> (money, accounts, transactions, commands, claims).
  \<^item> \<open>Event\<close>: \<open>internal/outbox/event.go\<close>; \<open>Publisher\<close>: publishers and the retry policy.
  \<^item> \<open>Schema\<close>: the tables, constraints and the deferred trigger of \<open>migrations/*.sql\<close>, one
    database transaction as starting state plus working state, and the environment of a
    call.
  \<^item> \<open>Outbox_Store\<close>, \<open>Store\<close>: the two files of the repository, statement by statement.
  \<^item> \<open>Store_Facts\<close>: inversion rules for every step of a transfer, composed into its effect.
  \<^item> \<open>Locking\<close>: the locks of transfers, replays and dispatches, taken one by one and
    interleaved, and that they cannot deadlock.
  \<^item> \<open>Ledger_Inv\<close>: the invariant of the ledger tables and its preservation.
  \<^item> \<open>Service\<close>: the service, the contract of its \<open>Repository\<close> as a locale, interpreted on
    the store.
  \<^item> \<open>Ledger_Spec\<close>: the abstract ledger and the refinement of it by the store.
  \<^item> \<open>Outbox_Facts\<close>, \<open>Outbox_Inv\<close>, \<open>Outbox_Delivery\<close>: settled attempts, the invariant of
    the outbox, and the contract of publishers as locales, interpreted on the program's.
  \<^item> \<open>Relay\<close>: the drain and polling loops and the contract under which they return.
  \<^item> \<open>System\<close>: all operations as steps of one system, reachable states, their invariant.
  \<^item> \<open>Retries\<close>: a claim followed through repeated requests.
  \<^item> \<open>Utf8\<close>, \<open>Json_Lex\<close>, \<open>Json_Text\<close>, \<open>Json_Any\<close>: what the program uses of \<open>encoding/json\<close>:
    the decoder over bytes with its nesting limit, the encoder with its escapes, and that
    decoding inverts encoding, for strings of UTF-8 exactly and for others up to the
    replacement of invalid bytes. \<open>Sha256\<close>: \<open>crypto/sha256\<close> and hexadecimal digits.
  \<^item> \<open>Idempotency\<close>: \<open>internal/idempotency/idempotency.go\<close>, and the relation \<open>same_value\<close>
    that its canonical form decides.
  \<^item> \<open>Go_Time\<close>: \<open>time.Format\<close> for the two layouts in use. \<open>Http\<close>: \<open>problem.go\<close>,
    \<open>errors.go\<close>, \<open>json.go\<close> and the filling of structs; \<open>Handlers\<close>: \<open>accounts.go\<close>,
    \<open>transactions.go\<close>, \<open>events.go\<close> and the routes of \<open>router.go\<close>.
  \<^item> \<open>Http_Facts\<close>, \<open>Api\<close>, \<open>Api_Facts\<close>: refusals and error documents; the contract of the
    backend as a locale, interpreted on the store; requests and relay batches as steps
    that refine those of \<open>System\<close>; what a client error, a retry and a response look like.
  \<^item> \<open>Strconv\<close>: \<open>strconv.ParseInt\<close> and \<open>Atoi\<close>. \<open>Migrate\<close>, \<open>Migrate_Facts\<close>: \<open>internal/storage/postgres/migrate.go\<close> and
    \<open>cmd/migrate/main.go\<close>; runs as sequences of whole migrations. \<open>Config\<close>:
    \<open>internal/config/config.go\<close>. \<open>Test_Db\<close>: \<open>internal/platform/pgtest/pgtest.go\<close>, the
    schema of an integration test, created, migrated and dropped.
  \<^item> \<open>Process\<close>: \<open>internal/storage/postgres/db.go\<close>, \<open>cmd/api/main.go\<close>,
    \<open>cmd/relay/main.go\<close> and the request log of \<open>router.go\<close>. The running API is a
    machine: a place for the main goroutine (\<open>main_at\<close>: the two \<open>select\<close> statements,
    \<open>Shutdown\<close>, the deferred \<open>Close\<close>) and for the relay, the counts of requests in flight
    and of connections in use, the signal and the deadline; requests and batches change
    the database only while they hold a connection. \<open>Process_Props\<close>: what has been checked
    when the API started, and what is true when it exits.
  \<^item> \<open>Time_Order\<close>: the calendar in eras of 400 years, and the order of formatted times.
  \<^item> \<open>Api_Reads\<close>, \<open>Api_Events\<close>: what was posted is served by the reading routes and announced
    by the relay, after any further steps.
  \<^item> \<open>Demo\<close>, \<open>Api_Demo\<close>: concrete inputs; \<open>Ledger_Props\<close>, \<open>Domain_Props\<close>,
    \<open>Outbox_Props\<close>, \<open>Api_Props\<close>, \<open>Migrate_Props\<close>: the properties, numbered C1 onwards (with
    those of \<open>Locking\<close> and of the three theories above), each with a concrete instance.

  State and faults. A database is the record \<open>db\<close>: maps for tables reached by primary key,
  lists in insertion order for the others. An operation of the store is a function of
  its environment \<open>env\<close> and the database, with its result and the database it leaves.
  The environment holds what PostgreSQL, pgx and google/uuid decide: the clock of the
  transaction, the new ids, which driver calls fail and with what error, whether a commit
  whose call failed had been applied, which byte strings the server accepts, which rows
  others hold locked, and the order of a scan. The properties hold for every
  environment unless they say otherwise, so for every combination of faults.
  Operations are atomic steps: each runs in one database transaction that holds the locks
  on what it changes; \<open>Locking\<close> takes the steps apart into the locks they wait for.
  Publishers thread a state of their own that no rollback undoes.

  Bounds. Amounts and balances are 64-bit words read as signed; Go's wrapping addition and
  PostgreSQL's overflow errors are both written out. The drain loop is a partial function;
  it is proved to return when its batches lie within one second, the shortest backoff.

  JSON numbers keep their literal text. The decoder refuses documents nested deeper than
  10000 levels, as \<open>encoding/json\<close> does; what the API writes has a depth of at most
  three. Request bodies are bounded by 1 MiB, keys by 255 bytes.

  Parameters of the API model: the multiplexer (which route of the table chi selects for a
  method and a path, with the value of \<open>{id}\<close>), \<open>uuid.Parse\<close>, the wording of the errors of
  \<open>encoding/json\<close>, and the id of a new account. Parameters of the migrations: the schema a
  script leaves, failing calls, the clock and the order of a loop over a map. Parameters of
  the processes: \<open>time.ParseDuration\<close> and what pgxpool answers.

  The steps of the processes. \<open>Shutdown\<close> is taken by what \<open>net/http\<close> documents: it stops the
  listener, waits for the requests in flight and gives up with the error of its context;
  \<open>Close\<close> of the pool waits for the connections in use and no more are handed out. A
  \<open>select\<close> with several ready branches may take any. The machine has no clock: the deadline
  may pass at any moment of a shutdown.

  Not modelled: what is done with log records, chi's own middleware (request ids, recovery
  from panics, the timeout, which appears only as failing database calls), contexts other
  than as faults of driver calls and the two of the shutdown, the limits that
  \<open>http.Server\<close> and the pool enforce by their options, and sequence values burnt by
  statements that failed. \<open>time.ParseDuration\<close> is a parameter of the configuration because
  it computes with floating-point numbers.
\<close>

end
